theory Spec2Isabelle
  imports Complex_Main "HOL-Library.Word" "HOL-Library.Log_Nat"
begin

section \<open>Durations and float64 arithmetic\<close>

text \<open>
  \<^verbatim>\<open>time.Duration\<close> is an \<^verbatim>\<open>int64\<close> counting nanoseconds: a 64-bit word read as a
  signed number, whose addition and multiplication wrap.
\<close>

type_synonym duration = "64 word"

definition Millisecond :: duration where
  "Millisecond = 1000000"

definition Second :: duration where
  "Second = 1000000000"

text \<open>
  \<^verbatim>\<open>float64\<close> is IEEE 754 binary64: every operation returns the exact result rounded
  to the nearest number with a 53-bit significand, ties to the even significand.
  \<open>fl64\<close> is that rounding on the reals. The exponent range (overflow beyond
  \<open>2 ^ 1024\<close>, subnormals below \<open>2 ^ -1022\<close>) is not modelled: the values
  that \<^verbatim>\<open>jitter\<close> computes from an \<^verbatim>\<open>int64\<close> stay far inside it.
  \<open>ilog2 a\<close> is the binary exponent \<open>\<lfloor>log 2 a\<rfloor>\<close> of a positive real, computed
  from bit lengths; \<open>rne\<close> rounds to the nearest integer, ties to even.
\<close>

definition ilog2 :: "real \<Rightarrow> int" where
  "ilog2 a = (if 1 \<le> a then bitlen \<lfloor>a\<rfloor> - 1 else - bitlen (\<lceil>1 / a\<rceil> - 1))"

definition rne :: "real \<Rightarrow> int" where
  "rne x = (let n = \<lfloor>x\<rfloor>; r = x - of_int n in
     if r < 1 / 2 then n else if 1 / 2 < r then n + 1 else if even n then n else n + 1)"

definition fl64 :: "real \<Rightarrow> real" where
  "fl64 x = (if x = 0 then 0 else
     let e = ilog2 \<bar>x\<bar> - 52 in of_int (rne (x / 2 powi e)) * 2 powi e)"

text \<open>
  The conversion \<^verbatim>\<open>float64(d)\<close> of an \<^verbatim>\<open>int64\<close> rounds to nearest; the conversion
  \<^verbatim>\<open>time.Duration(f)\<close> of a \<^verbatim>\<open>float64\<close> discards the fraction (truncation towards
  zero).
\<close>

definition float64_of_duration :: "duration \<Rightarrow> real" where
  "float64_of_duration d = fl64 (real_of_int (sint d))"

definition trunc :: "real \<Rightarrow> int" where
  "trunc x = (if 0 \<le> x then \<lfloor>x\<rfloor> else \<lceil>x\<rceil>)"

definition duration_of_float64 :: "real \<Rightarrow> duration" where
  "duration_of_float64 x = word_of_int (trunc x)"

text \<open>
  The numbers of \<^verbatim>\<open>float64\<close>, the exponent range apart: an integer of at most 53 bits
  times a power of two.
\<close>

definition representable :: "real \<Rightarrow> bool" where
  "representable x \<longleftrightarrow> (\<exists>k j. x = of_int k * 2 powi j \<and> \<bar>k\<bar> \<le> 2 ^ 53)"

section \<open>The backoff policy\<close>

text \<open>
  \<^verbatim>\<open>
  func jitter(d time.Duration) time.Duration {
      f := float64(d)
      f /= 50
      f += f * (rand.Float64() - 0.5)
      return time.Duration(f)
  }
  \<close>
  \<^verbatim>\<open>rand.Float64()\<close> reads the global generator: the model takes the generator \<open>rnd\<close>
  as a function of the state that returns the draw.
\<close>

definition jitter :: "('s \<Rightarrow> real \<times> 's) \<Rightarrow> duration \<Rightarrow> 's \<Rightarrow> duration \<times> 's" where
  "jitter rnd d s =
     (let f0 = float64_of_duration d;
          f1 = fl64 (f0 / 50)
      in case rnd s of (draw, s') \<Rightarrow>
           (duration_of_float64 (fl64 (f1 + fl64 (f1 * fl64 (draw - 0.5)))), s'))"

text \<open>
  \<^verbatim>\<open>
  func getBackoff(d time.Duration) time.Duration {
      if d > 15*time.Second {
          return d + jitter(d)
      }
      return d*2 + jitter(d*2)
  }
  \<close>
\<close>

definition getBackoff :: "('s \<Rightarrow> real \<times> 's) \<Rightarrow> duration \<Rightarrow> 's \<Rightarrow> duration \<times> 's" where
  "getBackoff rnd d s =
     (if sint (15 * Second) < sint d
      then (case jitter rnd d s of (j, s') \<Rightarrow> (d + j, s'))
      else (case jitter rnd (d * 2) s of (j, s') \<Rightarrow> (d * 2 + j, s')))"

section \<open>The retry and reauthentication executors\<close>

text \<open>
  Go's \<^verbatim>\<open>error\<close> is \<open>'e option\<close>: \<open>None\<close> is \<^verbatim>\<open>nil\<close>. A computation that may
  run forever returns an \<open>option\<close>: \<open>None\<close> when it does not return.

  The three classification hooks of \<^verbatim>\<open>beRootInterface\<close> are what \<^verbatim>\<open>withBackoff\<close>
  calls on its \<^verbatim>\<open>ri\<close>; \<^verbatim>\<open>withReauth\<close> also calls \<^verbatim>\<open>reauthorizeAccount\<close>. The
  interface value is a record of its methods, each a function of the state; the
  record with the hooks alone is what a \<^verbatim>\<open>*beRoot\<close> passes for itself from inside
  \<^verbatim>\<open>authorizeAccount\<close>.
\<close>

record ('s, 'e) classifier =
  ri_backoff :: "'e option \<Rightarrow> 's \<Rightarrow> (duration \<times> bool) \<times> 's"
  ri_reauth :: "'e option \<Rightarrow> 's \<Rightarrow> bool \<times> 's"
  ri_transient :: "'e option \<Rightarrow> 's \<Rightarrow> bool \<times> 's"

record ('s, 'e, 'c) beRootInterface = "('s, 'e) classifier" +
  ri_reauthorizeAccount :: "'c \<Rightarrow> 's \<Rightarrow> ('e option \<times> 's) option"

text \<open>
  What the executors use of the Go runtime and library: the \<^verbatim>\<open>select\<close> between
  \<^verbatim>\<open><-ctx.Done()\<close> and \<^verbatim>\<open><-time.After(backoff)\<close> (\<open>True\<close> when the \<^verbatim>\<open>Done\<close> case is
  taken), \<^verbatim>\<open>ctx.Err()\<close>, and \<^verbatim>\<open>rand.Float64()\<close>.
\<close>

record ('s, 'e, 'c) runtime =
  rt_select_Done :: "'c \<Rightarrow> duration \<Rightarrow> 's \<Rightarrow> bool \<times> 's"
  rt_Err :: "'c \<Rightarrow> 's \<Rightarrow> 'e option \<times> 's"
  rt_Float64 :: "'s \<Rightarrow> real \<times> 's"

text \<open>
  \<^verbatim>\<open>
  func withBackoff(ctx context.Context, ri beRootInterface, f func() (bool, error)) error {
      backoff := 500 * time.Millisecond
      for {
          final, err := f()
          if final { return err }
          if !ri.transient(err) { return err }
          bo, ok := ri.backoff(err)
          if ok { backoff = bo } else { backoff = getBackoff(backoff) }
          select {
          case <-ctx.Done(): return ctx.Err()
          case <-time.After(backoff):
          }
      }
  }
  \<close>
  The loop has no bound: \<open>withBackoff_loop\<close> is its body from the running backoff
  value.
\<close>

partial_function (option) withBackoff_loop ::
  "('s, 'e, 'c) runtime \<Rightarrow> 'c \<Rightarrow> ('s, 'e, 'z) classifier_scheme \<Rightarrow>
   ('s \<Rightarrow> ((bool \<times> 'e option) \<times> 's) option) \<Rightarrow> duration \<Rightarrow> 's \<Rightarrow> ('e option \<times> 's) option"
where
  "withBackoff_loop rt ctx ri f backoff s =
     (case f s of
        None \<Rightarrow> None
      | Some ((final, err), s1) \<Rightarrow>
          if final then Some (err, s1)
          else (case ri_transient ri err s1 of (tr, s2) \<Rightarrow>
            if \<not> tr then Some (err, s2)
            else (case ri_backoff ri err s2 of ((bo, ok), s3) \<Rightarrow>
              (case (if ok then (bo, s3) else getBackoff (rt_Float64 rt) backoff s3) of
                 (backoff', s4) \<Rightarrow>
                   (case rt_select_Done rt ctx backoff' s4 of (done, s5) \<Rightarrow>
                      if done then Some (rt_Err rt ctx s5)
                      else withBackoff_loop rt ctx ri f backoff' s5)))))"

definition withBackoff ::
  "('s, 'e, 'c) runtime \<Rightarrow> 'c \<Rightarrow> ('s, 'e, 'z) classifier_scheme \<Rightarrow>
   ('s \<Rightarrow> ((bool \<times> 'e option) \<times> 's) option) \<Rightarrow> 's \<Rightarrow> ('e option \<times> 's) option" where
  "withBackoff rt ctx ri f s = withBackoff_loop rt ctx ri f (500 * Millisecond) s"

text \<open>
  \<^verbatim>\<open>
  func withReauth(ctx context.Context, ri beRootInterface, f func() error) error {
      err := f()
      if ri.reauth(err) {
          if err := ri.reauthorizeAccount(ctx); err != nil { return err }
          err = f()
      }
      return err
  }
  \<close>
\<close>

definition withReauth ::
  "'c \<Rightarrow> ('s, 'e, 'c) beRootInterface \<Rightarrow> ('s \<Rightarrow> ('e option \<times> 's) option) \<Rightarrow>
   's \<Rightarrow> ('e option \<times> 's) option" where
  "withReauth ctx ri f s =
     (case f s of
        None \<Rightarrow> None
      | Some (err, s1) \<Rightarrow>
          (case ri_reauth ri err s1 of (re, s2) \<Rightarrow>
             if re then
               (case ri_reauthorizeAccount ri ctx s2 of
                  None \<Rightarrow> None
                | Some (Some err', s3) \<Rightarrow> Some (Some err', s3)
                | Some (None, s3) \<Rightarrow> f s3)
             else Some (err, s2)))"

section \<open>The raw client, the heap of sessions and the state\<close>

text \<open>
  The wrapped client (\<^verbatim>\<open>b2RootInterface\<close>, \<^verbatim>\<open>b2BucketInterface\<close>, \<^verbatim>\<open>b2URLInterface\<close>,
  \<^verbatim>\<open>b2FileInterface\<close>), the context and the random generator are outside this file.
  A raw handle and a context are opaque identities; the methods are functions of the
  receiver, the arguments and the state \<open>'w\<close> of the outside world (network, clock,
  generator), which they may change. Nothing is assumed of them.
\<close>

datatype b2Root = B2Root nat
datatype b2Bucket = B2Bucket nat
datatype b2URL = B2URL nat
datatype b2File = B2File nat
datatype ctx = Ctx nat
datatype reader = Reader nat

record ('w, 'e) b2 =
  b2_backoff :: "b2Root \<Rightarrow> 'e option \<Rightarrow> 'w \<Rightarrow> (duration \<times> bool) \<times> 'w"
  b2_reauth :: "b2Root \<Rightarrow> 'e option \<Rightarrow> 'w \<Rightarrow> bool \<times> 'w"
  b2_transient :: "b2Root \<Rightarrow> 'e option \<Rightarrow> 'w \<Rightarrow> bool \<times> 'w"
  b2_authorizeAccount :: "b2Root \<Rightarrow> ctx \<Rightarrow> string \<Rightarrow> string \<Rightarrow> 'w \<Rightarrow> 'e option \<times> 'w"
  b2_createBucket ::
    "b2Root \<Rightarrow> ctx \<Rightarrow> string \<Rightarrow> string \<Rightarrow> 'w \<Rightarrow> (b2Bucket \<times> 'e option) \<times> 'w"
  b2_listBuckets :: "b2Root \<Rightarrow> ctx \<Rightarrow> 'w \<Rightarrow> (b2Bucket list \<times> 'e option) \<times> 'w"
  b2_name :: "b2Bucket \<Rightarrow> 'w \<Rightarrow> string \<times> 'w"
  b2_deleteBucket :: "b2Bucket \<Rightarrow> ctx \<Rightarrow> 'w \<Rightarrow> 'e option \<times> 'w"
  b2_getUploadURL :: "b2Bucket \<Rightarrow> ctx \<Rightarrow> 'w \<Rightarrow> (b2URL \<times> 'e option) \<times> 'w"
  b2_uploadFile ::
    "b2URL \<Rightarrow> ctx \<Rightarrow> reader \<Rightarrow> int \<Rightarrow> string \<Rightarrow> string \<Rightarrow> string \<Rightarrow>
     (string \<rightharpoonup> string) \<Rightarrow> 'w \<Rightarrow> (b2File \<times> 'e option) \<times> 'w"
  b2_deleteFileVersion :: "b2File \<Rightarrow> ctx \<Rightarrow> 'w \<Rightarrow> 'e option \<times> 'w"
  ctx_Done_first :: "ctx \<Rightarrow> duration \<Rightarrow> 'w \<Rightarrow> bool \<times> 'w"
  ctx_Err :: "ctx \<Rightarrow> 'w \<Rightarrow> 'e option \<times> 'w"
  rand_Float64 :: "'w \<Rightarrow> real \<times> 'w"

text \<open>
  A \<^verbatim>\<open>*beRoot\<close> is an address \<open>ref\<close> into the heap \<open>roots\<close> of session objects; the
  handles hold that address in \<open>ri\<close>, so two handles with the same \<open>ri\<close> read the same
  \<open>account\<close> and \<open>key\<close>. A handle returned as \<^verbatim>\<open>nil\<close> is \<open>None\<close>.
\<close>

type_synonym ref = nat

record beRoot =
  account :: string
  key :: string
  b2i :: b2Root

record beBucket =
  b2bucket :: b2Bucket
  bucket_ri :: ref

record beURL =
  b2url :: b2URL
  url_ri :: ref

record beFile =
  b2file :: b2File
  file_url :: beURL
  file_ri :: ref

text \<open>
  The trace is a ghost: it records each call of a raw method, each call of
  \<^verbatim>\<open>reauthorizeAccount\<close> and each backoff wait with the way it ended, and is read by
  nothing. \<open>captured\<close> is the variable that the closures of an operation assign
  (\<^verbatim>\<open>bi\<close>, \<^verbatim>\<open>buckets\<close>, \<^verbatim>\<open>url\<close>, \<^verbatim>\<open>file\<close>).
\<close>

datatype opname =
  AuthorizeAccount | CreateBucket | ListBuckets | Name | DeleteBucket | GetUploadURL
  | UploadFile | DeleteFileVersion

datatype event = Raw opname | Reauthorize | Wait duration | Cancelled duration

record ('w, 'l) state =
  world :: 'w
  roots :: "ref \<Rightarrow> beRoot"
  trace :: "event list"
  captured :: 'l

definition ext :: "('w \<Rightarrow> 'a \<times> 'w) \<Rightarrow> ('w, 'l) state \<Rightarrow> 'a \<times> ('w, 'l) state" where
  "ext h s = (case h (world s) of (x, w') \<Rightarrow> (x, s\<lparr>world := w'\<rparr>))"

definition emit :: "event \<Rightarrow> ('w, 'l) state \<Rightarrow> ('w, 'l) state" where
  "emit ev s = s\<lparr>trace := trace s @ [ev]\<rparr>"

definition raw :: "opname \<Rightarrow> ('w \<Rightarrow> 'a \<times> 'w) \<Rightarrow> ('w, 'l) state \<Rightarrow> 'a \<times> ('w, 'l) state" where
  "raw X h s = ext h (emit (Raw X) s)"

definition runtime_of :: "('w, 'e) b2 \<Rightarrow> (('w, 'l) state, 'e, ctx) runtime" where
  "runtime_of env =
     \<lparr>rt_select_Done = (\<lambda>c d s. case ext (ctx_Done_first env c d) s of
          (done, s') \<Rightarrow> (done, emit (if done then Cancelled d else Wait d) s')),
      rt_Err = (\<lambda>c. ext (ctx_Err env c)),
      rt_Float64 = ext (rand_Float64 env)\<rparr>"

section \<open>The session: beRoot\<close>

text \<open>
  \<^verbatim>\<open>
  func (r *beRoot) backoff(err error) (time.Duration, bool) { return r.b2i.backoff(err) }
  func (r *beRoot) reauth(err error) bool                   { return r.b2i.reauth(err) }
  func (r *beRoot) transient(err error) bool                { return r.b2i.transient(err) }
  \<close>
\<close>

definition beRoot_backoff ::
  "('w, 'e) b2 \<Rightarrow> ref \<Rightarrow> 'e option \<Rightarrow> ('w, 'l) state \<Rightarrow> (duration \<times> bool) \<times> ('w, 'l) state" where
  "beRoot_backoff env r err s = ext (b2_backoff env (b2i (roots s r)) err) s"

definition beRoot_reauth ::
  "('w, 'e) b2 \<Rightarrow> ref \<Rightarrow> 'e option \<Rightarrow> ('w, 'l) state \<Rightarrow> bool \<times> ('w, 'l) state" where
  "beRoot_reauth env r err s = ext (b2_reauth env (b2i (roots s r)) err) s"

definition beRoot_transient ::
  "('w, 'e) b2 \<Rightarrow> ref \<Rightarrow> 'e option \<Rightarrow> ('w, 'l) state \<Rightarrow> bool \<times> ('w, 'l) state" where
  "beRoot_transient env r err s = ext (b2_transient env (b2i (roots s r)) err) s"

definition beRoot_classifier :: "('w, 'e) b2 \<Rightarrow> ref \<Rightarrow> (('w, 'l) state, 'e) classifier" where
  "beRoot_classifier env r =
     \<lparr>ri_backoff = beRoot_backoff env r,
      ri_reauth = beRoot_reauth env r,
      ri_transient = beRoot_transient env r\<rparr>"

text \<open>
  \<^verbatim>\<open>
  func (r *beRoot) authorizeAccount(ctx context.Context, account, key string) error {
      f := func() (bool, error) {
          if err := r.b2i.authorizeAccount(ctx, account, key); err != nil {
              return false, err
          }
          r.account = account
          r.key = key
          return true, nil
      }
      return withBackoff(ctx, r, f)
  }

  func (r *beRoot) reauthorizeAccount(ctx context.Context) error {
      return r.authorizeAccount(ctx, r.account, r.key)
  }
  \<close>
\<close>

definition authorizeAccount_f ::
  "('w, 'e) b2 \<Rightarrow> ref \<Rightarrow> ctx \<Rightarrow> string \<Rightarrow> string \<Rightarrow> ('w, 'l) state \<Rightarrow>
   ((bool \<times> 'e option) \<times> ('w, 'l) state) option" where
  "authorizeAccount_f env r ctx acct k s =
     (case raw AuthorizeAccount (b2_authorizeAccount env (b2i (roots s r)) ctx acct k) s of
        (Some e, s1) \<Rightarrow> Some ((False, Some e), s1)
      | (None, s1) \<Rightarrow>
          Some ((True, None),
                s1\<lparr>roots := (roots s1)(r := (roots s1 r)\<lparr>account := acct, key := k\<rparr>)\<rparr>))"

definition beRoot_authorizeAccount ::
  "('w, 'e) b2 \<Rightarrow> ref \<Rightarrow> ctx \<Rightarrow> string \<Rightarrow> string \<Rightarrow> ('w, 'l) state \<Rightarrow>
   ('e option \<times> ('w, 'l) state) option" where
  "beRoot_authorizeAccount env r ctx acct k s =
     withBackoff (runtime_of env) ctx (beRoot_classifier env r)
       (authorizeAccount_f env r ctx acct k) s"

definition beRoot_reauthorizeAccount ::
  "('w, 'e) b2 \<Rightarrow> ref \<Rightarrow> ctx \<Rightarrow> ('w, 'l) state \<Rightarrow> ('e option \<times> ('w, 'l) state) option" where
  "beRoot_reauthorizeAccount env r ctx s =
     (let s0 = emit Reauthorize s
      in beRoot_authorizeAccount env r ctx (account (roots s0 r)) (key (roots s0 r)) s0)"

definition beRoot_iface ::
  "('w, 'e) b2 \<Rightarrow> ref \<Rightarrow> (('w, 'l) state, 'e, ctx) beRootInterface" where
  "beRoot_iface env r =
     \<lparr>ri_backoff = beRoot_backoff env r,
      ri_reauth = beRoot_reauth env r,
      ri_transient = beRoot_transient env r,
      ri_reauthorizeAccount = beRoot_reauthorizeAccount env r\<rparr>"

text \<open>
  \<^verbatim>\<open>
  func (r *beRoot) createBucket(ctx context.Context, name, btype string) (beBucketInterface, error) {
      var bi beBucketInterface
      f := func() (bool, error) {
          g := func() error {
              bucket, err := r.b2i.createBucket(ctx, name, btype)
              if err != nil { return err }
              bi = &beBucket{b2bucket: bucket, ri: r}
              return nil
          }
          if err := withReauth(ctx, r, g); err != nil { return false, err }
          return true, nil
      }
      if err := withBackoff(ctx, r, f); err != nil { return nil, err }
      return bi, nil
  }
  \<close>
\<close>

definition createBucket_g ::
  "('w, 'e) b2 \<Rightarrow> ref \<Rightarrow> ctx \<Rightarrow> string \<Rightarrow> string \<Rightarrow> ('w, beBucket option) state \<Rightarrow>
   ('e option \<times> ('w, beBucket option) state) option" where
  "createBucket_g env r ctx name btype s =
     (case raw CreateBucket (b2_createBucket env (b2i (roots s r)) ctx name btype) s of
        ((bucket, Some e), s1) \<Rightarrow> Some (Some e, s1)
      | ((bucket, None), s1) \<Rightarrow>
          Some (None, s1\<lparr>captured := Some \<lparr>b2bucket = bucket, bucket_ri = r\<rparr>\<rparr>))"

definition createBucket_f ::
  "('w, 'e) b2 \<Rightarrow> ref \<Rightarrow> ctx \<Rightarrow> string \<Rightarrow> string \<Rightarrow> ('w, beBucket option) state \<Rightarrow>
   ((bool \<times> 'e option) \<times> ('w, beBucket option) state) option" where
  "createBucket_f env r ctx name btype s =
     (case withReauth ctx (beRoot_iface env r) (createBucket_g env r ctx name btype) s of
        None \<Rightarrow> None
      | Some (Some e, s1) \<Rightarrow> Some ((False, Some e), s1)
      | Some (None, s1) \<Rightarrow> Some ((True, None), s1))"

definition beRoot_createBucket ::
  "('w, 'e) b2 \<Rightarrow> ref \<Rightarrow> ctx \<Rightarrow> string \<Rightarrow> string \<Rightarrow> ('w, beBucket option) state \<Rightarrow>
   ((beBucket option \<times> 'e option) \<times> ('w, beBucket option) state) option" where
  "beRoot_createBucket env r ctx name btype s =
     (case withBackoff (runtime_of env) ctx (beRoot_iface env r)
             (createBucket_f env r ctx name btype) (s\<lparr>captured := None\<rparr>) of
        None \<Rightarrow> None
      | Some (Some e, s1) \<Rightarrow> Some ((None, Some e), s1)
      | Some (None, s1) \<Rightarrow> Some ((captured s1, None), s1))"

text \<open>
  \<^verbatim>\<open>
  func (r *beRoot) listBuckets(ctx context.Context) ([]beBucketInterface, error) {
      var buckets []beBucketInterface
      f := func() (bool, error) {
          g := func() error {
              bs, err := r.b2i.listBuckets(ctx)
              if err != nil { return err }
              for _, b := range bs {
                  buckets = append(buckets, &beBucket{b2bucket: b, ri: r})
              }
              return nil
          }
          if err := withReauth(ctx, r, g); err != nil { return false, err }
          return true, nil
      }
      if err := withBackoff(ctx, r, f); err != nil { return nil, err }
      return buckets, nil
  }
  \<close>
  A \<^verbatim>\<open>nil\<close> slice is the empty list.
\<close>

definition listBuckets_g ::
  "('w, 'e) b2 \<Rightarrow> ref \<Rightarrow> ctx \<Rightarrow> ('w, beBucket list) state \<Rightarrow>
   ('e option \<times> ('w, beBucket list) state) option" where
  "listBuckets_g env r ctx s =
     (case raw ListBuckets (b2_listBuckets env (b2i (roots s r)) ctx) s of
        ((bs, Some e), s1) \<Rightarrow> Some (Some e, s1)
      | ((bs, None), s1) \<Rightarrow>
          Some (None, s1\<lparr>captured :=
                  captured s1 @ map (\<lambda>b. \<lparr>b2bucket = b, bucket_ri = r\<rparr>) bs\<rparr>))"

definition listBuckets_f ::
  "('w, 'e) b2 \<Rightarrow> ref \<Rightarrow> ctx \<Rightarrow> ('w, beBucket list) state \<Rightarrow>
   ((bool \<times> 'e option) \<times> ('w, beBucket list) state) option" where
  "listBuckets_f env r ctx s =
     (case withReauth ctx (beRoot_iface env r) (listBuckets_g env r ctx) s of
        None \<Rightarrow> None
      | Some (Some e, s1) \<Rightarrow> Some ((False, Some e), s1)
      | Some (None, s1) \<Rightarrow> Some ((True, None), s1))"

definition beRoot_listBuckets ::
  "('w, 'e) b2 \<Rightarrow> ref \<Rightarrow> ctx \<Rightarrow> ('w, beBucket list) state \<Rightarrow>
   ((beBucket list \<times> 'e option) \<times> ('w, beBucket list) state) option" where
  "beRoot_listBuckets env r ctx s =
     (case withBackoff (runtime_of env) ctx (beRoot_iface env r)
             (listBuckets_f env r ctx) (s\<lparr>captured := []\<rparr>) of
        None \<Rightarrow> None
      | Some (Some e, s1) \<Rightarrow> Some (([], Some e), s1)
      | Some (None, s1) \<Rightarrow> Some ((captured s1, None), s1))"

section \<open>The bucket handle: beBucket\<close>

text \<open>
  \<^verbatim>\<open>
  func (b *beBucket) name() string {
      return b.b2bucket.name()
  }

  func (b *beBucket) deleteBucket(ctx context.Context) error {
      f := func() (bool, error) {
          g := func() error {
              return b.b2bucket.deleteBucket(ctx)
          }
          if err := withReauth(ctx, b.ri, g); err != nil { return false, err }
          return true, nil
      }
      return withBackoff(ctx, b.ri, f)
  }
  \<close>
  The \<^verbatim>\<open>ri\<close> of a handle is the \<^verbatim>\<open>*beRoot\<close> that made it.
\<close>

definition beBucket_name ::
  "('w, 'e) b2 \<Rightarrow> beBucket \<Rightarrow> ('w, 'l) state \<Rightarrow> string \<times> ('w, 'l) state" where
  "beBucket_name env b s = raw Name (b2_name env (b2bucket b)) s"

definition deleteBucket_g ::
  "('w, 'e) b2 \<Rightarrow> beBucket \<Rightarrow> ctx \<Rightarrow> ('w, 'l) state \<Rightarrow> ('e option \<times> ('w, 'l) state) option" where
  "deleteBucket_g env b ctx s = Some (raw DeleteBucket (b2_deleteBucket env (b2bucket b) ctx) s)"

definition deleteBucket_f ::
  "('w, 'e) b2 \<Rightarrow> beBucket \<Rightarrow> ctx \<Rightarrow> ('w, 'l) state \<Rightarrow>
   ((bool \<times> 'e option) \<times> ('w, 'l) state) option" where
  "deleteBucket_f env b ctx s =
     (case withReauth ctx (beRoot_iface env (bucket_ri b)) (deleteBucket_g env b ctx) s of
        None \<Rightarrow> None
      | Some (Some e, s1) \<Rightarrow> Some ((False, Some e), s1)
      | Some (None, s1) \<Rightarrow> Some ((True, None), s1))"

definition beBucket_deleteBucket ::
  "('w, 'e) b2 \<Rightarrow> beBucket \<Rightarrow> ctx \<Rightarrow> ('w, 'l) state \<Rightarrow> ('e option \<times> ('w, 'l) state) option" where
  "beBucket_deleteBucket env b ctx s =
     withBackoff (runtime_of env) ctx (beRoot_iface env (bucket_ri b)) (deleteBucket_f env b ctx) s"

text \<open>
  \<^verbatim>\<open>
  func (b *beBucket) getUploadURL(ctx context.Context) (beURLInterface, error) {
      var url beURLInterface
      f := func() (bool, error) {
          g := func() error {
              u, err := b.b2bucket.getUploadURL(ctx)
              if err != nil { return err }
              url = &beURL{b2url: u, ri: b.ri}
              return nil
          }
          if err := withReauth(ctx, b.ri, g); err != nil { return false, err }
          return true, nil
      }
      if err := withBackoff(ctx, b.ri, f); err != nil { return nil, err }
      return url, nil
  }
  \<close>
\<close>

definition getUploadURL_g ::
  "('w, 'e) b2 \<Rightarrow> beBucket \<Rightarrow> ctx \<Rightarrow> ('w, beURL option) state \<Rightarrow>
   ('e option \<times> ('w, beURL option) state) option" where
  "getUploadURL_g env b ctx s =
     (case raw GetUploadURL (b2_getUploadURL env (b2bucket b) ctx) s of
        ((u, Some e), s1) \<Rightarrow> Some (Some e, s1)
      | ((u, None), s1) \<Rightarrow>
          Some (None, s1\<lparr>captured := Some \<lparr>b2url = u, url_ri = bucket_ri b\<rparr>\<rparr>))"

definition getUploadURL_f ::
  "('w, 'e) b2 \<Rightarrow> beBucket \<Rightarrow> ctx \<Rightarrow> ('w, beURL option) state \<Rightarrow>
   ((bool \<times> 'e option) \<times> ('w, beURL option) state) option" where
  "getUploadURL_f env b ctx s =
     (case withReauth ctx (beRoot_iface env (bucket_ri b)) (getUploadURL_g env b ctx) s of
        None \<Rightarrow> None
      | Some (Some e, s1) \<Rightarrow> Some ((False, Some e), s1)
      | Some (None, s1) \<Rightarrow> Some ((True, None), s1))"

definition beBucket_getUploadURL ::
  "('w, 'e) b2 \<Rightarrow> beBucket \<Rightarrow> ctx \<Rightarrow> ('w, beURL option) state \<Rightarrow>
   ((beURL option \<times> 'e option) \<times> ('w, beURL option) state) option" where
  "beBucket_getUploadURL env b ctx s =
     (case withBackoff (runtime_of env) ctx (beRoot_iface env (bucket_ri b))
             (getUploadURL_f env b ctx) (s\<lparr>captured := None\<rparr>) of
        None \<Rightarrow> None
      | Some (Some e, s1) \<Rightarrow> Some ((None, Some e), s1)
      | Some (None, s1) \<Rightarrow> Some ((captured s1, None), s1))"

section \<open>The upload target and the file: beURL, beFile\<close>

text \<open>
  \<^verbatim>\<open>
  func (b *beURL) uploadFile(ctx context.Context, r io.Reader, size int, name, ct, sha1 string,
          info map[string]string) (beFileInterface, error) {
      var file beFileInterface
      f := func() (bool, error) {
          g := func() error {
              f, err := b.b2url.uploadFile(ctx, r, size, name, ct, sha1, info)
              if err != nil { return err }
              file = &beFile{b2file: f, url: b, ri: b.ri}
              return nil
          }
          if err := withReauth(ctx, b.ri, g); err != nil { return false, err }
          return true, nil
      }
      if err := withBackoff(ctx, b.ri, f); err != nil { return nil, err }
      return file, nil
  }

  func (b *beFile) deleteFileVersion(ctx context.Context) error {
      f := func() (bool, error) {
          g := func() error {
              return b.b2file.deleteFileVersion(ctx)
          }
          if err := withReauth(ctx, b.ri, g); err != nil { return false, err }
          return true, nil
      }
      return withBackoff(ctx, b.ri, f)
  }
  \<close>
\<close>

definition uploadFile_g ::
  "('w, 'e) b2 \<Rightarrow> beURL \<Rightarrow> ctx \<Rightarrow> reader \<Rightarrow> int \<Rightarrow> string \<Rightarrow> string \<Rightarrow> string \<Rightarrow>
   (string \<rightharpoonup> string) \<Rightarrow> ('w, beFile option) state \<Rightarrow>
   ('e option \<times> ('w, beFile option) state) option" where
  "uploadFile_g env b ctx rd sz name ct sha1 info s =
     (case raw UploadFile (b2_uploadFile env (b2url b) ctx rd sz name ct sha1 info) s of
        ((fl, Some e), s1) \<Rightarrow> Some (Some e, s1)
      | ((fl, None), s1) \<Rightarrow>
          Some (None, s1\<lparr>captured := Some \<lparr>b2file = fl, file_url = b, file_ri = url_ri b\<rparr>\<rparr>))"

definition uploadFile_f ::
  "('w, 'e) b2 \<Rightarrow> beURL \<Rightarrow> ctx \<Rightarrow> reader \<Rightarrow> int \<Rightarrow> string \<Rightarrow> string \<Rightarrow> string \<Rightarrow>
   (string \<rightharpoonup> string) \<Rightarrow> ('w, beFile option) state \<Rightarrow>
   ((bool \<times> 'e option) \<times> ('w, beFile option) state) option" where
  "uploadFile_f env b ctx rd sz name ct sha1 info s =
     (case withReauth ctx (beRoot_iface env (url_ri b))
             (uploadFile_g env b ctx rd sz name ct sha1 info) s of
        None \<Rightarrow> None
      | Some (Some e, s1) \<Rightarrow> Some ((False, Some e), s1)
      | Some (None, s1) \<Rightarrow> Some ((True, None), s1))"

definition beURL_uploadFile ::
  "('w, 'e) b2 \<Rightarrow> beURL \<Rightarrow> ctx \<Rightarrow> reader \<Rightarrow> int \<Rightarrow> string \<Rightarrow> string \<Rightarrow> string \<Rightarrow>
   (string \<rightharpoonup> string) \<Rightarrow> ('w, beFile option) state \<Rightarrow>
   ((beFile option \<times> 'e option) \<times> ('w, beFile option) state) option" where
  "beURL_uploadFile env b ctx rd sz name ct sha1 info s =
     (case withBackoff (runtime_of env) ctx (beRoot_iface env (url_ri b))
             (uploadFile_f env b ctx rd sz name ct sha1 info) (s\<lparr>captured := None\<rparr>) of
        None \<Rightarrow> None
      | Some (Some e, s1) \<Rightarrow> Some ((None, Some e), s1)
      | Some (None, s1) \<Rightarrow> Some ((captured s1, None), s1))"

definition deleteFileVersion_g ::
  "('w, 'e) b2 \<Rightarrow> beFile \<Rightarrow> ctx \<Rightarrow> ('w, 'l) state \<Rightarrow> ('e option \<times> ('w, 'l) state) option" where
  "deleteFileVersion_g env b ctx s =
     Some (raw DeleteFileVersion (b2_deleteFileVersion env (b2file b) ctx) s)"

definition deleteFileVersion_f ::
  "('w, 'e) b2 \<Rightarrow> beFile \<Rightarrow> ctx \<Rightarrow> ('w, 'l) state \<Rightarrow>
   ((bool \<times> 'e option) \<times> ('w, 'l) state) option" where
  "deleteFileVersion_f env b ctx s =
     (case withReauth ctx (beRoot_iface env (file_ri b)) (deleteFileVersion_g env b ctx) s of
        None \<Rightarrow> None
      | Some (Some e, s1) \<Rightarrow> Some ((False, Some e), s1)
      | Some (None, s1) \<Rightarrow> Some ((True, None), s1))"

definition beFile_deleteFileVersion ::
  "('w, 'e) b2 \<Rightarrow> beFile \<Rightarrow> ctx \<Rightarrow> ('w, 'l) state \<Rightarrow> ('e option \<times> ('w, 'l) state) option" where
  "beFile_deleteFileVersion env b ctx s =
     withBackoff (runtime_of env) ctx (beRoot_iface env (file_ri b))
       (deleteFileVersion_f env b ctx) s"

section \<open>The composition of the specification\<close>

text \<open>
  The specification's words for an operation: \<^verbatim>\<open>RetryExecutor(ctx, session, attempt)\<close>
  where \<^verbatim>\<open>attempt\<close> wraps \<^verbatim>\<open>ReauthExecutor(session, rawCall)\<close> and reports
  \<^verbatim>\<open>final = true\<close> exactly when the wrapped call returns without error.
  \<open>spec_authorizeAccount\<close> is \<^verbatim>\<open>authorizeAccount\<close> in these words: the raw call,
  which stores the account and the key once it succeeded, inside that composition.
\<close>

definition spec_attempt ::
  "'c \<Rightarrow> ('s, 'e, 'c) beRootInterface \<Rightarrow> ('s \<Rightarrow> ('e option \<times> 's) option) \<Rightarrow>
   's \<Rightarrow> ((bool \<times> 'e option) \<times> 's) option" where
  "spec_attempt ctx session rawCall s =
     (case withReauth ctx session rawCall s of
        None \<Rightarrow> None
      | Some (err, s') \<Rightarrow> Some ((err = None, err), s'))"

definition spec_resilient ::
  "('s, 'e, 'c) runtime \<Rightarrow> 'c \<Rightarrow> ('s, 'e, 'c) beRootInterface \<Rightarrow>
   ('s \<Rightarrow> ('e option \<times> 's) option) \<Rightarrow> 's \<Rightarrow> ('e option \<times> 's) option" where
  "spec_resilient rt ctx session rawCall s =
     withBackoff rt ctx session (spec_attempt ctx session rawCall) s"

definition spec_authorize_rawCall ::
  "('w, 'e) b2 \<Rightarrow> ref \<Rightarrow> ctx \<Rightarrow> string \<Rightarrow> string \<Rightarrow> ('w, 'l) state \<Rightarrow>
   ('e option \<times> ('w, 'l) state) option" where
  "spec_authorize_rawCall env r ctx acct k s =
     (case raw AuthorizeAccount (b2_authorizeAccount env (b2i (roots s r)) ctx acct k) s of
        (Some e, s1) \<Rightarrow> Some (Some e, s1)
      | (None, s1) \<Rightarrow>
          Some (None, s1\<lparr>roots := (roots s1)(r := (roots s1 r)\<lparr>account := acct, key := k\<rparr>)\<rparr>))"

definition spec_authorizeAccount ::
  "('w, 'e) b2 \<Rightarrow> ref \<Rightarrow> ctx \<Rightarrow> string \<Rightarrow> string \<Rightarrow> ('w, 'l) state \<Rightarrow>
   ('e option \<times> ('w, 'l) state) option" where
  "spec_authorizeAccount env r ctx acct k s =
     spec_resilient (runtime_of env) ctx (beRoot_iface env r)
       (spec_authorize_rawCall env r ctx acct k) s"

text \<open>A trace without a cancelled wait.\<close>

definition quiet :: "event list \<Rightarrow> bool" where
  "quiet tr \<longleftrightarrow> (\<forall>ev \<in> set tr. case ev of Cancelled d \<Rightarrow> False | _ \<Rightarrow> True)"

section \<open>Frames\<close>

text \<open>
  \<open>frame A s s'\<close>: from \<open>s\<close> to \<open>s'\<close> the captured variable and the raw handle of
  every session are unchanged, and the trace has grown by events of \<open>A\<close> only.
  \<open>auth_events\<close> are the events of a call of \<^verbatim>\<open>authorizeAccount\<close>.
\<close>

definition auth_events :: "event set" where
  "auth_events = {Raw AuthorizeAccount} \<union> range Wait \<union> range Cancelled"

definition frame :: "event set \<Rightarrow> ('w, 'l) state \<Rightarrow> ('w, 'l) state \<Rightarrow> bool" where
  "frame A s s' \<longleftrightarrow>
     captured s' = captured s \<and> (\<exists>tr. trace s' = trace s @ tr \<and> set tr \<subseteq> A) \<and>
     (\<forall>r. b2i (roots s' r) = b2i (roots s r))"

section \<open>A scripted client\<close>

text \<open>
  A client for the examples. The world is the list of the outcomes of the coming raw
  calls: \<open>0\<close> is success, any other number is that error, and a call on the empty
  list succeeds. Error \<open>1\<close> is transient, \<open>2\<close> asks for reauthentication, \<open>4\<close> is
  both, every other is permanent; the backoff hook always overrides with one second;
  the context \<open>Ctx 1\<close> is cancelled, every other never is.
\<close>

fun pop :: "nat list \<Rightarrow> nat option \<times> nat list" where
  "pop [] = (None, [])"
| "pop (x # xs) = ((if x = 0 then None else Some x), xs)"

definition demo_env :: "(nat list, nat) b2" where
  "demo_env =
     \<lparr>b2_backoff = (\<lambda>_ e w. ((Second, True), w)),
      b2_reauth = (\<lambda>_ e w. (e = Some 2 \<or> e = Some 4, w)),
      b2_transient = (\<lambda>_ e w. (e = Some 1 \<or> e = Some 4, w)),
      b2_authorizeAccount = (\<lambda>_ _ _ _ w. pop w),
      b2_createBucket = (\<lambda>_ _ _ _ w. case pop w of (e, w') \<Rightarrow> ((B2Bucket 7, e), w')),
      b2_listBuckets = (\<lambda>_ _ w. case pop w of (e, w') \<Rightarrow> (([B2Bucket 7, B2Bucket 8], e), w')),
      b2_name = (\<lambda>_ w. (''bucket'', w)),
      b2_deleteBucket = (\<lambda>_ _ w. pop w),
      b2_getUploadURL = (\<lambda>_ _ w. case pop w of (e, w') \<Rightarrow> ((B2URL 5, e), w')),
      b2_uploadFile = (\<lambda>_ _ _ _ _ _ _ _ w. case pop w of (e, w') \<Rightarrow> ((B2File 3, e), w')),
      b2_deleteFileVersion = (\<lambda>_ _ w. pop w),
      ctx_Done_first = (\<lambda>c _ w. (c = Ctx 1, w)),
      ctx_Err = (\<lambda>_ w. (Some 9, w)),
      rand_Float64 = (\<lambda>w. (1 / 2, w))\<rparr>"

definition demo_state :: "nat list \<Rightarrow> 'l \<Rightarrow> (nat list, 'l) state" where
  "demo_state script v =
     \<lparr>world = script,
      roots = (\<lambda>_. \<lparr>account = ''acct'', key = ''key'', b2i = B2Root 0\<rparr>),
      trace = [],
      captured = v\<rparr>"

definition eager_env :: "(nat list, nat) b2" where
  "eager_env = demo_env\<lparr>b2_reauth := (\<lambda>_ e w. (True, w))\<rparr>"

section \<open>Waits and a client that fails a number of times\<close>

text \<open>
  The waits of a trace, in order, and what it is for a list of durations never to
  decrease. \<open>backoff_step_ok b w\<close> relates a running backoff value \<open>b\<close> and the wait
  \<open>w\<close> that \<^verbatim>\<open>getBackoff\<close> makes of it: at least twice \<open>b\<close> up to 15 seconds, between
  0.9 and 3.1 per cent more above, and nothing once \<open>b\<close> is so large
  (\<open>8 * 10 ^ 18\<close> nanoseconds) that \<^verbatim>\<open>d + jitter(d)\<close> may leave \<^verbatim>\<open>int64\<close>.
\<close>

fun waits_of :: "event list \<Rightarrow> duration list" where
  "waits_of [] = []"
| "waits_of (Wait d # tr) = d # waits_of tr"
| "waits_of (ev # tr) = waits_of tr"

fun nondecreasing :: "duration list \<Rightarrow> bool" where
  "nondecreasing (a # b # ds) = (sint a \<le> sint b \<and> nondecreasing (b # ds))"
| "nondecreasing ds = True"

definition backoff_step_ok :: "duration \<Rightarrow> duration \<Rightarrow> bool" where
  "backoff_step_ok b w =
     (if 0 < sint b \<and> sint b \<le> 15000000000
      then 2 * sint b \<le> sint w \<and> 1000 * sint w \<le> 2062 * sint b
      else if 15000000000 < sint b \<and> sint b \<le> 8000000000000000000
      then 1009 * sint b \<le> 1000 * sint w \<and> 1000 * sint w \<le> 1031 * sint b
      else True)"

text \<open>
  A client whose world is the number of failures still to come: \<^verbatim>\<open>authorizeAccount\<close>
  fails with error \<open>1\<close> that many times and then succeeds. Every error is transient,
  the backoff hook never overrides, the context \<open>Ctx 1\<close> is cancelled and every other
  never is, and every draw is \<open>1 / 2\<close>. \<open>flaky_run n\<close> is \<^verbatim>\<open>authorizeAccount\<close> on that client
  with \<open>n\<close> failures to come, under a context that is never cancelled.
\<close>

definition flaky_env :: "(nat, nat) b2" where
  "flaky_env =
     \<lparr>b2_backoff = (\<lambda>_ e w. ((0, False), w)),
      b2_reauth = (\<lambda>_ e w. (False, w)),
      b2_transient = (\<lambda>_ e w. (True, w)),
      b2_authorizeAccount = (\<lambda>_ _ _ _ w. (if w = 0 then None else Some 1, w - 1)),
      b2_createBucket = (\<lambda>_ _ _ _ w. ((B2Bucket 7, None), w)),
      b2_listBuckets = (\<lambda>_ _ w. (([], None), w)),
      b2_name = (\<lambda>_ w. (''bucket'', w)),
      b2_deleteBucket = (\<lambda>_ _ w. (None, w)),
      b2_getUploadURL = (\<lambda>_ _ w. ((B2URL 5, None), w)),
      b2_uploadFile = (\<lambda>_ _ _ _ _ _ _ _ w. ((B2File 3, None), w)),
      b2_deleteFileVersion = (\<lambda>_ _ w. (None, w)),
      ctx_Done_first = (\<lambda>c _ w. (c = Ctx 1, w)),
      ctx_Err = (\<lambda>c w. (if c = Ctx 1 then Some 9 else None, w)),
      rand_Float64 = (\<lambda>w. (1 / 2, w))\<rparr>"

definition flaky_state :: "nat \<Rightarrow> (nat, unit) state" where
  "flaky_state n =
     \<lparr>world = n,
      roots = (\<lambda>_. \<lparr>account = '''', key = '''', b2i = B2Root 0\<rparr>),
      trace = [],
      captured = ()\<rparr>"

definition flaky_run :: "nat \<Rightarrow> (nat option \<times> (nat, unit) state) option" where
  "flaky_run n = beRoot_authorizeAccount flaky_env 0 (Ctx 0) '''' '''' (flaky_state n)"

section \<open>Cancellation of the context\<close>

text \<open>
  \<^verbatim>\<open>ctx.Err()\<close> is \<^verbatim>\<open>nil\<close> until the context is cancelled and the error of the
  cancellation from then on: \<open>cancelled env c w\<close> says that the context \<open>c\<close> is cancelled
  in the world \<open>w\<close>.
\<close>

definition cancelled :: "('w, 'e) b2 \<Rightarrow> ctx \<Rightarrow> 'w \<Rightarrow> bool" where
  "cancelled env c w \<longleftrightarrow> fst (ctx_Err env c w) \<noteq> None"







text \<open>
  A client for the examples of cancellation. The world is the script of the outcomes
  of the coming raw calls (as for \<open>demo_env\<close>), the number of waits of positive
  duration that the caller still lets run to their end, and whether the context is
  cancelled. A wait of positive duration ends by cancellation when the context is
  cancelled already or the caller cancels during it; of a wait without duration the
  timer case is taken, cancelled or not. \<^verbatim>\<open>ctx.Err()\<close> is error \<open>9\<close> once the context is
  cancelled. Errors \<open>1\<close>, \<open>4\<close> and \<open>9\<close> are transient, \<open>2\<close> and \<open>4\<close> ask for
  reauthentication; the backoff hook overrides with no delay after error \<open>9\<close> and with
  one second after every other.
\<close>

definition racy_env :: "(nat list \<times> nat \<times> bool, nat) b2" where
  "racy_env =
     \<lparr>b2_backoff = (\<lambda>_ e w. ((if e = Some 9 then 0 else Second, True), w)),
      b2_reauth = (\<lambda>_ e w. (e = Some 2 \<or> e = Some 4, w)),
      b2_transient = (\<lambda>_ e w. (e = Some 1 \<or> e = Some 4 \<or> e = Some 9, w)),
      b2_authorizeAccount = (\<lambda>_ _ _ _ (scr, kc). case pop scr of (e, scr') \<Rightarrow> (e, (scr', kc))),
      b2_createBucket =
        (\<lambda>_ _ _ _ (scr, kc). case pop scr of (e, scr') \<Rightarrow> ((B2Bucket 7, e), (scr', kc))),
      b2_listBuckets =
        (\<lambda>_ _ (scr, kc). case pop scr of (e, scr') \<Rightarrow> (([B2Bucket 7, B2Bucket 8], e), (scr', kc))),
      b2_name = (\<lambda>_ w. (''bucket'', w)),
      b2_deleteBucket = (\<lambda>_ _ (scr, kc). case pop scr of (e, scr') \<Rightarrow> (e, (scr', kc))),
      b2_getUploadURL =
        (\<lambda>_ _ (scr, kc). case pop scr of (e, scr') \<Rightarrow> ((B2URL 5, e), (scr', kc))),
      b2_uploadFile =
        (\<lambda>_ _ _ _ _ _ _ _ (scr, kc). case pop scr of (e, scr') \<Rightarrow> ((B2File 3, e), (scr', kc))),
      b2_deleteFileVersion = (\<lambda>_ _ (scr, kc). case pop scr of (e, scr') \<Rightarrow> (e, (scr', kc))),
      ctx_Done_first =
        (\<lambda>_ d (scr, k, cl).
           if 0 < sint d
           then (if cl \<or> k = 0 then (True, (scr, 0, True)) else (False, (scr, k - 1, False)))
           else (False, (scr, k, cl))),
      ctx_Err = (\<lambda>_ (scr, k, cl). (if cl then Some 9 else None, (scr, k, cl))),
      rand_Float64 = (\<lambda>w. (1 / 2, w))\<rparr>"


section \<open>Facts about float64 rounding\<close>

lemma ilog2_bounds:
  assumes "0 < a"
  shows "2 powi (ilog2 a) \<le> a" and "a < 2 powi (ilog2 a + 1)"
proof -
  show "2 powi (ilog2 a) \<le> a"
  proof (cases "1 \<le> a")
    case True
    define n where "n = \<lfloor>a\<rfloor>"
    have n: "0 < n" using True n_def by linarith
    have b: "0 \<le> bitlen n - 1" using n by (auto simp: bitlen_alt_def)
    have "(2::int) ^ nat (bitlen n - 1) \<le> n" using bitlen_bounds[OF n] by simp
    then have "real_of_int ((2::int) ^ nat (bitlen n - 1)) \<le> real_of_int n" by linarith
    then have "(2::real) ^ nat (bitlen n - 1) \<le> real_of_int n" by simp
    moreover have "real_of_int n \<le> a" using n_def by simp
    moreover have "(2::real) powi (bitlen n - 1) = 2 ^ nat (bitlen n - 1)"
      using b by (simp add: power_int_def)
    ultimately have "(2::real) powi (bitlen n - 1) \<le> a" by linarith
    moreover have "ilog2 a = bitlen n - 1" using True by (simp add: ilog2_def n_def)
    ultimately show ?thesis by simp
  next
    case False
    define m where "m = \<lceil>1 / a\<rceil> - 1"
    have "1 < 1 / a" using False assms by simp
    then have m: "0 < m" unfolding m_def by linarith
    have "1 / a \<le> real_of_int m + 1" unfolding m_def by simp
    also have "real_of_int m + 1 \<le> 2 ^ nat (bitlen m)"
    proof -
      have "m < 2 ^ nat (bitlen m)" using bitlen_bounds[OF m] by simp
      then have "m + 1 \<le> 2 ^ nat (bitlen m)" by simp
      then have "real_of_int (m + 1) \<le> real_of_int (2 ^ nat (bitlen m))" by linarith
      then show ?thesis by simp
    qed
    finally have "1 / a \<le> 2 ^ nat (bitlen m)" .
    then have "1 / 2 ^ nat (bitlen m) \<le> a"
      using assms by (simp add: field_simps)
    moreover have "(2::real) powi (- bitlen m) = 1 / 2 ^ nat (bitlen m)"
      using bitlen_nonneg[of m] by (simp add: power_int_def field_simps)
    ultimately have "(2::real) powi (- bitlen m) \<le> a" by linarith
    moreover have "ilog2 a = - bitlen m" using False by (simp add: ilog2_def m_def)
    ultimately show ?thesis by simp
  qed
  show "a < 2 powi (ilog2 a + 1)"
  proof (cases "1 \<le> a")
    case True
    define n where "n = \<lfloor>a\<rfloor>"
    have n: "0 < n" using True n_def by linarith
    have b: "0 \<le> bitlen n" by (rule bitlen_nonneg)
    have "n < 2 ^ nat (bitlen n)" using bitlen_bounds[OF n] by simp
    then have "n + 1 \<le> 2 ^ nat (bitlen n)" by simp
    then have "real_of_int (n + 1) \<le> real_of_int (2 ^ nat (bitlen n))" by linarith
    then have "real_of_int n + 1 \<le> 2 ^ nat (bitlen n)" by simp
    moreover have "a < real_of_int n + 1" using n_def by linarith
    moreover have "(2::real) powi (bitlen n) = 2 ^ nat (bitlen n)"
      using b by (simp add: power_int_def)
    ultimately have "a < (2::real) powi (bitlen n)" by linarith
    moreover have "ilog2 a + 1 = bitlen n" using True by (simp add: ilog2_def n_def)
    ultimately show ?thesis by simp
  next
    case False
    define m where "m = \<lceil>1 / a\<rceil> - 1"
    have "1 < 1 / a" using False assms by simp
    then have m: "0 < m" unfolding m_def by linarith
    have b: "1 \<le> bitlen m" using m by (auto simp: bitlen_alt_def)
    have "(2::int) ^ nat (bitlen m - 1) \<le> m" using bitlen_bounds[OF m] by simp
    then have "real_of_int ((2::int) ^ nat (bitlen m - 1)) \<le> real_of_int m" by linarith
    then have "(2::real) ^ nat (bitlen m - 1) \<le> real_of_int m" by simp
    also have "real_of_int m < 1 / a" unfolding m_def by linarith
    finally have "(2::real) ^ nat (bitlen m - 1) < 1 / a" .
    then have "a < 1 / 2 ^ nat (bitlen m - 1)"
      using assms by (simp add: field_simps)
    moreover have "(2::real) powi (- bitlen m + 1) = 1 / 2 ^ nat (bitlen m - 1)"
    proof -
      have "- bitlen m + 1 = - (bitlen m - 1)" by simp
      then have "(2::real) powi (- bitlen m + 1) = inverse (2 powi (bitlen m - 1))"
        by (simp only: power_int_minus)
      also have "(2::real) powi (bitlen m - 1) = 2 ^ nat (bitlen m - 1)"
        using b by (simp add: power_int_def)
      finally show ?thesis by (simp add: field_simps)
    qed
    ultimately have "a < (2::real) powi (- bitlen m + 1)" by linarith
    moreover have "ilog2 a + 1 = - bitlen m + 1" using False by (simp add: ilog2_def m_def)
    ultimately show ?thesis by simp
  qed
qed

lemma powi2_less_iff: "(2::real) powi m < 2 powi n \<longleftrightarrow> m < n"
proof
  assume "(2::real) powi m < 2 powi n"
  show "m < n"
  proof (rule ccontr)
    assume "\<not> m < n"
    then have "(2::real) powi n \<le> 2 powi m" by (intro power_int_increasing) auto
    with \<open>(2::real) powi m < 2 powi n\<close> show False by simp
  qed
qed (simp add: power_int_strict_increasing)

lemma ilog2_unique:
  assumes "2 powi k \<le> a" and "a < 2 powi (k + 1)"
  shows "ilog2 a = k"
proof -
  have pos: "0 < a" using assms(1) zero_less_power_int[of "2::real" k] by linarith
  have "2 powi (ilog2 a) < (2::real) powi (k + 1)"
    using ilog2_bounds(1)[OF pos] assms(2) by linarith
  then have "ilog2 a < k + 1" by (simp add: powi2_less_iff)
  moreover have "(2::real) powi k < 2 powi (ilog2 a + 1)"
    using ilog2_bounds(2)[OF pos] assms(1) by linarith
  then have "k < ilog2 a + 1" by (simp add: powi2_less_iff)
  ultimately show ?thesis by simp
qed

lemma ilog2_mono:
  assumes "0 < a" and "a \<le> b"
  shows "ilog2 a \<le> ilog2 b"
proof -
  have "2 powi (ilog2 a) < (2::real) powi (ilog2 b + 1)"
    using ilog2_bounds(1)[OF assms(1)] ilog2_bounds(2)[of b] assms by linarith
  then show ?thesis by (simp add: powi2_less_iff)
qed

lemma rne_of_int [simp]: "rne (of_int n) = n"
  by (simp add: rne_def)

lemma rne_err: "\<bar>real_of_int (rne x) - x\<bar> \<le> 1 / 2"
  unfolding rne_def Let_def by (auto split: if_splits)

lemma rne_bounds: "real_of_int \<lfloor>x\<rfloor> \<le> real_of_int (rne x)" "real_of_int (rne x) \<le> real_of_int \<lfloor>x\<rfloor> + 1"
  unfolding rne_def Let_def by auto

lemma rne_mono:
  assumes "x \<le> y"
  shows "rne x \<le> rne y"
proof (cases "\<lfloor>x\<rfloor> = \<lfloor>y\<rfloor>")
  case True
  then have "x - of_int \<lfloor>x\<rfloor> \<le> y - of_int \<lfloor>y\<rfloor>" using assms by simp
  then show ?thesis using True unfolding rne_def Let_def by (auto split: if_splits)
next
  case False
  then have "\<lfloor>x\<rfloor> < \<lfloor>y\<rfloor>" using assms floor_mono[of x y] by linarith
  then have "\<lfloor>x\<rfloor> + 1 \<le> \<lfloor>y\<rfloor>" by simp
  moreover have "rne x \<le> \<lfloor>x\<rfloor> + 1" unfolding rne_def Let_def by auto
  moreover have "\<lfloor>y\<rfloor> \<le> rne y" unfolding rne_def Let_def by auto
  ultimately show ?thesis by linarith
qed

lemma rne_neg: "rne (- x) = - rne x"
proof (cases "x = of_int \<lfloor>x\<rfloor>")
  case True
  then obtain n where "x = of_int n" by metis
  then show ?thesis by (simp flip: of_int_minus)
next
  case False
  define n where "n = \<lfloor>x\<rfloor>"
  have lt: "of_int n < x" "x < of_int n + 1" using False n_def by linarith+
  have fl: "\<lfloor>- x\<rfloor> = - n - 1" using lt by linarith
  show ?thesis
    using lt unfolding rne_def Let_def fl n_def[symmetric]
    by (auto split: if_splits)
qed

lemma powi2_add: "(2::real) powi (m + n) = 2 powi m * 2 powi n"
  by (simp add: power_int_add)

lemma powi2_pos [simp]: "0 < (2::real) powi n"
  by (simp add: zero_less_power_int)

lemma powi2_52: "(2::real) powi (e + 52) = 2 powi e * 2 ^ 52"
  by (simp add: powi2_add)

lemma powi2_53: "(2::real) powi (e + 53) = 2 powi e * 2 ^ 53"
  by (simp add: powi2_add)

lemma fl64_zero [simp]: "fl64 0 = 0"
  by (simp add: fl64_def)

lemma fl64_neg: "fl64 (- x) = - fl64 x"
  by (simp add: fl64_def Let_def rne_neg)

lemma mantissa_bounds:
  assumes "0 < x"
  shows "2 ^ 52 \<le> x / 2 powi (ilog2 x - 52)" and "x / 2 powi (ilog2 x - 52) < 2 ^ 53"
proof -
  define e where "e = ilog2 x - 52"
  have eq52: "ilog2 x = e + 52" by (simp add: e_def)
  have "2 powi (e + 52) \<le> x" using ilog2_bounds(1)[OF assms] by (simp only: eq52[symmetric])
  then have "2 powi e * 2 ^ 52 \<le> x" by (simp only: powi2_52)
  then show "2 ^ 52 \<le> x / 2 powi (ilog2 x - 52)"
    unfolding e_def[symmetric] by (simp add: field_simps)
  have eq53: "ilog2 x + 1 = e + 53" by (simp add: e_def)
  have "x < 2 powi (e + 53)" using ilog2_bounds(2)[OF assms] by (simp only: eq53)
  then have "x < 2 powi e * 2 ^ 53" by (simp only: powi2_53)
  then show "x / 2 powi (ilog2 x - 52) < 2 ^ 53"
    unfolding e_def[symmetric] by (simp add: field_simps)
qed

lemma rne_mantissa:
  assumes "0 < x"
  shows "2 ^ 52 \<le> rne (x / 2 powi (ilog2 x - 52))" and "rne (x / 2 powi (ilog2 x - 52)) \<le> 2 ^ 53"
proof -
  have "rne (of_int (2 ^ 52)) \<le> rne (x / 2 powi (ilog2 x - 52))"
    using mantissa_bounds(1)[OF assms] by (intro rne_mono) simp
  then show "2 ^ 52 \<le> rne (x / 2 powi (ilog2 x - 52))" by (simp only: rne_of_int)
  have "rne (x / 2 powi (ilog2 x - 52)) \<le> rne (of_int (2 ^ 53))"
    using mantissa_bounds(2)[OF assms] by (intro rne_mono) simp
  then show "rne (x / 2 powi (ilog2 x - 52)) \<le> 2 ^ 53" by (simp only: rne_of_int)
qed

lemma fl64_pos_eq:
  "0 < x \<Longrightarrow> fl64 x = of_int (rne (x / 2 powi (ilog2 x - 52))) * 2 powi (ilog2 x - 52)"
  by (simp add: fl64_def Let_def)

lemma fl64_pos_bounds:
  assumes "0 < x"
  shows "2 powi (ilog2 x) \<le> fl64 x" and "fl64 x \<le> 2 powi (ilog2 x + 1)"
proof -
  define e where "e = ilog2 x - 52"
  define k where "k = rne (x / 2 powi e)"
  have k: "2 ^ 52 \<le> k" "k \<le> 2 ^ 53" using rne_mantissa[OF assms] by (simp_all add: k_def e_def)
  have f: "fl64 x = of_int k * 2 powi e" using fl64_pos_eq[OF assms] by (simp add: k_def e_def)
  have "real_of_int (2 ^ 52) \<le> real_of_int k" using k(1) by linarith
  then have "2 ^ 52 * 2 powi e \<le> real_of_int k * 2 powi e"
    by (intro mult_right_mono) simp_all
  moreover have "(2::real) powi (ilog2 x) = 2 ^ 52 * 2 powi e"
  proof -
    have "ilog2 x = e + 52" by (simp add: e_def)
    then have "(2::real) powi (ilog2 x) = 2 powi (e + 52)" by (simp only:)
    also have "\<dots> = 2 powi e * 2 ^ 52" by (rule powi2_52)
    finally show ?thesis by (simp only: mult.commute)
  qed
  ultimately show "2 powi (ilog2 x) \<le> fl64 x" using f by simp
  have "real_of_int k \<le> real_of_int (2 ^ 53)" using k(2) by linarith
  then have "real_of_int k * 2 powi e \<le> 2 ^ 53 * 2 powi e"
    by (intro mult_right_mono) simp_all
  moreover have "(2::real) powi (ilog2 x + 1) = 2 ^ 53 * 2 powi e"
  proof -
    have "ilog2 x + 1 = e + 53" by (simp add: e_def)
    then have "(2::real) powi (ilog2 x + 1) = 2 powi (e + 53)" by (simp only:)
    also have "\<dots> = 2 powi e * 2 ^ 53" by (rule powi2_53)
    finally show ?thesis by (simp only: mult.commute)
  qed
  ultimately show "fl64 x \<le> 2 powi (ilog2 x + 1)" using f by simp
qed

lemma fl64_nonneg: "0 \<le> x \<Longrightarrow> 0 \<le> fl64 x"
proof (cases "x = 0")
  case False
  assume "0 \<le> x"
  then have "0 < x" using False by simp
  from fl64_pos_bounds(1)[OF this] powi2_pos[of "ilog2 x"] show ?thesis by linarith
qed simp

lemma fl64_mono_pos:
  assumes "0 < x" and "x \<le> y"
  shows "fl64 x \<le> fl64 y"
proof (cases "ilog2 x = ilog2 y")
  case True
  have y: "0 < y" using assms by simp
  have "x / 2 powi (ilog2 y - 52) \<le> y / 2 powi (ilog2 y - 52)"
    using assms(2) by (simp add: divide_right_mono)
  then have "rne (x / 2 powi (ilog2 y - 52)) \<le> rne (y / 2 powi (ilog2 y - 52))"
    by (rule rne_mono)
  then have "real_of_int (rne (x / 2 powi (ilog2 y - 52))) * 2 powi (ilog2 y - 52)
      \<le> real_of_int (rne (y / 2 powi (ilog2 y - 52))) * 2 powi (ilog2 y - 52)"
    by (intro mult_right_mono) simp_all
  then show ?thesis using fl64_pos_eq[OF assms(1)] fl64_pos_eq[OF y] True by simp
next
  case False
  have y: "0 < y" using assms by simp
  have "ilog2 x \<le> ilog2 y" using assms by (rule ilog2_mono)
  then have "ilog2 x + 1 \<le> ilog2 y" using False by simp
  then have "(2::real) powi (ilog2 x + 1) \<le> 2 powi (ilog2 y)"
    by (intro power_int_increasing) simp_all
  with fl64_pos_bounds(2)[OF assms(1)] fl64_pos_bounds(1)[OF y] show ?thesis by linarith
qed

lemma fl64_mono:
  assumes "x \<le> y"
  shows "fl64 x \<le> fl64 y"
proof -
  consider "0 < x" | "x \<le> 0" "0 \<le> y" | "y < 0" by linarith
  then show ?thesis
  proof cases
    case 1
    then show ?thesis using assms by (rule fl64_mono_pos)
  next
    case 2
    have "0 \<le> fl64 (- x)" using 2(1) by (intro fl64_nonneg) simp
    then have "fl64 x \<le> 0" by (simp add: fl64_neg)
    moreover have "0 \<le> fl64 y" using 2(2) by (rule fl64_nonneg)
    ultimately show ?thesis by linarith
  next
    case 3
    then have "fl64 (- y) \<le> fl64 (- x)" using assms by (intro fl64_mono_pos) simp_all
    then show ?thesis by (simp add: fl64_neg)
  qed
qed

lemma fl64_err_pos:
  assumes "0 < x"
  shows "\<bar>fl64 x - x\<bar> \<le> x / 2 ^ 53"
proof -
  define e where "e = ilog2 x - 52"
  define m where "m = x / 2 powi e"
  have x: "x = m * 2 powi e" by (simp add: m_def)
  have f: "fl64 x = of_int (rne m) * 2 powi e"
    using fl64_pos_eq[OF assms] by (simp add: m_def e_def)
  have "(of_int (rne m) - m) * 2 powi e = of_int (rne m) * 2 powi e - m * 2 powi e"
    by (simp add: algebra_simps)
  then have "fl64 x - x = (of_int (rne m) - m) * 2 powi e"
    using f x by simp
  then have "\<bar>fl64 x - x\<bar> = \<bar>of_int (rne m) - m\<bar> * 2 powi e"
    by (simp add: abs_mult)
  also have "\<dots> \<le> (1 / 2) * 2 powi e"
    using rne_err[of m] by (intro mult_right_mono) simp_all
  also have "\<dots> \<le> (1 / 2) * (x / 2 ^ 52)"
  proof -
    have "2 ^ 52 \<le> m" using mantissa_bounds(1)[OF assms] by (simp add: m_def e_def)
    then have "2 ^ 52 * 2 powi e \<le> m * 2 powi e" by (intro mult_right_mono) simp_all
    then have "2 powi e \<le> x / 2 ^ 52" using x by (simp add: field_simps)
    then show ?thesis by simp
  qed
  also have "\<dots> = x / 2 ^ 53" by simp
  finally show ?thesis .
qed

lemma fl64_err: "\<bar>fl64 x - x\<bar> \<le> \<bar>x\<bar> / 2 ^ 53"
proof -
  consider "0 < x" | "x = 0" | "x < 0" by linarith
  then show ?thesis
  proof cases
    case 1
    then show ?thesis using fl64_err_pos[OF 1] by simp
  next
    case 2
    then show ?thesis by simp
  next
    case 3
    then have "\<bar>fl64 (- x) - (- x)\<bar> \<le> (- x) / 2 ^ 53" by (intro fl64_err_pos) simp
    then show ?thesis using 3 by (simp add: fl64_neg abs_if split: if_splits)
  qed
qed

lemma representable_zero [simp]: "representable 0"
  unfolding representable_def by (intro exI[of _ 0]) simp

lemma representable_neg: "representable x \<Longrightarrow> representable (- x)"
  unfolding representable_def
proof (elim exE conjE)
  fix k j assume "x = of_int k * 2 powi j" "\<bar>k\<bar> \<le> 2 ^ 53"
  then have "- x = of_int (- k) * 2 powi j \<and> \<bar>- k\<bar> \<le> 2 ^ 53" by simp
  then show "\<exists>k j. - x = of_int k * 2 powi j \<and> \<bar>k\<bar> \<le> 2 ^ 53" by blast
qed

lemma representable_half: "representable x \<Longrightarrow> representable (x / 2)"
  unfolding representable_def
proof (elim exE conjE)
  fix k j assume x: "x = of_int k * 2 powi j" and k: "\<bar>k\<bar> \<le> 2 ^ 53"
  have "(2::real) powi (j - 1) = 2 powi j / 2"
    by (simp add: power_int_diff)
  then have "x / 2 = of_int k * 2 powi (j - 1)" using x by simp
  then show "\<exists>k j. x / 2 = of_int k * 2 powi j \<and> \<bar>k\<bar> \<le> 2 ^ 53" using k by blast
qed

lemma representable_of_int: "\<bar>n\<bar> \<le> 2 ^ 53 \<Longrightarrow> representable (of_int n)"
  unfolding representable_def by (intro exI[of _ n] exI[of _ 0]) simp

lemma fl64_exact_pos:
  assumes x: "x = of_int k * 2 powi j" and k: "0 < k" "k < 2 ^ 53"
  shows "fl64 x = x"
proof -
  have pos: "0 < x" using x k by simp
  define e where "e = ilog2 x - 52"
  have "real_of_int k < real_of_int (2 ^ 53)" using k(2) by linarith
  then have "real_of_int k * 2 powi j < 2 ^ 53 * 2 powi j"
    by (intro mult_strict_right_mono) simp_all
  then have "x < 2 powi (j + 53)" using x by (simp add: powi2_53 mult.commute)
  with ilog2_bounds(1)[OF pos] have "(2::real) powi (ilog2 x) < 2 powi (j + 53)" by linarith
  then have "ilog2 x < j + 53" by (simp add: powi2_less_iff)
  then have ej: "e \<le> j" by (simp add: e_def)
  define n where "n = nat (j - e)"
  have "(2::real) powi j = 2 powi (e + int n)" using ej by (simp add: n_def)
  also have "\<dots> = 2 powi e * 2 ^ n" by (simp add: powi2_add)
  finally have pj: "(2::real) powi j = 2 powi e * 2 ^ n" .
  have "x / 2 powi e = of_int k * 2 ^ n" using x pj by simp
  also have "\<dots> = of_int (k * 2 ^ n)" by simp
  finally have m: "x / 2 powi e = of_int (k * 2 ^ n)" .
  have "fl64 x = of_int (rne (x / 2 powi e)) * 2 powi e"
    using fl64_pos_eq[OF pos] by (simp add: e_def)
  also have "\<dots> = of_int (k * 2 ^ n) * 2 powi e" by (simp only: m rne_of_int)
  also have "\<dots> = x" using x pj by simp
  finally show ?thesis .
qed

lemma fl64_exact_nonneg:
  assumes x: "x = of_int k * 2 powi j" and k: "0 \<le> k" "k \<le> 2 ^ 53"
  shows "fl64 x = x"
proof -
  consider "k = 0" | "0 < k" "k < 2 ^ 53" | "k = 2 ^ 53" using k by linarith
  then show ?thesis
  proof cases
    case 1
    then show ?thesis using x by simp
  next
    case 2
    then show ?thesis using x by (intro fl64_exact_pos[of x k j])
  next
    case 3
    have "(2::real) powi (j + 1) = 2 powi j * 2" by (simp add: powi2_add)
    then have "x = of_int (2 ^ 52) * 2 powi (j + 1)" using x 3 by simp
    then show ?thesis by (rule fl64_exact_pos) simp_all
  qed
qed

lemma fl64_exact: "representable x \<Longrightarrow> fl64 x = x"
  unfolding representable_def
proof (elim exE conjE)
  fix k j assume x: "x = of_int k * 2 powi j" and k: "\<bar>k\<bar> \<le> 2 ^ 53"
  show "fl64 x = x"
  proof (cases "0 \<le> k")
    case True
    then show ?thesis using x k by (intro fl64_exact_nonneg[of x k j]) simp_all
  next
    case False
    then have "fl64 (- x) = - x"
      using x k by (intro fl64_exact_nonneg[of "- x" "- k" j]) simp_all
    then show ?thesis by (simp add: fl64_neg)
  qed
qed

lemma fl64_representable: "representable (fl64 x)"
proof -
  have pos: "representable (fl64 y)" if "0 < y" for y
  proof -
    have "fl64 y = of_int (rne (y / 2 powi (ilog2 y - 52))) * 2 powi (ilog2 y - 52)"
      using that by (rule fl64_pos_eq)
    moreover have "\<bar>rne (y / 2 powi (ilog2 y - 52))\<bar> \<le> 2 ^ 53"
      using rne_mantissa[OF that] by simp
    ultimately show ?thesis unfolding representable_def by blast
  qed
  consider "0 < x" | "x = 0" | "x < 0" by linarith
  then show ?thesis
  proof cases
    case 1 then show ?thesis by (rule pos)
  next
    case 2 then show ?thesis by simp
  next
    case 3
    then have "representable (fl64 (- x))" by (intro pos) simp
    then have "representable (- fl64 (- x))" by (rule representable_neg)
    then show ?thesis by (simp add: fl64_neg)
  qed
qed

lemma fl64_half: "fl64 (fl64 x / 2) = fl64 x / 2"
  by (intro fl64_exact representable_half fl64_representable)

lemma fl64_neg_half: "fl64 (- (fl64 x / 2)) = - (fl64 x / 2)"
  by (intro fl64_exact representable_neg representable_half fl64_representable)

lemma fl64_of_int: "\<bar>n\<bar> \<le> 2 ^ 53 \<Longrightarrow> fl64 (of_int n) = of_int n"
  by (intro fl64_exact representable_of_int)

lemma fl64_one_half [simp]: "fl64 (1 / 2) = 1 / 2" "fl64 (- (1 / 2)) = - (1 / 2)"
proof -
  have "representable (1 / 2)"
    unfolding representable_def by (intro exI[of _ 1] exI[of _ "- 1"]) simp
  then show "fl64 (1 / 2) = 1 / 2" by (rule fl64_exact)
  then show "fl64 (- (1 / 2)) = - (1 / 2)" by (simp only: fl64_neg)
qed

section \<open>The backoff policy: jitter and getBackoff\<close>

lemma getBackoff_snd: "snd (getBackoff rnd d s) = snd (rnd s)"
  by (simp add: getBackoff_def jitter_def Let_def split: prod.splits)

lemma fl64_upper: "0 \<le> y \<Longrightarrow> fl64 y \<le> y * (1 + 1 / 2 ^ 53)"
  using fl64_err[of y] by (simp add: abs_if field_simps split: if_splits)

lemma fl64_lower: "0 \<le> y \<Longrightarrow> y * (1 - 1 / 2 ^ 53) \<le> fl64 y"
  using fl64_err[of y] by (simp add: abs_if field_simps split: if_splits)

text \<open>
  The \<^verbatim>\<open>float64\<close> computation of \<^verbatim>\<open>jitter\<close> on a non-negative integer \<open>D\<close> and a draw
  \<open>x\<close> in \<open>[0, 1)\<close>: the result \<open>h\<close> before the conversion to \<^verbatim>\<open>time.Duration\<close>.
\<close>

lemma jitter_float_bounds:
  fixes D :: int and x :: real
  assumes D: "0 \<le> D" and x: "0 \<le> x" "x < 1"
  defines "f1 \<equiv> fl64 (fl64 (real_of_int D) / 50)"
  defines "h \<equiv> fl64 (f1 + fl64 (f1 * fl64 (x - 1 / 2)))"
  shows "f1 / 2 \<le> h" and "h \<le> fl64 (3 * f1 / 2)" and "0 \<le> f1"
    and "real_of_int D / 100 * (1 - 1 / 2 ^ 52) \<le> h"
    and "h \<le> 3 * real_of_int D / 100 * (1 + 1 / 2 ^ 51)"
proof -
  define f0 where "f0 = fl64 (real_of_int D)"
  define t where "t = fl64 (x - 1 / 2)"
  define p where "p = fl64 (f1 * t)"
  have f0: "0 \<le> f0" unfolding f0_def using D by (intro fl64_nonneg) simp
  show f1: "0 \<le> f1" unfolding f1_def using f0 by (intro fl64_nonneg) (simp add: f0_def)
  have "fl64 (- (1 / 2)) \<le> t" unfolding t_def using x by (intro fl64_mono) simp
  then have t1: "- (1 / 2) \<le> t" by simp
  have "t \<le> fl64 (1 / 2)" unfolding t_def using x by (intro fl64_mono) simp
  then have t2: "t \<le> 1 / 2" by simp
  have half: "fl64 (f1 / 2) = f1 / 2" "fl64 (- (f1 / 2)) = - (f1 / 2)"
    unfolding f1_def by (rule fl64_half, rule fl64_neg_half)
  have "f1 * t \<le> f1 / 2" using f1 t2 mult_left_mono[of t "1 / 2" f1] by simp
  then have "p \<le> fl64 (f1 / 2)" unfolding p_def by (rule fl64_mono)
  then have p2: "p \<le> f1 / 2" by (simp only: half)
  have "- (f1 / 2) \<le> f1 * t" using f1 t1 mult_left_mono[of "- (1 / 2)" t f1] by simp
  then have "fl64 (- (f1 / 2)) \<le> p" unfolding p_def by (rule fl64_mono)
  then have p1: "- (f1 / 2) \<le> p" by (simp only: half)
  have h: "h = fl64 (f1 + p)" by (simp add: h_def p_def t_def)
  have "fl64 (f1 / 2) \<le> h" unfolding h using p1 by (intro fl64_mono) simp
  then show h1: "f1 / 2 \<le> h" by (simp only: half)
  show h2: "h \<le> fl64 (3 * f1 / 2)" unfolding h using p2 by (intro fl64_mono) simp
  have a0: "real_of_int D * (1 - 1 / 2 ^ 53) \<le> f0" "f0 \<le> real_of_int D * (1 + 1 / 2 ^ 53)"
    unfolding f0_def using D by (intro fl64_lower fl64_upper; simp)+
  have a1: "f0 / 50 * (1 - 1 / 2 ^ 53) \<le> f1" "f1 \<le> f0 / 50 * (1 + 1 / 2 ^ 53)"
    unfolding f1_def f0_def[symmetric] using f0 by (intro fl64_lower fl64_upper; simp)+
  have a2: "fl64 (3 * f1 / 2) \<le> 3 * f1 / 2 * (1 + 1 / 2 ^ 53)"
    using f1 by (intro fl64_upper) simp
  show "real_of_int D / 100 * (1 - 1 / 2 ^ 52) \<le> h"
  proof -
    have "real_of_int D / 100 * (1 - 1 / 2 ^ 52) \<le> real_of_int D / 100 * ((1 - 1 / 2 ^ 53) * (1 - 1 / 2 ^ 53))"
      using D by (intro mult_left_mono) simp_all
    also have "\<dots> = (real_of_int D * (1 - 1 / 2 ^ 53)) / 50 * (1 - 1 / 2 ^ 53) / 2" by simp
    also have "\<dots> \<le> f0 / 50 * (1 - 1 / 2 ^ 53) / 2" using a0(1) by simp
    also have "\<dots> \<le> f1 / 2" using a1(1) by simp
    also have "\<dots> \<le> h" by (rule h1)
    finally show ?thesis .
  qed
  show "h \<le> 3 * real_of_int D / 100 * (1 + 1 / 2 ^ 51)"
  proof -
    have "h \<le> 3 * f1 / 2 * (1 + 1 / 2 ^ 53)" using h2 a2 by linarith
    also have "\<dots> \<le> 3 * (f0 / 50 * (1 + 1 / 2 ^ 53)) / 2 * (1 + 1 / 2 ^ 53)"
      using a1(2) by simp
    also have "\<dots> \<le> 3 * (real_of_int D * (1 + 1 / 2 ^ 53) / 50 * (1 + 1 / 2 ^ 53)) / 2 * (1 + 1 / 2 ^ 53)"
      using a0(2) by simp
    also have "\<dots> = 3 * real_of_int D / 100 * ((1 + 1 / 2 ^ 53) * (1 + 1 / 2 ^ 53) * (1 + 1 / 2 ^ 53))"
      by simp
    also have "\<dots> \<le> 3 * real_of_int D / 100 * (1 + 1 / 2 ^ 51)"
      using D by (intro mult_left_mono) simp_all
    finally show ?thesis .
  qed
qed

lemma jitter_float_close:
  fixes D :: int and x :: real
  assumes D: "0 \<le> D" and x: "0 \<le> x" "x < 1"
  defines "f1 \<equiv> fl64 (fl64 (real_of_int D) / 50)"
  defines "h \<equiv> fl64 (f1 + fl64 (f1 * fl64 (x - 1 / 2)))"
  shows "\<bar>h - real_of_int D / 50 * (x + 1 / 2)\<bar> \<le> 3 * real_of_int D / (25 * 2 ^ 53)"
proof -
  define u :: real where "u = 1 / 2 ^ 53"
  define A where "A = real_of_int D / 50"
  define X where "X = x - 1 / 2"
  define f0 where "f0 = fl64 (real_of_int D)"
  define t where "t = fl64 X"
  define p where "p = fl64 (f1 * t)"
  have u: "0 < u" "u = 1 / 2 ^ 53" by (simp_all add: u_def)
  have A: "0 \<le> A" using D by (simp add: A_def)
  have X: "\<bar>X\<bar> \<le> 1 / 2" using x by (simp add: X_def abs_if)
  have f0: "0 \<le> f0" unfolding f0_def using D by (intro fl64_nonneg) simp
  have f1: "0 \<le> f1" unfolding f1_def using f0 by (intro fl64_nonneg) (simp add: f0_def)
  have e0: "\<bar>f0 - real_of_int D\<bar> \<le> real_of_int D * u"
    using fl64_err[of "real_of_int D"] D by (simp add: f0_def u_def)
  have e1: "\<bar>f1 - f0 / 50\<bar> \<le> f0 / 50 * u"
    using fl64_err[of "f0 / 50"] f0 by (simp add: f1_def f0_def u_def)
  have f1A: "\<bar>f1 - A\<bar> \<le> A * (u * (2 + u))"
  proof -
    have "f0 \<le> real_of_int D * (1 + u)" using e0 by (simp add: abs_le_iff algebra_simps)
    then have "f0 / 50 * u \<le> A * (1 + u) * u"
      using u(1) by (simp add: A_def mult_right_mono divide_right_mono)
    moreover have "\<bar>f0 / 50 - A\<bar> \<le> A * u"
      using e0 by (simp add: A_def abs_le_iff field_simps)
    ultimately have "\<bar>f1 - A\<bar> \<le> A * (1 + u) * u + A * u"
      using e1 by linarith
    then show ?thesis by (simp add: algebra_simps)
  qed
  have f1le: "f1 \<le> A * (1 + u * (2 + u))"
    using f1A by (simp add: abs_le_iff algebra_simps)
  have tX: "\<bar>t - X\<bar> \<le> u / 2"
  proof -
    have "\<bar>t - X\<bar> \<le> \<bar>X\<bar> * u" using fl64_err[of X] by (simp add: t_def u_def)
    also have "\<dots> \<le> 1 / 2 * u" using X u(1) by (intro mult_right_mono) simp_all
    finally show ?thesis by simp
  qed
  have t: "\<bar>t\<bar> \<le> 1 / 2"
  proof -
    have "fl64 (- (1 / 2)) \<le> t" unfolding t_def using X by (intro fl64_mono) (simp add: abs_le_iff)
    moreover have "t \<le> fl64 (1 / 2)" unfolding t_def using X by (intro fl64_mono) (simp add: abs_le_iff)
    ultimately show ?thesis by (simp add: abs_le_iff)
  qed
  have f1t: "\<bar>f1 * t\<bar> \<le> f1 / 2"
  proof -
    have "\<bar>f1 * t\<bar> = f1 * \<bar>t\<bar>" using f1 by (simp add: abs_mult)
    also have "\<dots> \<le> f1 * (1 / 2)" using t f1 by (intro mult_left_mono)
    finally show ?thesis by simp
  qed
  have ep: "\<bar>p - f1 * t\<bar> \<le> f1 / 2 * u"
  proof -
    have "\<bar>p - f1 * t\<bar> \<le> \<bar>f1 * t\<bar> * u" using fl64_err[of "f1 * t"] by (simp add: p_def u_def)
    also have "\<dots> \<le> f1 / 2 * u" using f1t u(1) by (intro mult_right_mono) simp_all
    finally show ?thesis .
  qed
  have pb: "\<bar>p\<bar> \<le> f1 / 2"
  proof -
    have half: "fl64 (f1 / 2) = f1 / 2" "fl64 (- (f1 / 2)) = - (f1 / 2)"
      unfolding f1_def by (rule fl64_half, rule fl64_neg_half)
    have "fl64 (- (f1 / 2)) \<le> p" unfolding p_def using f1t by (intro fl64_mono) (simp add: abs_le_iff)
    moreover have "p \<le> fl64 (f1 / 2)" unfolding p_def using f1t by (intro fl64_mono) (simp add: abs_le_iff)
    ultimately show ?thesis by (simp only: half abs_le_iff) simp
  qed
  have hh: "h = fl64 (f1 + p)" by (simp add: h_def p_def t_def X_def)
  have eh: "\<bar>h - (f1 + p)\<bar> \<le> 3 * f1 / 2 * u"
  proof -
    have "\<bar>h - (f1 + p)\<bar> \<le> \<bar>f1 + p\<bar> * u" using fl64_err[of "f1 + p"] by (simp add: hh u_def)
    also have "\<bar>f1 + p\<bar> \<le> 3 * f1 / 2" using pb f1 by (simp add: abs_le_iff)
    finally show ?thesis using u(1) by (simp add: mult_right_mono)
  qed
  have prod: "\<bar>f1 * t - A * X\<bar> \<le> f1 * (u / 2) + 1 / 2 * (A * (u * (2 + u)))"
  proof -
    have "f1 * t - A * X = f1 * (t - X) + X * (f1 - A)" by (simp add: algebra_simps)
    then have "\<bar>f1 * t - A * X\<bar> \<le> \<bar>f1 * (t - X)\<bar> + \<bar>X * (f1 - A)\<bar>"
      by (simp only: abs_triangle_ineq)
    also have "\<bar>f1 * (t - X)\<bar> = f1 * \<bar>t - X\<bar>" using f1 by (simp add: abs_mult)
    also have "\<bar>X * (f1 - A)\<bar> = \<bar>X\<bar> * \<bar>f1 - A\<bar>" by (simp add: abs_mult)
    finally have "\<bar>f1 * t - A * X\<bar> \<le> f1 * \<bar>t - X\<bar> + \<bar>X\<bar> * \<bar>f1 - A\<bar>" .
    moreover have "f1 * \<bar>t - X\<bar> \<le> f1 * (u / 2)" using tX f1 by (intro mult_left_mono)
    moreover have "\<bar>X\<bar> * \<bar>f1 - A\<bar> \<le> 1 / 2 * (A * (u * (2 + u)))"
      using X f1A by (intro mult_mono) simp_all
    ultimately show ?thesis by linarith
  qed
  have "h - A * (1 + X) = (h - (f1 + p)) + (f1 - A) + (p - f1 * t) + (f1 * t - A * X)"
    by (simp add: algebra_simps)
  then have "\<bar>h - A * (1 + X)\<bar> \<le>
      \<bar>h - (f1 + p)\<bar> + \<bar>f1 - A\<bar> + \<bar>p - f1 * t\<bar> + \<bar>f1 * t - A * X\<bar>"
    by linarith
  then have "\<bar>h - A * (1 + X)\<bar> \<le>
      3 * f1 / 2 * u + A * (u * (2 + u)) + f1 / 2 * u + (f1 * (u / 2) + 1 / 2 * (A * (u * (2 + u))))"
    using eh f1A ep prod by linarith
  also have "\<dots> = f1 * (5 / 2 * u) + A * (3 / 2 * (u * (2 + u)))" by (simp add: algebra_simps)
  also have "\<dots> \<le> A * (1 + u * (2 + u)) * (5 / 2 * u) + A * (3 / 2 * (u * (2 + u)))"
    using f1le u(1) by (simp add: mult_right_mono)
  also have "\<dots> = A * ((1 + u * (2 + u)) * (5 / 2 * u) + 3 / 2 * (u * (2 + u)))"
    by algebra
  also have "\<dots> \<le> A * (6 * u)"
    using A by (intro mult_left_mono) (simp_all add: u_def)
  finally have "\<bar>h - A * (1 + X)\<bar> \<le> A * (6 * u)" .
  moreover have "A * (1 + X) = real_of_int D / 50 * (x + 1 / 2)" by (simp add: A_def X_def)
  moreover have "A * (6 * u) = 3 * real_of_int D / (25 * 2 ^ 53)" by (simp add: A_def u_def)
  ultimately show ?thesis by simp
qed

declare of_int_sint [simp del]

lemma sint_word_of_int_64:
  "- (2 ^ 63) \<le> k \<Longrightarrow> k < 2 ^ 63 \<Longrightarrow> sint (word_of_int k :: 64 word) = k"
  by (simp add: sint_sbintrunc' signed_take_bit_int_eq_self)

lemma sint_add_64:
  fixes a b :: "64 word"
  shows "- (2 ^ 63) \<le> sint a + sint b \<Longrightarrow> sint a + sint b < 2 ^ 63 \<Longrightarrow> sint (a + b) = sint a + sint b"
  by (simp add: sint_word_add signed_take_bit_int_eq_self)

lemma sint_double_64:
  fixes a :: "64 word"
  shows "- (2 ^ 63) \<le> 2 * sint a \<Longrightarrow> 2 * sint a < 2 ^ 63 \<Longrightarrow> sint (a * 2) = 2 * sint a"
proof -
  assume a: "- (2 ^ 63) \<le> 2 * sint a" "2 * sint a < 2 ^ 63"
  have "a * 2 = a + a" by simp
  then have "sint (a * 2) = sint (a + a)" by (simp only:)
  also have "\<dots> = sint a + sint a" using a by (intro sint_add_64) simp_all
  finally show ?thesis by simp
qed

lemma sint_range_64: "- (2 ^ 63) \<le> sint (a :: 64 word)" "sint (a :: 64 word) < 2 ^ 63"
  using sint_ge[of a] sint_lt[of a] by simp_all

lemma jitter_eq:
  assumes "rnd s = (x, s')"
  shows "jitter rnd d s =
    (word_of_int (trunc (fl64 (fl64 (fl64 (real_of_int (sint d)) / 50) +
       fl64 (fl64 (fl64 (real_of_int (sint d)) / 50) * fl64 (x - 1 / 2))))), s')"
  using assms
  by (simp add: jitter_def float64_of_duration_def duration_of_float64_def Let_def)

lemma jitter_facts:
  assumes rnd: "rnd s = (x, s')" and x: "0 \<le> x" "x < 1" and d: "0 \<le> sint d"
  shows "0 \<le> sint (fst (jitter rnd d s))"
    and "real_of_int (sint d) / 100 * (1 - 1 / 2 ^ 52) - 1 < real_of_int (sint (fst (jitter rnd d s)))"
    and "real_of_int (sint (fst (jitter rnd d s))) \<le> 3 * real_of_int (sint d) / 100 * (1 + 1 / 2 ^ 51)"
    and "\<bar>real_of_int (sint (fst (jitter rnd d s))) - real_of_int (sint d) / 50 * (x + 1 / 2)\<bar>
           < 1 + 3 * real_of_int (sint d) / (25 * 2 ^ 53)"
    and "snd (jitter rnd d s) = s'"
proof -
  define D where "D = sint d"
  define h where "h = fl64 (fl64 (fl64 (real_of_int D) / 50) +
       fl64 (fl64 (fl64 (real_of_int D) / 50) * fl64 (x - 1 / 2)))"
  have D: "0 \<le> D" "D < 2 ^ 63" using d sint_range_64(2)[of d] by (simp_all add: D_def)
  note b = jitter_float_bounds[OF D(1) x, folded h_def]
  note c = jitter_float_close[OF D(1) x, folded h_def]
  have h0: "0 \<le> h" using b(1) b(3) by linarith
  have lo: "real_of_int D / 100 * (1 - 1 / 2 ^ 52) \<le> h" by (rule b(4))
  have hi: "h \<le> 3 * real_of_int D / 100 * (1 + 1 / 2 ^ 51)" by (rule b(5))
  have "real_of_int D < 2 ^ 63" using D(2) by (metis of_int_less_iff of_int_numeral of_int_power)
  then have "3 * real_of_int D / 100 * (1 + 1 / 2 ^ 51) < 2 ^ 63" by simp
  then have hlt: "h < 2 ^ 63" using hi by linarith
  have k: "trunc h = \<lfloor>h\<rfloor>" using h0 by (simp add: trunc_def)
  have k0: "0 \<le> \<lfloor>h\<rfloor>" using h0 by simp
  have k1: "\<lfloor>h\<rfloor> < 2 ^ 63" using hlt by (simp add: floor_less_iff)
  have J: "jitter rnd d s = (word_of_int \<lfloor>h\<rfloor>, s')"
    using jitter_eq[of rnd s x s' d, OF rnd] k by (simp add: h_def D_def)
  have sJ: "sint (fst (jitter rnd d s)) = \<lfloor>h\<rfloor>"
    unfolding J using k0 k1 by (simp add: sint_word_of_int_64)
  show "0 \<le> sint (fst (jitter rnd d s))" using sJ k0 by simp
  show "real_of_int (sint d) / 100 * (1 - 1 / 2 ^ 52) - 1 < real_of_int (sint (fst (jitter rnd d s)))"
    unfolding sJ D_def[symmetric] using lo by linarith
  show "real_of_int (sint (fst (jitter rnd d s))) \<le> 3 * real_of_int (sint d) / 100 * (1 + 1 / 2 ^ 51)"
    unfolding sJ D_def[symmetric] using hi by linarith
  show "\<bar>real_of_int (sint (fst (jitter rnd d s))) - real_of_int (sint d) / 50 * (x + 1 / 2)\<bar>
           < 1 + 3 * real_of_int (sint d) / (25 * 2 ^ 53)"
    unfolding sJ D_def[symmetric] using c by linarith
  show "snd (jitter rnd d s) = s'" by (simp add: J)
qed

lemma sint_15s [simp]: "sint (15 * Second) = 15000000000"
  by (simp add: Second_def)

lemma getBackoff_low:
  assumes rnd: "rnd s = (x, s')" and x: "0 \<le> x" "x < 1"
    and d: "0 < sint d" "sint d \<le> 15000000000"
  shows "2 * sint d \<le> sint (fst (getBackoff rnd d s))"
    and "real_of_int (sint (fst (getBackoff rnd d s))) \<le> 2 * real_of_int (sint d) + 62 * real_of_int (sint d) / 1000"
    and "snd (getBackoff rnd d s) = s'"
proof -
  have d2: "sint (d * 2) = 2 * sint d" using d by (intro sint_double_64) simp_all
  have d2': "0 \<le> sint (d * 2)" using d2 d by simp
  note j = jitter_facts[of rnd s x s' "d * 2", OF rnd x d2']
  define J where "J = sint (fst (jitter rnd (d * 2) s))"
  have J0: "0 \<le> J" using j(1) by (simp add: J_def)
  have Jhi: "real_of_int J \<le> 3 * real_of_int (2 * sint d) / 100 * (1 + 1 / 2 ^ 51)"
    using j(3) by (simp add: J_def d2)
  have "3 * real_of_int (2 * sint d) / 100 * (1 + 1 / 2 ^ 51) \<le> 62 * real_of_int (sint d) / 1000"
    using d by simp
  then have Jhi': "real_of_int J \<le> 62 * real_of_int (sint d) / 1000" using Jhi by linarith
  have "real_of_int (sint d) \<le> 15000000000" using d(2) by linarith
  then have "real_of_int J \<le> 930000000" using Jhi' by linarith
  then have Jsmall: "J \<le> 930000000" by linarith
  have G: "fst (getBackoff rnd d s) = d * 2 + fst (jitter rnd (d * 2) s)"
    using d by (simp add: getBackoff_def split: prod.splits)
  have sG: "sint (fst (getBackoff rnd d s)) = 2 * sint d + J"
    unfolding G J_def
    using d d2 J0 Jsmall by (subst sint_add_64) (simp_all add: J_def)
  show "2 * sint d \<le> sint (fst (getBackoff rnd d s))" using sG J0 by simp
  show "real_of_int (sint (fst (getBackoff rnd d s))) \<le> 2 * real_of_int (sint d) + 62 * real_of_int (sint d) / 1000"
    using sG Jhi' by simp
  show "snd (getBackoff rnd d s) = s'"
    using getBackoff_snd[of rnd d s] rnd by simp
qed

lemma getBackoff_high:
  assumes rnd: "rnd s = (x, s')" and x: "0 \<le> x" "x < 1"
    and d: "15000000000 < sint d" "sint d \<le> 8000000000000000000"
  shows "real_of_int (sint d) + 9 * real_of_int (sint d) / 1000 \<le> real_of_int (sint (fst (getBackoff rnd d s)))"
    and "real_of_int (sint (fst (getBackoff rnd d s))) \<le> real_of_int (sint d) + 31 * real_of_int (sint d) / 1000"
    and "snd (getBackoff rnd d s) = s'"
proof -
  have d0: "0 \<le> sint d" using d by simp
  note j = jitter_facts[of rnd s x s' d, OF rnd x d0]
  define J where "J = sint (fst (jitter rnd d s))"
  define D where "D = real_of_int (sint d)"
  have D: "15000000000 < D" "D \<le> 8000000000000000000" using d by (simp_all add: D_def)
  have J0: "0 \<le> J" using j(1) by (simp add: J_def)
  have Jlo: "D / 100 * (1 - 1 / 2 ^ 52) - 1 < real_of_int J" using j(2) by (simp add: J_def D_def)
  have Jhi: "real_of_int J \<le> 3 * D / 100 * (1 + 1 / 2 ^ 51)" using j(3) by (simp add: J_def D_def)
  have "3 * D / 100 * (1 + 1 / 2 ^ 51) \<le> 31 * D / 1000" using D by simp
  then have Jhi': "real_of_int J \<le> 31 * D / 1000" using Jhi by linarith
  have "9 * D / 1000 \<le> D / 100 * (1 - 1 / 2 ^ 52) - 1" using D by simp
  then have Jlo': "9 * D / 1000 \<le> real_of_int J" using Jlo by linarith
  have "real_of_int J \<le> 248000000000000000" using Jhi' D by linarith
  then have Jsmall: "J \<le> 248000000000000000" by linarith
  have G: "fst (getBackoff rnd d s) = d + fst (jitter rnd d s)"
    using d by (simp add: getBackoff_def split: prod.splits)
  have sG: "sint (fst (getBackoff rnd d s)) = sint d + J"
    unfolding G J_def
    using d J0 Jsmall by (subst sint_add_64) (simp_all add: J_def)
  show "real_of_int (sint d) + 9 * real_of_int (sint d) / 1000 \<le> real_of_int (sint (fst (getBackoff rnd d s)))"
    using sG Jlo' by (simp add: D_def)
  show "real_of_int (sint (fst (getBackoff rnd d s))) \<le> real_of_int (sint d) + 31 * real_of_int (sint d) / 1000"
    using sG Jhi' by (simp add: D_def)
  show "snd (getBackoff rnd d s) = s'"
    using getBackoff_snd[of rnd d s] rnd by simp
qed

lemma fl64_numeral: "numeral n \<le> (2::int) ^ 53 \<Longrightarrow> fl64 (numeral n) = numeral n"
  using fl64_of_int[of "numeral n"] by simp

lemmas jitter_eval =
  jitter_def getBackoff_def float64_of_duration_def duration_of_float64_def trunc_def fl64_numeral
  Second_def Millisecond_def

text \<open>
  C7, as stated, fails: \<^verbatim>\<open>jitter\<close> adds \<^verbatim>\<open>f * (draw - 0.5)\<close> to \<^verbatim>\<open>f = d / 50\<close>, it does
  not return it. At \<open>d = 100\<close> and the draw \<open>1 / 2\<close> the code returns \<open>2\<close>, not \<open>0\<close>,
  and \<open>2\<close> is outside \<open>(-1, 1)\<close>.
\<close>

theorem jitter_is_not_symmetric:
  "sint (fst (jitter (\<lambda>s. (1 / 2, s)) 100 ())) = 2 \<and>
   real_of_int (sint (fst (jitter (\<lambda>s. (1 / 2, s)) 100 ()))) \<noteq>
     real_of_int (sint (100 :: duration)) / 50 * (1 / 2 - 0.5) \<and>
   \<not> (real_of_int (sint (fst (jitter (\<lambda>s. (1 / 2, s)) 100 ()))) <
        real_of_int (sint (100 :: duration)) / 100)"
  by (simp add: jitter_eval)

text \<open>
  C7, amended: for a duration \<open>d \<ge> 0\<close> and a draw \<open>x\<close> in \<open>[0, 1)\<close>, \<^verbatim>\<open>jitter(d)\<close> is
  \<open>(d / 50) * (x + 1 / 2)\<close> up to the truncation and the rounding of the five
  \<^verbatim>\<open>float64\<close> operations (less than \<open>1 + 3 * d / (25 * 2 ^ 53)\<close> away): noise
  centered on 2 per cent of \<open>d\<close>, never negative, between 1 and 3 per cent of \<open>d\<close>.
\<close>

theorem jitter_value:
  assumes "rnd s = (x, s')" and "0 \<le> x" and "x < 1" and "0 \<le> sint d"
  shows "0 \<le> sint (fst (jitter rnd d s)) \<and>
    \<bar>real_of_int (sint (fst (jitter rnd d s))) - real_of_int (sint d) / 50 * (x + 1 / 2)\<bar>
       < 1 + 3 * real_of_int (sint d) / (25 * 2 ^ 53) \<and>
    real_of_int (sint d) / 100 * (1 - 1 / 2 ^ 52) - 1 < real_of_int (sint (fst (jitter rnd d s))) \<and>
    real_of_int (sint (fst (jitter rnd d s))) \<le> 3 * real_of_int (sint d) / 100 * (1 + 1 / 2 ^ 51)"
  using jitter_facts[of rnd s x s' d, OF assms] by blast

theorem jitter_value_witness:
  "(0::real) \<le> 3 / 4 \<and> (3 / 4 :: real) < 1 \<and> 0 \<le> sint (16000000000 :: duration) \<and>
   fst (jitter (\<lambda>s. (3 / 4, s)) 16000000000 ()) = 400000000 \<and>
   \<bar>real_of_int (sint (400000000 :: duration)) -
      real_of_int (sint (16000000000 :: duration)) / 50 * (3 / 4 + 1 / 2)\<bar>
       < 1 + 3 * real_of_int (sint (16000000000 :: duration)) / (25 * 2 ^ 53)"
proof -
  have h: "(\<lambda>s. (3 / 4 :: real, s)) () = (3 / 4, ())" "(0::real) \<le> 3 / 4" "(3 / 4 :: real) < 1"
    "0 \<le> sint (16000000000 :: duration)"
    by simp_all
  have v: "fst (jitter (\<lambda>s. (3 / 4, s)) 16000000000 ()) = 400000000"
    by code_simp
  from jitter_value[of "\<lambda>s. (3 / 4, s)" "()" "3 / 4" "()" 16000000000] v h show ?thesis by simp
qed

text \<open>
  C8, as stated, fails twice. Above 15 s the growth is up to 3 per cent, not 1.5: at
  \<open>d = 16 s\<close> and the draw \<open>3 / 4\<close> the next value is \<open>16.4 s\<close>, more than
  \<open>16 s + 1.5 %\<close>. And \<open>d = 0\<close> is at most 15 s, but the next value is \<open>0\<close>, not
  greater.
\<close>

theorem getBackoff_exceeds_the_claimed_bounds:
  "fst (getBackoff (\<lambda>s. (3 / 4, s)) (16 * Second) ()) = 16400000000 \<and>
   sint (15 * Second) < sint (16 * Second) \<and>
   \<not> (real_of_int (sint (fst (getBackoff (\<lambda>s. (3 / 4, s)) (16 * Second) ()))) \<le>
        real_of_int (sint (16 * Second)) + 15 / 1000 * real_of_int (sint (16 * Second))) \<and>
   fst (getBackoff (\<lambda>s. (1 / 2, s)) 0 ()) = 0 \<and>
   sint (0 :: duration) \<le> sint (15 * Second) \<and>
   \<not> (sint (0 :: duration) < sint (fst (getBackoff (\<lambda>s. (1 / 2, s)) 0 ())))"
proof -
  have "fst (getBackoff (\<lambda>s. (3 / 4, s)) (16 * Second) ()) = 16400000000"
    by code_simp
  moreover have "fst (getBackoff (\<lambda>s. (1 / 2, s)) 0 ()) = 0"
    by code_simp
  ultimately show ?thesis by (simp add: Second_def)
qed

text \<open>
  C8, amended: for a draw in \<open>[0, 1)\<close>, if \<open>0 < d \<le> 15 s\<close> then \<^verbatim>\<open>getBackoff(d)\<close> is
  greater than \<open>d\<close>: at least \<open>2 * d\<close> and at most \<open>2 * d + 6.2 %\<close> of \<open>d\<close>; if
  \<open>15 s < d \<le> 8 * 10 ^ 18\<close> nanoseconds (below that the sum does not overflow) then
  \<^verbatim>\<open>getBackoff(d)\<close> is between \<open>d + 0.9 %\<close> and \<open>d + 3.1 %\<close> of \<open>d\<close>.
\<close>

theorem getBackoff_growth:
  assumes "rnd s = (x, s')" and "0 \<le> x" and "x < 1"
  shows
    "(0 < sint d \<and> sint d \<le> sint (15 * Second) \<longrightarrow>
        sint d < sint (fst (getBackoff rnd d s)) \<and>
        2 * sint d \<le> sint (fst (getBackoff rnd d s)) \<and>
        real_of_int (sint (fst (getBackoff rnd d s))) \<le>
          2 * real_of_int (sint d) + 62 * real_of_int (sint d) / 1000) \<and>
     (sint (15 * Second) < sint d \<and> sint d \<le> 8000000000000000000 \<longrightarrow>
        real_of_int (sint d) + 9 * real_of_int (sint d) / 1000 \<le>
          real_of_int (sint (fst (getBackoff rnd d s))) \<and>
        real_of_int (sint (fst (getBackoff rnd d s))) \<le>
          real_of_int (sint d) + 31 * real_of_int (sint d) / 1000)"
proof (intro conjI impI)
  assume d: "0 < sint d \<and> sint d \<le> sint (15 * Second)"
  then have d': "0 < sint d" "sint d \<le> 15000000000" by simp_all
  note g = getBackoff_low[of rnd s x s' d, OF assms d']
  show "2 * sint d \<le> sint (fst (getBackoff rnd d s))" by (rule g(1))
  then show "sint d < sint (fst (getBackoff rnd d s))" using d' by linarith
  show "real_of_int (sint (fst (getBackoff rnd d s))) \<le>
          2 * real_of_int (sint d) + 62 * real_of_int (sint d) / 1000" by (rule g(2))
next
  assume d: "sint (15 * Second) < sint d \<and> sint d \<le> 8000000000000000000"
  then have d': "15000000000 < sint d" "sint d \<le> 8000000000000000000" by simp_all
  note g = getBackoff_high[of rnd s x s' d, OF assms d']
  show "real_of_int (sint d) + 9 * real_of_int (sint d) / 1000 \<le>
          real_of_int (sint (fst (getBackoff rnd d s)))" by (rule g(1))
  show "real_of_int (sint (fst (getBackoff rnd d s))) \<le>
          real_of_int (sint d) + 31 * real_of_int (sint d) / 1000" by (rule g(2))
qed

theorem getBackoff_growth_witness:
  "fst (getBackoff (\<lambda>s. (1 / 2, s)) (500 * Millisecond) ()) = 1020000000 \<and>
   sint (500 * Millisecond) < sint (1020000000 :: duration) \<and>
   fst (getBackoff (\<lambda>s. (3 / 4, s)) (16 * Second) ()) = 16400000000 \<and>
   real_of_int (sint (16 * Second)) + 9 * real_of_int (sint (16 * Second)) / 1000 \<le>
     real_of_int (sint (16400000000 :: duration)) \<and>
   real_of_int (sint (16400000000 :: duration)) \<le>
     real_of_int (sint (16 * Second)) + 31 * real_of_int (sint (16 * Second)) / 1000"
proof -
  have a: "(\<lambda>s. (1 / 2 :: real, s)) () = (1 / 2, ())" "(0::real) \<le> 1 / 2" "(1 / 2 :: real) < 1"
    and b: "(\<lambda>s. (3 / 4 :: real, s)) () = (3 / 4, ())" "(0::real) \<le> 3 / 4" "(3 / 4 :: real) < 1"
    by simp_all
  have lo: "0 < sint (500 * Millisecond) \<and> sint (500 * Millisecond) \<le> sint (15 * Second)"
    by (simp add: Millisecond_def)
  have hi: "sint (15 * Second) < sint (16 * Second) \<and> sint (16 * Second) \<le> 8000000000000000000"
    by (simp add: Second_def)
  have v1: "fst (getBackoff (\<lambda>s. (1 / 2, s)) (500 * Millisecond) ()) = 1020000000"
    by code_simp
  have v2: "fst (getBackoff (\<lambda>s. (3 / 4, s)) (16 * Second) ()) = 16400000000"
    by code_simp
  have p1: "sint (500 * Millisecond) < sint (fst (getBackoff (\<lambda>s. (1 / 2, s)) (500 * Millisecond) ()))"
    using getBackoff_growth[of "\<lambda>s. (1 / 2, s)" "()" "1 / 2" "()" "500 * Millisecond"] a lo
    by simp
  have p2: "real_of_int (sint (16 * Second)) + 9 * real_of_int (sint (16 * Second)) / 1000 \<le>
      real_of_int (sint (fst (getBackoff (\<lambda>s. (3 / 4, s)) (16 * Second) ()))) \<and>
    real_of_int (sint (fst (getBackoff (\<lambda>s. (3 / 4, s)) (16 * Second) ()))) \<le>
      real_of_int (sint (16 * Second)) + 31 * real_of_int (sint (16 * Second)) / 1000"
    using getBackoff_growth[of "\<lambda>s. (3 / 4, s)" "()" "3 / 4" "()" "16 * Second"] b hi
    by simp
  from p1 p2 v1 v2 show ?thesis by (simp add: Millisecond_def Second_def)
qed

section \<open>Basic facts\<close>

lemma emit_simps [simp]:
  "world (emit ev s) = world s" "roots (emit ev s) = roots s"
  "trace (emit ev s) = trace s @ [ev]" "captured (emit ev s) = captured s"
  by (simp_all add: emit_def)

lemma ext_eq: "ext h s = (fst (h (world s)), s\<lparr>world := snd (h (world s))\<rparr>)"
  by (simp add: ext_def split: prod.splits)

lemma raw_eq:
  "raw X h s = (fst (h (world s)), s\<lparr>world := snd (h (world s)), trace := trace s @ [Raw X]\<rparr>)"
  by (simp add: raw_def ext_eq emit_def)

lemma select_eq:
  "rt_select_Done (runtime_of env) c d s =
     (fst (ctx_Done_first env c d (world s)),
      s\<lparr>world := snd (ctx_Done_first env c d (world s)),
        trace := trace s @ [if fst (ctx_Done_first env c d (world s)) then Cancelled d else Wait d]\<rparr>)"
  by (simp add: runtime_of_def ext_eq emit_def)

lemma rt_Err_eq:
  "rt_Err (runtime_of env) c s = (fst (ctx_Err env c (world s)), s\<lparr>world := snd (ctx_Err env c (world s))\<rparr>)"
  by (simp add: runtime_of_def ext_eq)

lemma rt_Float64_eq:
  "rt_Float64 (runtime_of env) s = (fst (rand_Float64 env (world s)), s\<lparr>world := snd (rand_Float64 env (world s))\<rparr>)"
  by (simp add: runtime_of_def ext_eq)

text \<open>
  The rule for the loop: an invariant \<open>I\<close> of the running backoff value and the state
  at the head of the loop, and a property \<open>Q\<close> of what every exit returns.
\<close>

lemma withBackoff_loop_rule:
  fixes rt :: "('s, 'e, 'c) runtime" and ri :: "('s, 'e, 'z) classifier_scheme"
  assumes run: "withBackoff_loop rt ctx ri f b s = Some y"
    and init: "I b s"
    and step: "\<And>b s final e s1 t s2 bo ok s3 b' s4 dn s5.
        I b s \<Longrightarrow> f s = Some ((final, e), s1) \<Longrightarrow>
        (final \<longrightarrow> Q (e, s1)) \<and>
        (\<not> final \<longrightarrow> ri_transient ri e s1 = (t, s2) \<longrightarrow>
           (\<not> t \<longrightarrow> Q (e, s2)) \<and>
           (t \<longrightarrow> ri_backoff ri e s2 = ((bo, ok), s3) \<longrightarrow>
              (if ok then (bo, s3) else getBackoff (rt_Float64 rt) b s3) = (b', s4) \<longrightarrow>
              rt_select_Done rt ctx b' s4 = (dn, s5) \<longrightarrow>
                (dn \<longrightarrow> Q (rt_Err rt ctx s5)) \<and> (\<not> dn \<longrightarrow> I b' s5)))"
  shows "Q y"
proof -
  have "(\<forall>b s. I b s \<longrightarrow> (\<forall>final e s1. f s = Some ((final, e), s1) \<longrightarrow>
        (final \<longrightarrow> Q (e, s1)) \<and>
        (\<not> final \<longrightarrow> (\<forall>t s2. ri_transient ri e s1 = (t, s2) \<longrightarrow>
           (\<not> t \<longrightarrow> Q (e, s2)) \<and>
           (t \<longrightarrow> (\<forall>bo ok s3. ri_backoff ri e s2 = ((bo, ok), s3) \<longrightarrow>
              (\<forall>b' s4. (if ok then (bo, s3) else getBackoff (rt_Float64 rt) b s3) = (b', s4) \<longrightarrow>
              (\<forall>dn s5. rt_select_Done rt ctx b' s4 = (dn, s5) \<longrightarrow>
                (dn \<longrightarrow> Q (rt_Err rt ctx s5)) \<and> (\<not> dn \<longrightarrow> I b' s5))))))))) \<longrightarrow> I b s \<longrightarrow> Q y"
    (is "?H rt ctx ri f \<longrightarrow> _")
  proof (rule withBackoff_loop.raw_induct
    [where P = "\<lambda>rt ctx ri f b s y. ?H rt ctx ri f \<longrightarrow> I b s \<longrightarrow> Q y", OF _ run])
    fix loop :: "('s, 'e, 'c) runtime \<Rightarrow> 'c \<Rightarrow> ('s, 'e, 'z) classifier_scheme \<Rightarrow>
      ('s \<Rightarrow> ((bool \<times> 'e option) \<times> 's) option) \<Rightarrow> duration \<Rightarrow> 's \<Rightarrow> ('e option \<times> 's) option"
    fix rt :: "('s, 'e, 'c) runtime" and ctx and ri :: "('s, 'e, 'z) classifier_scheme"
      and f backoff s y
    assume IH: "\<And>rt ctx ri f b s y. loop rt ctx ri f b s = Some y \<Longrightarrow>
                ?H rt ctx ri f \<longrightarrow> I b s \<longrightarrow> Q y"
    assume body: "(case f s of None \<Rightarrow> None
       | Some ((final, err), s1) \<Rightarrow>
           if final then Some (err, s1)
           else case ri_transient ri err s1 of
                (tr, s2) \<Rightarrow>
                  if \<not> tr then Some (err, s2)
                  else case ri_backoff ri err s2 of
                       ((bo, ok), s3) \<Rightarrow>
                         case if ok then (bo, s3)
                              else getBackoff (rt_Float64 rt) backoff s3 of
                         (backoff', s4) \<Rightarrow>
                           case rt_select_Done rt ctx backoff' s4 of
                           (done, s5) \<Rightarrow>
                             if done then Some (rt_Err rt ctx s5)
                             else loop rt ctx ri f backoff' s5) = Some y"
    show "?H rt ctx ri f \<longrightarrow> I backoff s \<longrightarrow> Q y"
    proof (intro impI)
      assume H: "?H rt ctx ri f" and I0: "I backoff s"
      from body obtain final e s1 where fs: "f s = Some ((final, e), s1)"
        by (auto split: option.splits)
      note H1 = H[rule_format, OF I0 fs]
      show "Q y"
      proof (cases final)
        case True
        then have "y = (e, s1)" using body fs by simp
        then show ?thesis using H1 True by simp
      next
        case False
        obtain t s2 where t: "ri_transient ri e s1 = (t, s2)" by fastforce
        note H2 = H1[THEN conjunct2, rule_format, OF False t]
        show ?thesis
        proof (cases t)
          case False
          then have "y = (e, s2)" using body fs \<open>\<not> final\<close> t by simp
          then show ?thesis using H2 False by simp
        next
          case True
          obtain bo ok s3 where b: "ri_backoff ri e s2 = ((bo, ok), s3)"
            by (metis surj_pair)
          obtain b' s4 where
            g: "(if ok then (bo, s3) else getBackoff (rt_Float64 rt) backoff s3) = (b', s4)"
            by fastforce
          obtain dn s5 where d: "rt_select_Done rt ctx b' s4 = (dn, s5)" by fastforce
          note H3 = H2[THEN conjunct2, rule_format, OF True b g d]
          show ?thesis
          proof (cases dn)
            case True
            then have "y = rt_Err rt ctx s5"
              using body fs \<open>\<not> final\<close> t \<open>t\<close> b g d by simp
            then show ?thesis using H3 True by simp
          next
            case False
            then have lp: "loop rt ctx ri f b' s5 = Some y"
              using body fs \<open>\<not> final\<close> t \<open>t\<close> b g d by simp
            have "I b' s5" using H3 False by simp
            with IH[OF lp] H show ?thesis by blast
          qed
        qed
      qed
    qed
  qed
  moreover have "?H rt ctx ri f"
    using step by blast
  ultimately show ?thesis using init by blast
qed


lemma withBackoff_loop_invariant:
  fixes rt :: "('s, 'e, 'c) runtime" and ri :: "('s, 'e, 'z) classifier_scheme"
  assumes run: "withBackoff_loop rt ctx ri f b s = Some (err, s')"
    and init: "J s"
    and f: "\<And>s x s'. J s \<Longrightarrow> f s = Some (x, s') \<Longrightarrow> J s'"
    and tr: "\<And>e s. J s \<Longrightarrow> J (snd (ri_transient ri e s))"
    and bo: "\<And>e s. J s \<Longrightarrow> J (snd (ri_backoff ri e s))"
    and rnd: "\<And>s. J s \<Longrightarrow> J (snd (rt_Float64 rt s))"
    and sel: "\<And>d s. J s \<Longrightarrow> J (snd (rt_select_Done rt ctx d s))"
    and cerr: "\<And>s. J s \<Longrightarrow> J (snd (rt_Err rt ctx s))"
  shows "J s'"
proof -
  have "J (snd (err, s'))"
  proof (rule withBackoff_loop_rule[OF run, where I = "\<lambda>b s. J s" and Q = "\<lambda>y. J (snd y)"])
    show "J s" by (rule init)
  next
    fix b s final e s1 t s2 bo ok s3 b' s4 dn s5
    assume J0: "J s" and fs: "f s = Some ((final, e), s1)"
    have J1: "J s1" by (rule f[OF J0 fs])
    have J2: "ri_transient ri e s1 = (t, s2) \<Longrightarrow> J s2" for t s2
      using tr[OF J1, of e] by simp
    have J3: "ri_transient ri e s1 = (t, s2) \<Longrightarrow> ri_backoff ri e s2 = ((bo, ok), s3) \<Longrightarrow> J s3"
      for t s2 bo ok s3
      using bo[OF J2, of t s2 e] by simp
    have J4: "ri_transient ri e s1 = (t, s2) \<Longrightarrow> ri_backoff ri e s2 = ((bo, ok), s3) \<Longrightarrow>
        (if ok then (bo, s3) else getBackoff (rt_Float64 rt) b s3) = (b', s4) \<Longrightarrow> J s4"
      for t s2 bo ok s3 b' s4
      using J3[of t s2 bo ok s3] rnd[of s3] getBackoff_snd[of "rt_Float64 rt" b s3]
      by (auto split: if_splits)
    have J5: "ri_transient ri e s1 = (t, s2) \<Longrightarrow> ri_backoff ri e s2 = ((bo, ok), s3) \<Longrightarrow>
        (if ok then (bo, s3) else getBackoff (rt_Float64 rt) b s3) = (b', s4) \<Longrightarrow>
        rt_select_Done rt ctx b' s4 = (dn, s5) \<Longrightarrow> J s5"
      for t s2 bo ok s3 b' s4 dn s5
      using sel[OF J4, of t s2 bo ok s3 b' s4 b'] by simp
    show "(final \<longrightarrow> J (snd (e, s1))) \<and>
        (\<not> final \<longrightarrow> ri_transient ri e s1 = (t, s2) \<longrightarrow>
           (\<not> t \<longrightarrow> J (snd (e, s2))) \<and>
           (t \<longrightarrow> ri_backoff ri e s2 = ((bo, ok), s3) \<longrightarrow>
              (if ok then (bo, s3) else getBackoff (rt_Float64 rt) b s3) = (b', s4) \<longrightarrow>
              rt_select_Done rt ctx b' s4 = (dn, s5) \<longrightarrow>
                (dn \<longrightarrow> J (snd (rt_Err rt ctx s5))) \<and> (\<not> dn \<longrightarrow> J s5)))"
      using J1 J2 J5 cerr by auto
  qed
  then show ?thesis by simp
qed

lemma frame_refl: "frame A s s"
  by (simp add: frame_def)

lemma frame_ext: "frame A s0 s \<Longrightarrow> frame A s0 (snd (ext h s))"
  by (simp add: frame_def ext_eq)

lemma frame_raw: "frame A s0 s \<Longrightarrow> Raw X \<in> A \<Longrightarrow> frame A s0 (snd (raw X h s))"
  by (auto simp: frame_def raw_eq)

lemma frame_select:
  "frame A s0 s \<Longrightarrow> Wait d \<in> A \<Longrightarrow> Cancelled d \<in> A \<Longrightarrow>
   frame A s0 (snd (rt_select_Done (runtime_of env) c d s))"
  by (auto simp: frame_def select_eq)

lemma frame_creds:
  "frame A s0 s \<Longrightarrow> frame A s0 (s\<lparr>roots := (roots s)(r := (roots s r)\<lparr>account := a, key := k\<rparr>)\<rparr>)"
  by (simp add: frame_def)

lemma beRoot_classifier_simps [simp]:
  "ri_backoff (beRoot_classifier env r) = beRoot_backoff env r"
  "ri_reauth (beRoot_classifier env r) = beRoot_reauth env r"
  "ri_transient (beRoot_classifier env r) = beRoot_transient env r"
  by (simp_all add: beRoot_classifier_def)

lemma beRoot_iface_simps [simp]:
  "ri_backoff (beRoot_iface env r) = beRoot_backoff env r"
  "ri_reauth (beRoot_iface env r) = beRoot_reauth env r"
  "ri_transient (beRoot_iface env r) = beRoot_transient env r"
  "ri_reauthorizeAccount (beRoot_iface env r) = beRoot_reauthorizeAccount env r"
  by (simp_all add: beRoot_iface_def)

lemma authorizeAccount_frame:
  assumes "beRoot_authorizeAccount env r ctx a k s = Some (e, s')"
  shows "frame auth_events s s'"
proof (rule withBackoff_loop_invariant[OF assms[unfolded beRoot_authorizeAccount_def withBackoff_def],
      where J = "frame auth_events s"])
  show "frame auth_events s s" by (rule frame_refl)
next
  fix t x t' assume F: "frame auth_events s t" and "authorizeAccount_f env r ctx a k t = Some (x, t')"
  then show "frame auth_events s t'"
    using frame_raw[OF F, of AuthorizeAccount "b2_authorizeAccount env (b2i (roots t r)) ctx a k"]
    by (auto simp: authorizeAccount_f_def auth_events_def frame_creds split: prod.splits option.splits)
next
  fix e t assume "frame auth_events s t"
  then show "frame auth_events s (snd (ri_transient (beRoot_classifier env r) e t))"
    by (simp add: beRoot_transient_def frame_ext)
next
  fix e t assume "frame auth_events s t"
  then show "frame auth_events s (snd (ri_backoff (beRoot_classifier env r) e t))"
    by (simp add: beRoot_backoff_def frame_ext)
next
  fix t assume "frame auth_events s t"
  then show "frame auth_events s (snd (rt_Float64 (runtime_of env) t))"
    by (simp add: runtime_of_def frame_ext)
next
  fix d t assume "frame auth_events s t"
  then show "frame auth_events s (snd (rt_select_Done (runtime_of env) ctx d t))"
    by (rule frame_select) (simp_all add: auth_events_def)
next
  fix t assume "frame auth_events s t"
  then show "frame auth_events s (snd (rt_Err (runtime_of env) ctx t))"
    by (simp add: runtime_of_def frame_ext)
qed

lemma reauthorizeAccount_frame:
  assumes "beRoot_reauthorizeAccount env r ctx s = Some (e, s')"
  shows "captured s' = captured s \<and>
         (\<exists>tr. trace s' = trace s @ Reauthorize # tr \<and> set tr \<subseteq> auth_events) \<and>
         (\<forall>r. b2i (roots s' r) = b2i (roots s r))"
  using authorizeAccount_frame[OF assms[unfolded beRoot_reauthorizeAccount_def Let_def]]
  by (auto simp: frame_def)

section \<open>The reauthentication executor\<close>

lemma demo_simps [simp]:
  "b2_reauth demo_env = (\<lambda>_ e w. (e = Some 2 \<or> e = Some 4, w))"
  "b2_transient demo_env = (\<lambda>_ e w. (e = Some 1 \<or> e = Some 4, w))"
  "b2_backoff demo_env = (\<lambda>_ e w. ((Second, True), w))"
  "b2_authorizeAccount demo_env = (\<lambda>_ _ _ _ w. pop w)"
  "b2_deleteBucket demo_env = (\<lambda>_ _ w. pop w)"
  "ctx_Done_first demo_env = (\<lambda>c _ w. (c = Ctx 1, w))"
  "ctx_Err demo_env = (\<lambda>_ w. (Some 9, w))"
  by (simp_all add: demo_env_def)

lemma eager_simps [simp]:
  "b2_reauth eager_env = (\<lambda>_ e w. (True, w))"
  "b2_transient eager_env = (\<lambda>_ e w. (e = Some 1 \<or> e = Some 4, w))"
  "b2_backoff eager_env = (\<lambda>_ e w. ((Second, True), w))"
  "b2_authorizeAccount eager_env = (\<lambda>_ _ _ _ w. pop w)"
  "b2_deleteBucket eager_env = (\<lambda>_ _ w. pop w)"
  "b2_listBuckets eager_env = (\<lambda>_ _ w. case pop w of (e, w') \<Rightarrow> (([B2Bucket 7, B2Bucket 8], e), w'))"
  by (simp_all add: eager_env_def demo_env_def)

lemmas demo_eval =
  raw_eq ext_eq demo_state_def beRoot_reauth_def beRoot_reauthorizeAccount_def
  beRoot_authorizeAccount_def withBackoff_def withBackoff_loop.simps authorizeAccount_f_def
  beRoot_transient_def beRoot_backoff_def emit_def fun_upd_def select_eq rt_Err_eq

lemma withReauth_trace_bound:
  assumes run: "withReauth ctx (beRoot_iface env r) (\<lambda>s. Some (raw X op s)) t = Some (res, t')"
    and X: "X \<noteq> AuthorizeAccount"
  shows "count_list (trace t') Reauthorize \<le> Suc (count_list (trace t) Reauthorize) \<and>
         count_list (trace t') (Raw X) \<le> count_list (trace t) (Raw X) + 2"
proof -
  obtain e1 t1 where f1: "raw X op t = (e1, t1)" by fastforce
  obtain re t2 where c: "beRoot_reauth env r e1 t1 = (re, t2)" by fastforce
  have tr1: "trace t1 = trace t @ [Raw X]" using f1 by (auto simp: raw_eq)
  have tr2: "trace t2 = trace t1" using c by (auto simp: beRoot_reauth_def ext_eq)
  show ?thesis
  proof (cases re)
    case False
    then have "t' = t2" using run f1 c by (simp add: withReauth_def)
    then show ?thesis using tr1 tr2 by simp
  next
    case True
    then obtain y where ra: "beRoot_reauthorizeAccount env r ctx t2 = Some y"
      using run f1 c by (auto simp: withReauth_def split: option.splits)
    obtain e3 t3 where y: "y = (e3, t3)" by fastforce
    from reauthorizeAccount_frame[OF ra[unfolded y]] obtain tr where
      tr3: "trace t3 = trace t2 @ Reauthorize # tr" and sub: "set tr \<subseteq> auth_events"
      by blast
    have no: "count_list tr (Raw X) = 0" "count_list tr Reauthorize = 0"
      using sub X by (auto simp: auth_events_def count_list_0_iff)
    show ?thesis
    proof (cases e3)
      case (Some e')
      then have "t' = t3" using run f1 c True ra y by (simp add: withReauth_def)
      then show ?thesis using tr1 tr2 tr3 no by simp
    next
      case None
      then have "(res, t') = raw X op t3" using run f1 c True ra y by (simp add: withReauth_def)
      then have "trace t' = trace t3 @ [Raw X]" by (metis raw_eq snd_conv state.select_convs(3) state.surjective state.update_convs(1,3))
      then show ?thesis using tr1 tr2 tr3 no by simp
    qed
  qed
qed

text \<open>
  C6: when the error of the unit of work is classified as asking for
  reauthentication and the reauthorization fails, \<^verbatim>\<open>withReauth\<close> returns the failure of
  the reauthorization, whatever the first error was, in the state the reauthorization
  left: the unit of work has run once and is not run again.
\<close>

theorem reauth_failure_takes_precedence:
  assumes first: "raw X op s = (err, s1)"
    and cls: "beRoot_reauth env r err s1 = (True, s2)"
    and fails: "beRoot_reauthorizeAccount env r ctx s2 = Some (Some e', s3)"
    and X: "X \<noteq> AuthorizeAccount"
  shows "withReauth ctx (beRoot_iface env r) (\<lambda>s. Some (raw X op s)) s = Some (Some e', s3) \<and>
         count_list (trace s3) (Raw X) = Suc (count_list (trace s) (Raw X)) \<and>
         count_list (trace s3) Reauthorize = Suc (count_list (trace s) Reauthorize)"
proof -
  have res: "withReauth ctx (beRoot_iface env r) (\<lambda>s. Some (raw X op s)) s = Some (Some e', s3)"
    using first cls fails by (simp add: withReauth_def)
  have t1: "trace s1 = trace s @ [Raw X]"
    using first by (auto simp: raw_eq)
  have t2: "trace s2 = trace s1"
    using cls by (auto simp: beRoot_reauth_def ext_eq)
  from reauthorizeAccount_frame[OF fails] obtain tr where
    t3: "trace s3 = trace s2 @ Reauthorize # tr" and tr: "set tr \<subseteq> auth_events"
    by blast
  have no: "Raw X \<notin> set tr" "Reauthorize \<notin> set tr"
    using tr X by (auto simp: auth_events_def)
  then have "count_list tr (Raw X) = 0" "count_list tr Reauthorize = 0"
    by (simp_all add: count_list_0_iff)
  then show ?thesis
    using res t1 t2 t3 by simp
qed

theorem reauth_failure_takes_precedence_witness:
  "withReauth (Ctx 0) (beRoot_iface demo_env 0)
     (\<lambda>s. Some (raw DeleteBucket (b2_deleteBucket demo_env (B2Bucket 7) (Ctx 0)) s))
     (demo_state [2, 3] ()) =
   Some (Some 3, (demo_state [] ())\<lparr>trace := [Raw DeleteBucket, Reauthorize, Raw AuthorizeAccount]\<rparr>)"
proof -
  let ?op = "b2_deleteBucket demo_env (B2Bucket 7) (Ctx 0)"
  let ?s = "demo_state [2, 3] () :: (nat list, unit) state"
  let ?s1 = "(demo_state [3] ())\<lparr>trace := [Raw DeleteBucket]\<rparr> :: (nat list, unit) state"
  let ?s3 = "(demo_state [] ())\<lparr>trace := [Raw DeleteBucket, Reauthorize, Raw AuthorizeAccount]\<rparr>
    :: (nat list, unit) state"
  have first: "raw DeleteBucket ?op ?s = (Some 2, ?s1)"
    by (simp add: demo_eval)
  have cls: "beRoot_reauth demo_env 0 (Some 2) ?s1 = (True, ?s1)"
    by (simp add: demo_eval)
  have fails: "beRoot_reauthorizeAccount demo_env 0 (Ctx 0) ?s1 = Some (Some 3, ?s3)"
    by (simp add: demo_eval)
  from reauth_failure_takes_precedence[OF first cls fails] show ?thesis
    by simp
qed

text \<open>
  C2: when the first call of the operation returns an error that is classified as
  asking for reauthentication and the reauthorization succeeds, \<^verbatim>\<open>withReauth\<close> calls
  \<^verbatim>\<open>reauthorizeAccount\<close> once and the operation twice, and returns what the second
  call returns; nothing is asked of the transient hook. Whatever the operation and
  the hooks do, a call of \<^verbatim>\<open>withReauth\<close> that returns has made at most one call of
  \<^verbatim>\<open>reauthorizeAccount\<close> and at most two of the operation.
\<close>

theorem reauth_once_retry_once:
  fixes s :: "('w, 'l) state"
  assumes first: "raw X op s = (Some e, s1)"
    and cls: "beRoot_reauth env r (Some e) s1 = (True, s2)"
    and ok: "beRoot_reauthorizeAccount env r ctx s2 = Some (None, s3)"
    and X: "X \<noteq> AuthorizeAccount"
  shows "withReauth ctx (beRoot_iface env r) (\<lambda>s. Some (raw X op s)) s = Some (raw X op s3) \<and>
         count_list (trace (snd (raw X op s3))) (Raw X) = count_list (trace s) (Raw X) + 2 \<and>
         count_list (trace (snd (raw X op s3))) Reauthorize = count_list (trace s) Reauthorize + 1 \<and>
         (\<forall>(t :: ('w, 'l) state) res t'.
            withReauth ctx (beRoot_iface env r) (\<lambda>s. Some (raw X op s)) t = Some (res, t') \<longrightarrow>
            count_list (trace t') Reauthorize \<le> Suc (count_list (trace t) Reauthorize) \<and>
            count_list (trace t') (Raw X) \<le> count_list (trace t) (Raw X) + 2)"
proof -
  have res: "withReauth ctx (beRoot_iface env r) (\<lambda>s. Some (raw X op s)) s = Some (raw X op s3)"
    using first cls ok by (simp add: withReauth_def)
  have t1: "trace s1 = trace s @ [Raw X]"
    using first by (auto simp: raw_eq)
  have t2: "trace s2 = trace s1"
    using cls by (auto simp: beRoot_reauth_def ext_eq)
  from reauthorizeAccount_frame[OF ok] obtain tr where
    t3: "trace s3 = trace s2 @ Reauthorize # tr" and tr: "set tr \<subseteq> auth_events"
    by blast
  have no: "count_list tr (Raw X) = 0" "count_list tr Reauthorize = 0"
    using tr X by (auto simp: auth_events_def count_list_0_iff)
  have t4: "trace (snd (raw X op s3)) = trace s3 @ [Raw X]"
    by (simp add: raw_eq)
  have cnt: "count_list (trace (snd (raw X op s3))) (Raw X) = count_list (trace s) (Raw X) + 2"
    "count_list (trace (snd (raw X op s3))) Reauthorize = count_list (trace s) Reauthorize + 1"
    using t1 t2 t3 t4 no by simp_all
  have bound: "\<forall>(t :: ('w, 'l) state) res t'.
      withReauth ctx (beRoot_iface env r) (\<lambda>s. Some (raw X op s)) t = Some (res, t') \<longrightarrow>
      count_list (trace t') Reauthorize \<le> Suc (count_list (trace t) Reauthorize) \<and>
      count_list (trace t') (Raw X) \<le> count_list (trace t) (Raw X) + 2"
    using withReauth_trace_bound[OF _ X] by blast
  show ?thesis
    using res cnt bound by (intro conjI)
qed

theorem reauth_once_retry_once_witness:
  "withReauth (Ctx 0) (beRoot_iface demo_env 0)
     (\<lambda>s. Some (raw DeleteBucket (b2_deleteBucket demo_env (B2Bucket 7) (Ctx 0)) s))
     (demo_state [4, 0, 0] ()) =
   Some (None, (demo_state [] ())\<lparr>trace :=
     [Raw DeleteBucket, Reauthorize, Raw AuthorizeAccount, Raw DeleteBucket]\<rparr>) \<and>
   fst (beRoot_transient demo_env 0 (Some 4) (demo_state [] ()))"
proof -
  let ?op = "b2_deleteBucket demo_env (B2Bucket 7) (Ctx 0)"
  let ?s = "demo_state [4, 0, 0] () :: (nat list, unit) state"
  let ?s1 = "(demo_state [0, 0] ())\<lparr>trace := [Raw DeleteBucket]\<rparr> :: (nat list, unit) state"
  let ?s3 = "(demo_state [0] ())\<lparr>trace := [Raw DeleteBucket, Reauthorize, Raw AuthorizeAccount]\<rparr>
    :: (nat list, unit) state"
  have first: "raw DeleteBucket ?op ?s = (Some 4, ?s1)"
    by (simp add: demo_eval)
  have cls: "beRoot_reauth demo_env 0 (Some 4) ?s1 = (True, ?s1)"
    by (simp add: demo_eval)
  have ok: "beRoot_reauthorizeAccount demo_env 0 (Ctx 0) ?s1 = Some (None, ?s3)"
    by (simp add: demo_eval)
  from reauth_once_retry_once[OF first cls ok] show ?thesis
    by (simp add: demo_eval)
qed






section \<open>The operations of the handles\<close>

lemma attempt_eq:
  "(case withReauth ctx ri g s of
        None \<Rightarrow> None
      | Some (Some e, s1) \<Rightarrow> Some ((False, Some e), s1)
      | Some (None, s1) \<Rightarrow> Some ((True, None), s1)) = spec_attempt ctx ri g s"
  by (simp add: spec_attempt_def split: option.splits)

lemma createBucket_f_eq:
  "createBucket_f env r ctx name btype =
   spec_attempt ctx (beRoot_iface env r) (createBucket_g env r ctx name btype)"
  by (rule ext) (simp add: createBucket_f_def attempt_eq)

lemma listBuckets_f_eq:
  "listBuckets_f env r ctx = spec_attempt ctx (beRoot_iface env r) (listBuckets_g env r ctx)"
  by (rule ext) (simp add: listBuckets_f_def attempt_eq)

lemma deleteBucket_f_eq:
  "deleteBucket_f env b ctx =
   spec_attempt ctx (beRoot_iface env (bucket_ri b)) (deleteBucket_g env b ctx)"
  by (rule ext) (simp add: deleteBucket_f_def attempt_eq)

lemma getUploadURL_f_eq:
  "getUploadURL_f env b ctx =
   spec_attempt ctx (beRoot_iface env (bucket_ri b)) (getUploadURL_g env b ctx)"
  by (rule ext) (simp add: getUploadURL_f_def attempt_eq)

lemma uploadFile_f_eq:
  "uploadFile_f env b ctx rd sz name ct sha1 info =
   spec_attempt ctx (beRoot_iface env (url_ri b)) (uploadFile_g env b ctx rd sz name ct sha1 info)"
  by (rule ext) (simp add: uploadFile_f_def attempt_eq)

lemma deleteFileVersion_f_eq:
  "deleteFileVersion_f env b ctx =
   spec_attempt ctx (beRoot_iface env (file_ri b)) (deleteFileVersion_g env b ctx)"
  by (rule ext) (simp add: deleteFileVersion_f_def attempt_eq)


lemma resilient_permanent:
  assumes "g s = Some (Some e, s1)"
    and "ri_reauth ri (Some e) s1 = (False, s2)"
    and "ri_transient ri (Some e) s2 = (False, s3)"
  shows "withBackoff rt ctx ri (spec_attempt ctx ri g) s = Some (Some e, s3)"
  using assms
  by (simp add: withBackoff_def withBackoff_loop.simps[of rt ctx ri _ _ s] spec_attempt_def
      withReauth_def)

lemma hook_frame:
  "beRoot_reauth env r e s = (x, s') \<Longrightarrow> trace s' = trace s \<and> captured s' = captured s \<and> roots s' = roots s"
  "beRoot_transient env r e s = (y, s') \<Longrightarrow> trace s' = trace s \<and> captured s' = captured s \<and> roots s' = roots s"
  "beRoot_backoff env r e s = (z, s') \<Longrightarrow> trace s' = trace s \<and> captured s' = captured s \<and> roots s' = roots s"
  by (auto simp: beRoot_reauth_def beRoot_transient_def beRoot_backoff_def ext_eq)

lemma g_trace:
  "createBucket_g env r ctx name btype sC = Some (xC, sC') \<Longrightarrow> trace sC' = trace sC @ [Raw CreateBucket]"
  "listBuckets_g env r ctx sL = Some (xL, sL') \<Longrightarrow> trace sL' = trace sL @ [Raw ListBuckets]"
  "deleteBucket_g env b ctx sD = Some (xD, sD') \<Longrightarrow> trace sD' = trace sD @ [Raw DeleteBucket]"
  "getUploadURL_g env b ctx sG = Some (xG, sG') \<Longrightarrow> trace sG' = trace sG @ [Raw GetUploadURL]"
  "uploadFile_g env u ctx rd sz nm ct sha1 info sU = Some (xU, sU') \<Longrightarrow>
     trace sU' = trace sU @ [Raw UploadFile]"
  "deleteFileVersion_g env fl ctx sF = Some (xF, sF') \<Longrightarrow> trace sF' = trace sF @ [Raw DeleteFileVersion]"
  "authorizeAccount_f env r ctx acct k sA = Some (xA, sA') \<Longrightarrow> trace sA' = trace sA @ [Raw AuthorizeAccount]"
  by (auto simp: createBucket_g_def listBuckets_g_def deleteBucket_g_def getUploadURL_g_def
      uploadFile_g_def deleteFileVersion_g_def authorizeAccount_f_def raw_eq
      split: prod.splits option.splits)

lemma permanent_trace:
  assumes "trace s1 = trace s @ [Raw X]"
    and "beRoot_reauth env r e s1 = (x, s2)"
    and "beRoot_transient env r e s2 = (y, s3)"
  shows "trace s3 = trace s @ [Raw X]"
  using assms hook_frame(1)[of env r e s1 x s2] hook_frame(2)[of env r e s2 y s3] by simp

lemma demo_more_simps [simp]:
  "b2_createBucket demo_env = (\<lambda>_ _ _ _ w. case pop w of (e, w') \<Rightarrow> ((B2Bucket 7, e), w'))"
  "b2_listBuckets demo_env = (\<lambda>_ _ w. case pop w of (e, w') \<Rightarrow> (([B2Bucket 7, B2Bucket 8], e), w'))"
  "b2_name demo_env = (\<lambda>_ w. (''bucket'', w))"
  "b2_getUploadURL demo_env = (\<lambda>_ _ w. case pop w of (e, w') \<Rightarrow> ((B2URL 5, e), w'))"
  "b2_uploadFile demo_env = (\<lambda>_ _ _ _ _ _ _ _ w. case pop w of (e, w') \<Rightarrow> ((B2File 3, e), w'))"
  "b2_deleteFileVersion demo_env = (\<lambda>_ _ w. pop w)"
  "rand_Float64 demo_env = (\<lambda>w. (1 / 2, w))"
  by (simp_all add: demo_env_def)

lemmas demo_g_eval =
  createBucket_g_def listBuckets_g_def deleteBucket_g_def getUploadURL_g_def uploadFile_g_def
  deleteFileVersion_g_def

lemma withReauth_captured:
  fixes s :: "('w, 'l) state"
  assumes run: "withReauth ctx (beRoot_iface env r) g s = Some (x, s')"
    and init: "P (captured s)"
    and g: "\<And>s y s'. P (captured s) \<Longrightarrow> g s = Some (y, s') \<Longrightarrow> P (captured s')"
  shows "P (captured s')"
proof -
  from run obtain e1 s1 where g1: "g s = Some (e1, s1)"
    by (auto simp: withReauth_def split: option.splits)
  have P1: "P (captured s1)" by (rule g[OF init g1])
  obtain re s2 where c: "beRoot_reauth env r e1 s1 = (re, s2)" by fastforce
  have P2: "P (captured s2)" using P1 hook_frame(1)[OF c] by simp
  show ?thesis
  proof (cases re)
    case False
    then show ?thesis using run g1 c P2 by (simp add: withReauth_def)
  next
    case True
    then obtain e3 s3 where ra: "beRoot_reauthorizeAccount env r ctx s2 = Some (e3, s3)"
      using run g1 c by (auto simp: withReauth_def split: option.splits)
    have P3: "P (captured s3)" using P2 reauthorizeAccount_frame[OF ra] by simp
    show ?thesis
    proof (cases e3)
      case (Some e')
      then show ?thesis using run g1 c True ra P3 by (simp add: withReauth_def)
    next
      case None
      then have "g s3 = Some (x, s')" using run g1 c True ra by (simp add: withReauth_def)
      then show ?thesis by (rule g[OF P3])
    qed
  qed
qed

lemma resilient_captured:
  fixes s :: "('w, 'l) state"
  assumes run: "withBackoff (runtime_of env) ctx (beRoot_iface env r)
                  (spec_attempt ctx (beRoot_iface env r) g) s = Some (x, s')"
    and init: "P (captured s)"
    and g: "\<And>s y s'. P (captured s) \<Longrightarrow> g s = Some (y, s') \<Longrightarrow> P (captured s')"
  shows "P (captured s')"
proof (rule withBackoff_loop_invariant[OF run[unfolded withBackoff_def],
      where J = "\<lambda>s. P (captured s)"])
  show "P (captured s)" by (rule init)
next
  fix t t' :: "('w, 'l) state" and y
  assume Pt: "P (captured t)"
    and "spec_attempt ctx (beRoot_iface env r) g t = Some (y, t')"
  then obtain e where "withReauth ctx (beRoot_iface env r) g t = Some (e, t')"
    by (auto simp: spec_attempt_def split: option.splits)
  then show "P (captured t')" using Pt g by (rule withReauth_captured)
next
  fix e and t :: "('w, 'l) state" assume "P (captured t)"
  then show "P (captured (snd (ri_transient (beRoot_iface env r) e t)))"
    by (simp add: beRoot_transient_def ext_eq)
next
  fix e and t :: "('w, 'l) state" assume "P (captured t)"
  then show "P (captured (snd (ri_backoff (beRoot_iface env r) e t)))"
    by (simp add: beRoot_backoff_def ext_eq)
next
  fix t :: "('w, 'l) state" assume "P (captured t)"
  then show "P (captured (snd (rt_Float64 (runtime_of env) t)))"
    by (simp add: rt_Float64_eq)
next
  fix d and t :: "('w, 'l) state" assume "P (captured t)"
  then show "P (captured (snd (rt_select_Done (runtime_of env) ctx d t)))"
    by (simp add: select_eq)
next
  fix t :: "('w, 'l) state" assume "P (captured t)"
  then show "P (captured (snd (rt_Err (runtime_of env) ctx t)))"
    by (simp add: rt_Err_eq)
qed

lemmas demo_op_eval =
  beRoot_createBucket_def createBucket_f_def beRoot_listBuckets_def listBuckets_f_def
  beBucket_deleteBucket_def deleteBucket_f_def beBucket_getUploadURL_def getUploadURL_f_def
  beURL_uploadFile_def uploadFile_f_def beFile_deleteFileVersion_def deleteFileVersion_f_def
  withReauth_def

lemma authorizeAccount_f_eq:
  "authorizeAccount_f env r ctx acct k =
   (\<lambda>s. case spec_authorize_rawCall env r ctx acct k s of
           None \<Rightarrow> None
         | Some (err, s') \<Rightarrow> Some ((err = None, err), s'))"
  by (rule ext)
    (simp add: authorizeAccount_f_def spec_authorize_rawCall_def split: prod.splits option.splits)

lemma quiet_simps [simp]:
  "quiet []" "quiet (tr @ tr') \<longleftrightarrow> quiet tr \<and> quiet tr'"
  "quiet [Raw X]" "quiet [Wait d]" "quiet [Reauthorize]" "\<not> quiet [Cancelled d]"
  by (auto simp: quiet_def)


text \<open>
  C5: when the first raw call of an operation fails with an error that the hooks
  classify as neither asking for reauthentication nor transient, the operation
  returns that very error, and the trace has grown by that one raw call: no retry,
  no wait, no reauthorization. \<^verbatim>\<open>authorizeAccount\<close> never asks the reauth hook, so
  for it the transient hook alone decides.
\<close>

theorem permanent_error_returned_at_once:
  fixes sA :: "('w, 'a) state" and sC :: "('w, beBucket option) state"
    and sL :: "('w, beBucket list) state" and sD :: "('w, 'd) state"
    and sG :: "('w, beURL option) state" and sU :: "('w, beFile option) state"
    and sF :: "('w, 'f) state"
  shows
    "(authorizeAccount_f env rA ctx acct k sA = Some ((False, Some eA), sA1) \<and>
      beRoot_transient env rA (Some eA) sA1 = (False, sA3) \<longrightarrow>
        beRoot_authorizeAccount env rA ctx acct k sA = Some (Some eA, sA3) \<and>
        trace sA3 = trace sA @ [Raw AuthorizeAccount]) \<and>
     (createBucket_g env rC ctx name btype (sC\<lparr>captured := None\<rparr>) = Some (Some eC, sC1) \<and>
      beRoot_reauth env rC (Some eC) sC1 = (False, sC2) \<and>
      beRoot_transient env rC (Some eC) sC2 = (False, sC3) \<longrightarrow>
        beRoot_createBucket env rC ctx name btype sC = Some ((None, Some eC), sC3) \<and>
        trace sC3 = trace sC @ [Raw CreateBucket]) \<and>
     (listBuckets_g env rL ctx (sL\<lparr>captured := []\<rparr>) = Some (Some eL, sL1) \<and>
      beRoot_reauth env rL (Some eL) sL1 = (False, sL2) \<and>
      beRoot_transient env rL (Some eL) sL2 = (False, sL3) \<longrightarrow>
        beRoot_listBuckets env rL ctx sL = Some (([], Some eL), sL3) \<and>
        trace sL3 = trace sL @ [Raw ListBuckets]) \<and>
     (deleteBucket_g env bD ctx sD = Some (Some eD, sD1) \<and>
      beRoot_reauth env (bucket_ri bD) (Some eD) sD1 = (False, sD2) \<and>
      beRoot_transient env (bucket_ri bD) (Some eD) sD2 = (False, sD3) \<longrightarrow>
        beBucket_deleteBucket env bD ctx sD = Some (Some eD, sD3) \<and>
        trace sD3 = trace sD @ [Raw DeleteBucket]) \<and>
     (getUploadURL_g env bG ctx (sG\<lparr>captured := None\<rparr>) = Some (Some eG, sG1) \<and>
      beRoot_reauth env (bucket_ri bG) (Some eG) sG1 = (False, sG2) \<and>
      beRoot_transient env (bucket_ri bG) (Some eG) sG2 = (False, sG3) \<longrightarrow>
        beBucket_getUploadURL env bG ctx sG = Some ((None, Some eG), sG3) \<and>
        trace sG3 = trace sG @ [Raw GetUploadURL]) \<and>
     (uploadFile_g env bU ctx rd sz nm ct sha1 info (sU\<lparr>captured := None\<rparr>) = Some (Some eU, sU1) \<and>
      beRoot_reauth env (url_ri bU) (Some eU) sU1 = (False, sU2) \<and>
      beRoot_transient env (url_ri bU) (Some eU) sU2 = (False, sU3) \<longrightarrow>
        beURL_uploadFile env bU ctx rd sz nm ct sha1 info sU = Some ((None, Some eU), sU3) \<and>
        trace sU3 = trace sU @ [Raw UploadFile]) \<and>
     (deleteFileVersion_g env bF ctx sF = Some (Some eF, sF1) \<and>
      beRoot_reauth env (file_ri bF) (Some eF) sF1 = (False, sF2) \<and>
      beRoot_transient env (file_ri bF) (Some eF) sF2 = (False, sF3) \<longrightarrow>
        beFile_deleteFileVersion env bF ctx sF = Some (Some eF, sF3) \<and>
        trace sF3 = trace sF @ [Raw DeleteFileVersion])"
proof (intro conjI impI)
  assume H: "authorizeAccount_f env rA ctx acct k sA = Some ((False, Some eA), sA1) \<and>
      beRoot_transient env rA (Some eA) sA1 = (False, sA3)"
  then show "beRoot_authorizeAccount env rA ctx acct k sA = Some (Some eA, sA3)"
    by (simp add: beRoot_authorizeAccount_def withBackoff_def
        withBackoff_loop.simps[of _ _ _ _ _ sA])
  show "trace sA3 = trace sA @ [Raw AuthorizeAccount]"
    using H g_trace(7)[of env rA ctx acct k sA _ sA1] hook_frame(2)[of env rA "Some eA" sA1 False sA3]
    by simp
next
  assume H: "createBucket_g env rC ctx name btype (sC\<lparr>captured := None\<rparr>) = Some (Some eC, sC1) \<and>
      beRoot_reauth env rC (Some eC) sC1 = (False, sC2) \<and>
      beRoot_transient env rC (Some eC) sC2 = (False, sC3)"
  then have "withBackoff (runtime_of env) ctx (beRoot_iface env rC)
      (spec_attempt ctx (beRoot_iface env rC) (createBucket_g env rC ctx name btype))
      (sC\<lparr>captured := None\<rparr>) = Some (Some eC, sC3)"
    by (intro resilient_permanent[where ?s1.0 = sC1 and ?s2.0 = sC2]) simp_all
  then show "beRoot_createBucket env rC ctx name btype sC = Some ((None, Some eC), sC3)"
    by (simp add: beRoot_createBucket_def createBucket_f_eq)
  show "trace sC3 = trace sC @ [Raw CreateBucket]"
    using H g_trace(1)[of env rC ctx name btype "sC\<lparr>captured := None\<rparr>" _ sC1]
      permanent_trace[of sC1 "sC\<lparr>captured := None\<rparr>" CreateBucket env rC "Some eC" False sC2 False sC3]
    by simp
next
  assume H: "listBuckets_g env rL ctx (sL\<lparr>captured := []\<rparr>) = Some (Some eL, sL1) \<and>
      beRoot_reauth env rL (Some eL) sL1 = (False, sL2) \<and>
      beRoot_transient env rL (Some eL) sL2 = (False, sL3)"
  then have "withBackoff (runtime_of env) ctx (beRoot_iface env rL)
      (spec_attempt ctx (beRoot_iface env rL) (listBuckets_g env rL ctx))
      (sL\<lparr>captured := []\<rparr>) = Some (Some eL, sL3)"
    by (intro resilient_permanent[where ?s1.0 = sL1 and ?s2.0 = sL2]) simp_all
  then show "beRoot_listBuckets env rL ctx sL = Some (([], Some eL), sL3)"
    by (simp add: beRoot_listBuckets_def listBuckets_f_eq)
  show "trace sL3 = trace sL @ [Raw ListBuckets]"
    using H g_trace(2)[of env rL ctx "sL\<lparr>captured := []\<rparr>" _ sL1]
      permanent_trace[of sL1 "sL\<lparr>captured := []\<rparr>" ListBuckets env rL "Some eL" False sL2 False sL3]
    by simp
next
  assume H: "deleteBucket_g env bD ctx sD = Some (Some eD, sD1) \<and>
      beRoot_reauth env (bucket_ri bD) (Some eD) sD1 = (False, sD2) \<and>
      beRoot_transient env (bucket_ri bD) (Some eD) sD2 = (False, sD3)"
  then have "withBackoff (runtime_of env) ctx (beRoot_iface env (bucket_ri bD))
      (spec_attempt ctx (beRoot_iface env (bucket_ri bD)) (deleteBucket_g env bD ctx)) sD =
      Some (Some eD, sD3)"
    by (intro resilient_permanent[where ?s1.0 = sD1 and ?s2.0 = sD2]) simp_all
  then show "beBucket_deleteBucket env bD ctx sD = Some (Some eD, sD3)"
    by (simp add: beBucket_deleteBucket_def deleteBucket_f_eq)
  show "trace sD3 = trace sD @ [Raw DeleteBucket]"
    using H g_trace(3)[of env bD ctx sD _ sD1]
      permanent_trace[of sD1 sD DeleteBucket env "bucket_ri bD" "Some eD" False sD2 False sD3]
    by simp
next
  assume H: "getUploadURL_g env bG ctx (sG\<lparr>captured := None\<rparr>) = Some (Some eG, sG1) \<and>
      beRoot_reauth env (bucket_ri bG) (Some eG) sG1 = (False, sG2) \<and>
      beRoot_transient env (bucket_ri bG) (Some eG) sG2 = (False, sG3)"
  then have "withBackoff (runtime_of env) ctx (beRoot_iface env (bucket_ri bG))
      (spec_attempt ctx (beRoot_iface env (bucket_ri bG)) (getUploadURL_g env bG ctx))
      (sG\<lparr>captured := None\<rparr>) = Some (Some eG, sG3)"
    by (intro resilient_permanent[where ?s1.0 = sG1 and ?s2.0 = sG2]) simp_all
  then show "beBucket_getUploadURL env bG ctx sG = Some ((None, Some eG), sG3)"
    by (simp add: beBucket_getUploadURL_def getUploadURL_f_eq)
  show "trace sG3 = trace sG @ [Raw GetUploadURL]"
    using H g_trace(4)[of env bG ctx "sG\<lparr>captured := None\<rparr>" _ sG1]
      permanent_trace[of sG1 "sG\<lparr>captured := None\<rparr>" GetUploadURL env "bucket_ri bG" "Some eG"
        False sG2 False sG3]
    by simp
next
  assume H: "uploadFile_g env bU ctx rd sz nm ct sha1 info (sU\<lparr>captured := None\<rparr>) = Some (Some eU, sU1) \<and>
      beRoot_reauth env (url_ri bU) (Some eU) sU1 = (False, sU2) \<and>
      beRoot_transient env (url_ri bU) (Some eU) sU2 = (False, sU3)"
  then have "withBackoff (runtime_of env) ctx (beRoot_iface env (url_ri bU))
      (spec_attempt ctx (beRoot_iface env (url_ri bU)) (uploadFile_g env bU ctx rd sz nm ct sha1 info))
      (sU\<lparr>captured := None\<rparr>) = Some (Some eU, sU3)"
    by (intro resilient_permanent[where ?s1.0 = sU1 and ?s2.0 = sU2]) simp_all
  then show "beURL_uploadFile env bU ctx rd sz nm ct sha1 info sU = Some ((None, Some eU), sU3)"
    by (simp add: beURL_uploadFile_def uploadFile_f_eq)
  show "trace sU3 = trace sU @ [Raw UploadFile]"
    using H g_trace(5)[of env bU ctx rd sz nm ct sha1 info "sU\<lparr>captured := None\<rparr>" _ sU1]
      permanent_trace[of sU1 "sU\<lparr>captured := None\<rparr>" UploadFile env "url_ri bU" "Some eU"
        False sU2 False sU3]
    by simp
next
  assume H: "deleteFileVersion_g env bF ctx sF = Some (Some eF, sF1) \<and>
      beRoot_reauth env (file_ri bF) (Some eF) sF1 = (False, sF2) \<and>
      beRoot_transient env (file_ri bF) (Some eF) sF2 = (False, sF3)"
  then have "withBackoff (runtime_of env) ctx (beRoot_iface env (file_ri bF))
      (spec_attempt ctx (beRoot_iface env (file_ri bF)) (deleteFileVersion_g env bF ctx)) sF =
      Some (Some eF, sF3)"
    by (intro resilient_permanent[where ?s1.0 = sF1 and ?s2.0 = sF2]) simp_all
  then show "beFile_deleteFileVersion env bF ctx sF = Some (Some eF, sF3)"
    by (simp add: beFile_deleteFileVersion_def deleteFileVersion_f_eq)
  show "trace sF3 = trace sF @ [Raw DeleteFileVersion]"
    using H g_trace(6)[of env bF ctx sF _ sF1]
      permanent_trace[of sF1 sF DeleteFileVersion env "file_ri bF" "Some eF" False sF2 False sF3]
    by simp
qed

theorem permanent_error_returned_at_once_witness:
  "beRoot_authorizeAccount demo_env 0 (Ctx 0) ''a'' ''k'' (demo_state [3] ()) =
     Some (Some 3, (demo_state [] ())\<lparr>trace := [Raw AuthorizeAccount]\<rparr>) \<and>
   beRoot_createBucket demo_env 0 (Ctx 0) ''b'' ''allPrivate'' (demo_state [3] None) =
     Some ((None, Some 3), (demo_state [] None)\<lparr>trace := [Raw CreateBucket]\<rparr>) \<and>
   beRoot_listBuckets demo_env 0 (Ctx 0) (demo_state [3] []) =
     Some (([], Some 3), (demo_state [] [])\<lparr>trace := [Raw ListBuckets]\<rparr>) \<and>
   beBucket_deleteBucket demo_env \<lparr>b2bucket = B2Bucket 7, bucket_ri = 0\<rparr> (Ctx 0) (demo_state [3] ()) =
     Some (Some 3, (demo_state [] ())\<lparr>trace := [Raw DeleteBucket]\<rparr>) \<and>
   beBucket_getUploadURL demo_env \<lparr>b2bucket = B2Bucket 7, bucket_ri = 0\<rparr> (Ctx 0) (demo_state [3] None) =
     Some ((None, Some 3), (demo_state [] None)\<lparr>trace := [Raw GetUploadURL]\<rparr>) \<and>
   beURL_uploadFile demo_env \<lparr>b2url = B2URL 5, url_ri = 0\<rparr> (Ctx 0) (Reader 0) 3 ''n'' ''text'' ''sha''
       Map.empty (demo_state [3] None) =
     Some ((None, Some 3), (demo_state [] None)\<lparr>trace := [Raw UploadFile]\<rparr>) \<and>
   beFile_deleteFileVersion demo_env
       \<lparr>b2file = B2File 3, file_url = \<lparr>b2url = B2URL 5, url_ri = 0\<rparr>, file_ri = 0\<rparr>
       (Ctx 0) (demo_state [3] ()) =
     Some (Some 3, (demo_state [] ())\<lparr>trace := [Raw DeleteFileVersion]\<rparr>)"
proof -
  let ?bk = "\<lparr>b2bucket = B2Bucket 7, bucket_ri = 0\<rparr>"
  let ?url = "\<lparr>b2url = B2URL 5, url_ri = 0\<rparr>"
  let ?file = "\<lparr>b2file = B2File 3, file_url = ?url, file_ri = 0\<rparr>"
  let ?A = "(demo_state [] ())\<lparr>trace := [Raw AuthorizeAccount]\<rparr> :: (nat list, unit) state"
  let ?C = "(demo_state [] None)\<lparr>trace := [Raw CreateBucket]\<rparr> :: (nat list, beBucket option) state"
  let ?L = "(demo_state [] [])\<lparr>trace := [Raw ListBuckets]\<rparr> :: (nat list, beBucket list) state"
  let ?D = "(demo_state [] ())\<lparr>trace := [Raw DeleteBucket]\<rparr> :: (nat list, unit) state"
  let ?G = "(demo_state [] None)\<lparr>trace := [Raw GetUploadURL]\<rparr> :: (nat list, beURL option) state"
  let ?U = "(demo_state [] None)\<lparr>trace := [Raw UploadFile]\<rparr> :: (nat list, beFile option) state"
  let ?F = "(demo_state [] ())\<lparr>trace := [Raw DeleteFileVersion]\<rparr> :: (nat list, unit) state"
  have hA: "authorizeAccount_f demo_env 0 (Ctx 0) ''a'' ''k'' (demo_state [3] ()) = Some ((False, Some 3), ?A) \<and>
      beRoot_transient demo_env 0 (Some 3) ?A = (False, ?A)"
    by (simp add: demo_eval)
  have hC: "createBucket_g demo_env 0 (Ctx 0) ''b'' ''allPrivate'' ((demo_state [3] None)\<lparr>captured := None\<rparr>) =
        Some (Some 3, ?C) \<and>
      beRoot_reauth demo_env 0 (Some 3) ?C = (False, ?C) \<and>
      beRoot_transient demo_env 0 (Some 3) ?C = (False, ?C)"
    by (simp add: demo_eval demo_g_eval)
  have hL: "listBuckets_g demo_env 0 (Ctx 0) ((demo_state [3] [])\<lparr>captured := []\<rparr>) = Some (Some 3, ?L) \<and>
      beRoot_reauth demo_env 0 (Some 3) ?L = (False, ?L) \<and>
      beRoot_transient demo_env 0 (Some 3) ?L = (False, ?L)"
    by (simp add: demo_eval demo_g_eval)
  have hD: "deleteBucket_g demo_env ?bk (Ctx 0) (demo_state [3] ()) = Some (Some 3, ?D) \<and>
      beRoot_reauth demo_env (bucket_ri ?bk) (Some 3) ?D = (False, ?D) \<and>
      beRoot_transient demo_env (bucket_ri ?bk) (Some 3) ?D = (False, ?D)"
    by (simp add: demo_eval demo_g_eval)
  have hG: "getUploadURL_g demo_env ?bk (Ctx 0) ((demo_state [3] None)\<lparr>captured := None\<rparr>) =
        Some (Some 3, ?G) \<and>
      beRoot_reauth demo_env (bucket_ri ?bk) (Some 3) ?G = (False, ?G) \<and>
      beRoot_transient demo_env (bucket_ri ?bk) (Some 3) ?G = (False, ?G)"
    by (simp add: demo_eval demo_g_eval)
  have hU: "uploadFile_g demo_env ?url (Ctx 0) (Reader 0) 3 ''n'' ''text'' ''sha'' Map.empty
        ((demo_state [3] None)\<lparr>captured := None\<rparr>) = Some (Some 3, ?U) \<and>
      beRoot_reauth demo_env (url_ri ?url) (Some 3) ?U = (False, ?U) \<and>
      beRoot_transient demo_env (url_ri ?url) (Some 3) ?U = (False, ?U)"
    by (simp add: demo_eval demo_g_eval)
  have hF: "deleteFileVersion_g demo_env ?file (Ctx 0) (demo_state [3] ()) = Some (Some 3, ?F) \<and>
      beRoot_reauth demo_env (file_ri ?file) (Some 3) ?F = (False, ?F) \<and>
      beRoot_transient demo_env (file_ri ?file) (Some 3) ?F = (False, ?F)"
    by (simp add: demo_eval demo_g_eval)
  note inst = permanent_error_returned_at_once[where env = demo_env and ctx = "Ctx 0"]
  note cA = inst[THEN conjunct1, rule_format, OF hA]
  note cC = inst[THEN conjunct2, THEN conjunct1, rule_format, OF hC]
  note cL = inst[THEN conjunct2, THEN conjunct2, THEN conjunct1, rule_format, OF hL]
  note cD = inst[THEN conjunct2, THEN conjunct2, THEN conjunct2, THEN conjunct1, rule_format, OF hD]
  note cG = inst[THEN conjunct2, THEN conjunct2, THEN conjunct2, THEN conjunct2, THEN conjunct1,
      rule_format, OF hG]
  note cU = inst[THEN conjunct2, THEN conjunct2, THEN conjunct2, THEN conjunct2, THEN conjunct2,
      THEN conjunct1, rule_format, OF hU]
  note cF = inst[THEN conjunct2, THEN conjunct2, THEN conjunct2, THEN conjunct2, THEN conjunct2,
      THEN conjunct2, rule_format, OF hF]
  from cA cC cL cD cG cU cF show ?thesis
    by (simp add: demo_state_def)
qed

text \<open>
  C9: a handle that a creation operation returns holds the address of the session
  of the handle it was made from (\<^verbatim>\<open>createBucket\<close> and \<^verbatim>\<open>listBuckets\<close>: the
  \<^verbatim>\<open>*beRoot\<close>; \<^verbatim>\<open>getUploadURL\<close>: the \<^verbatim>\<open>ri\<close> of the bucket; \<^verbatim>\<open>uploadFile\<close>: the
  \<^verbatim>\<open>ri\<close> of the upload target, which it also holds), whatever retries, waits and
  reauthorizations came before; a handle has no credentials of its own. With an
  error the operation returns no handle.
\<close>

theorem handles_share_the_session:
  fixes sC :: "('w, beBucket option) state" and sL :: "('w, beBucket list) state"
    and sG :: "('w, beURL option) state" and sU :: "('w, beFile option) state"
  shows
    "(beRoot_createBucket env r ctx name btype sC = Some ((hC, errC), sC') \<longrightarrow>
        (\<forall>b. hC = Some b \<longrightarrow> bucket_ri b = r) \<and> (errC \<noteq> None \<longrightarrow> hC = None)) \<and>
     (beRoot_listBuckets env r ctx sL = Some ((hL, errL), sL') \<longrightarrow>
        (\<forall>b \<in> set hL. bucket_ri b = r) \<and> (errL \<noteq> None \<longrightarrow> hL = [])) \<and>
     (beBucket_getUploadURL env bk ctx sG = Some ((hG, errG), sG') \<longrightarrow>
        (\<forall>u. hG = Some u \<longrightarrow> url_ri u = bucket_ri bk) \<and> (errG \<noteq> None \<longrightarrow> hG = None)) \<and>
     (beURL_uploadFile env url ctx rd sz nm ct sha1 info sU = Some ((hU, errU), sU') \<longrightarrow>
        (\<forall>f. hU = Some f \<longrightarrow> file_ri f = url_ri url \<and> file_url f = url) \<and>
        (errU \<noteq> None \<longrightarrow> hU = None))"
proof (intro conjI impI)
  assume run: "beRoot_createBucket env r ctx name btype sC = Some ((hC, errC), sC')"
  let ?P = "\<lambda>c. \<forall>b. c = Some b \<longrightarrow> bucket_ri b = r"
  from run obtain e t where
    w: "withBackoff (runtime_of env) ctx (beRoot_iface env r)
          (spec_attempt ctx (beRoot_iface env r) (createBucket_g env r ctx name btype))
          (sC\<lparr>captured := None\<rparr>) = Some (e, t)"
    and res: "(hC, errC) = (case e of Some e' \<Rightarrow> (None, Some e') | None \<Rightarrow> (captured t, None))"
    by (auto simp: beRoot_createBucket_def createBucket_f_eq split: option.splits)
  have "?P (captured t)"
    by (rule resilient_captured[OF w, where P = ?P])
      (auto simp: createBucket_g_def raw_eq split: prod.splits option.splits)
  then show "\<forall>b. hC = Some b \<longrightarrow> bucket_ri b = r" using res by (auto split: option.splits)
  show "hC = None" if "errC \<noteq> None" using res that by (auto split: option.splits)
next
  assume run: "beRoot_listBuckets env r ctx sL = Some ((hL, errL), sL')"
  let ?P = "\<lambda>c. \<forall>b \<in> set c. bucket_ri b = r"
  from run obtain e t where
    w: "withBackoff (runtime_of env) ctx (beRoot_iface env r)
          (spec_attempt ctx (beRoot_iface env r) (listBuckets_g env r ctx))
          (sL\<lparr>captured := []\<rparr>) = Some (e, t)"
    and res: "(hL, errL) = (case e of Some e' \<Rightarrow> ([], Some e') | None \<Rightarrow> (captured t, None))"
    by (auto simp: beRoot_listBuckets_def listBuckets_f_eq split: option.splits)
  have "?P (captured t)"
    by (rule resilient_captured[OF w, where P = ?P])
      (auto simp: listBuckets_g_def raw_eq split: prod.splits option.splits)
  then show "\<forall>b \<in> set hL. bucket_ri b = r" using res by (auto split: option.splits)
  show "hL = []" if "errL \<noteq> None" using res that by (auto split: option.splits)
next
  assume run: "beBucket_getUploadURL env bk ctx sG = Some ((hG, errG), sG')"
  let ?P = "\<lambda>c. \<forall>u. c = Some u \<longrightarrow> url_ri u = bucket_ri bk"
  from run obtain e t where
    w: "withBackoff (runtime_of env) ctx (beRoot_iface env (bucket_ri bk))
          (spec_attempt ctx (beRoot_iface env (bucket_ri bk)) (getUploadURL_g env bk ctx))
          (sG\<lparr>captured := None\<rparr>) = Some (e, t)"
    and res: "(hG, errG) = (case e of Some e' \<Rightarrow> (None, Some e') | None \<Rightarrow> (captured t, None))"
    by (auto simp: beBucket_getUploadURL_def getUploadURL_f_eq split: option.splits)
  have "?P (captured t)"
    by (rule resilient_captured[OF w, where P = ?P])
      (auto simp: getUploadURL_g_def raw_eq split: prod.splits option.splits)
  then show "\<forall>u. hG = Some u \<longrightarrow> url_ri u = bucket_ri bk" using res by (auto split: option.splits)
  show "hG = None" if "errG \<noteq> None" using res that by (auto split: option.splits)
next
  assume run: "beURL_uploadFile env url ctx rd sz nm ct sha1 info sU = Some ((hU, errU), sU')"
  let ?P = "\<lambda>c. \<forall>f. c = Some f \<longrightarrow> file_ri f = url_ri url \<and> file_url f = url"
  from run obtain e t where
    w: "withBackoff (runtime_of env) ctx (beRoot_iface env (url_ri url))
          (spec_attempt ctx (beRoot_iface env (url_ri url))
             (uploadFile_g env url ctx rd sz nm ct sha1 info))
          (sU\<lparr>captured := None\<rparr>) = Some (e, t)"
    and res: "(hU, errU) = (case e of Some e' \<Rightarrow> (None, Some e') | None \<Rightarrow> (captured t, None))"
    by (auto simp: beURL_uploadFile_def uploadFile_f_eq split: option.splits)
  have "?P (captured t)"
    by (rule resilient_captured[OF w, where P = ?P])
      (auto simp: uploadFile_g_def raw_eq split: prod.splits option.splits)
  then show "\<forall>f. hU = Some f \<longrightarrow> file_ri f = url_ri url \<and> file_url f = url"
    using res by (auto split: option.splits)
  show "hU = None" if "errU \<noteq> None" using res that by (auto split: option.splits)
qed

theorem handles_share_the_session_witness:
  "beRoot_createBucket demo_env 0 (Ctx 0) ''b'' ''allPrivate'' (demo_state [1, 1, 0] None) =
     Some ((Some \<lparr>b2bucket = B2Bucket 7, bucket_ri = 0\<rparr>, None),
       (demo_state [] (Some \<lparr>b2bucket = B2Bucket 7, bucket_ri = 0\<rparr>))\<lparr>trace :=
          [Raw CreateBucket, Wait Second, Raw CreateBucket, Wait Second, Raw CreateBucket]\<rparr>) \<and>
   beRoot_listBuckets demo_env 0 (Ctx 0) (demo_state [] []) =
     Some (([\<lparr>b2bucket = B2Bucket 7, bucket_ri = 0\<rparr>, \<lparr>b2bucket = B2Bucket 8, bucket_ri = 0\<rparr>], None),
       (demo_state [] [\<lparr>b2bucket = B2Bucket 7, bucket_ri = 0\<rparr>, \<lparr>b2bucket = B2Bucket 8, bucket_ri = 0\<rparr>])
         \<lparr>trace := [Raw ListBuckets]\<rparr>) \<and>
   beBucket_getUploadURL demo_env \<lparr>b2bucket = B2Bucket 7, bucket_ri = 0\<rparr> (Ctx 0) (demo_state [] None) =
     Some ((Some \<lparr>b2url = B2URL 5, url_ri = 0\<rparr>, None),
       (demo_state [] (Some \<lparr>b2url = B2URL 5, url_ri = 0\<rparr>))\<lparr>trace := [Raw GetUploadURL]\<rparr>) \<and>
   beURL_uploadFile demo_env \<lparr>b2url = B2URL 5, url_ri = 0\<rparr> (Ctx 0) (Reader 0) 3 ''n'' ''text'' ''sha''
       Map.empty (demo_state [2, 0, 0] None) =
     Some ((Some \<lparr>b2file = B2File 3, file_url = \<lparr>b2url = B2URL 5, url_ri = 0\<rparr>, file_ri = 0\<rparr>, None),
       (demo_state [] (Some \<lparr>b2file = B2File 3, file_url = \<lparr>b2url = B2URL 5, url_ri = 0\<rparr>, file_ri = 0\<rparr>))
         \<lparr>trace := [Raw UploadFile, Reauthorize, Raw AuthorizeAccount, Raw UploadFile]\<rparr>) \<and>
   beRoot_createBucket demo_env 0 (Ctx 0) ''b'' ''allPrivate'' (demo_state [3] None) =
     Some ((None, Some 3), (demo_state [] None)\<lparr>trace := [Raw CreateBucket]\<rparr>) \<and>
   bucket_ri \<lparr>b2bucket = B2Bucket 7, bucket_ri = 0\<rparr> = 0 \<and>
   url_ri \<lparr>b2url = B2URL 5, url_ri = 0\<rparr> = bucket_ri \<lparr>b2bucket = B2Bucket 7, bucket_ri = 0\<rparr> \<and>
   file_ri \<lparr>b2file = B2File 3, file_url = \<lparr>b2url = B2URL 5, url_ri = 0\<rparr>, file_ri = 0\<rparr> =
     url_ri \<lparr>b2url = B2URL 5, url_ri = 0\<rparr>"
proof -
  let ?bk = "\<lparr>b2bucket = B2Bucket 7, bucket_ri = 0\<rparr>"
  let ?bk' = "\<lparr>b2bucket = B2Bucket 8, bucket_ri = 0\<rparr>"
  let ?url = "\<lparr>b2url = B2URL 5, url_ri = 0\<rparr>"
  let ?file = "\<lparr>b2file = B2File 3, file_url = ?url, file_ri = 0\<rparr>"
  have rC: "beRoot_createBucket demo_env 0 (Ctx 0) ''b'' ''allPrivate'' (demo_state [1, 1, 0] None) =
     Some ((Some ?bk, None), (demo_state [] (Some ?bk))\<lparr>trace :=
          [Raw CreateBucket, Wait Second, Raw CreateBucket, Wait Second, Raw CreateBucket]\<rparr>)"
    by (simp add: demo_eval demo_g_eval demo_op_eval)
  have rL: "beRoot_listBuckets demo_env 0 (Ctx 0) (demo_state [] []) =
     Some (([?bk, ?bk'], None), (demo_state [] [?bk, ?bk'])\<lparr>trace := [Raw ListBuckets]\<rparr>)"
    by (simp add: demo_eval demo_g_eval demo_op_eval)
  have rG: "beBucket_getUploadURL demo_env ?bk (Ctx 0) (demo_state [] None) =
     Some ((Some ?url, None), (demo_state [] (Some ?url))\<lparr>trace := [Raw GetUploadURL]\<rparr>)"
    by (simp add: demo_eval demo_g_eval demo_op_eval)
  have rU: "beURL_uploadFile demo_env ?url (Ctx 0) (Reader 0) 3 ''n'' ''text'' ''sha''
       Map.empty (demo_state [2, 0, 0] None) =
     Some ((Some ?file, None), (demo_state [] (Some ?file))
         \<lparr>trace := [Raw UploadFile, Reauthorize, Raw AuthorizeAccount, Raw UploadFile]\<rparr>)"
    by (simp add: demo_eval demo_g_eval demo_op_eval)
  have rC': "beRoot_createBucket demo_env 0 (Ctx 0) ''b'' ''allPrivate'' (demo_state [3] None) =
     Some ((None, Some 3), (demo_state [] None)\<lparr>trace := [Raw CreateBucket]\<rparr>)"
    by (simp add: demo_eval demo_g_eval demo_op_eval)
  note inst = handles_share_the_session[where env = demo_env and ctx = "Ctx 0"]
  note cC = inst[THEN conjunct1, rule_format, OF rC]
  note cL = inst[THEN conjunct2, THEN conjunct1, rule_format, OF rL]
  note cG = inst[THEN conjunct2, THEN conjunct2, THEN conjunct1, rule_format, OF rG]
  note cU = inst[THEN conjunct2, THEN conjunct2, THEN conjunct2, rule_format, OF rU]
  note cC' = inst[THEN conjunct1, rule_format, OF rC']
  from rC rL rG rU rC' cC cL cG cU cC' show ?thesis
    by simp
qed

text \<open>
  C1, as stated, fails: \<^verbatim>\<open>authorizeAccount\<close> is not the composition. On a raw error
  that asks for reauthentication and is not transient the code returns that error
  after one raw call, where the composition reauthorizes.
\<close>

theorem authorizeAccount_is_not_the_composition:
  "beRoot_authorizeAccount demo_env 0 (Ctx 0) ''acct'' ''key'' (demo_state [2, 3] ()) =
     Some (Some 2, (demo_state [3] ())\<lparr>trace := [Raw AuthorizeAccount]\<rparr>) \<and>
   spec_authorizeAccount demo_env 0 (Ctx 0) ''acct'' ''key'' (demo_state [2, 3] ()) =
     Some (Some 3, (demo_state [] ())\<lparr>trace :=
       [Raw AuthorizeAccount, Reauthorize, Raw AuthorizeAccount]\<rparr>) \<and>
   beRoot_authorizeAccount demo_env 0 (Ctx 0) ''acct'' ''key'' (demo_state [2, 3] ()) \<noteq>
   spec_authorizeAccount demo_env 0 (Ctx 0) ''acct'' ''key'' (demo_state [2, 3] ())"
  by (simp add: demo_eval spec_authorizeAccount_def spec_resilient_def spec_attempt_def
      spec_authorize_rawCall_def withReauth_def)

text \<open>
  C1, amended: \<^verbatim>\<open>createBucket\<close>, \<^verbatim>\<open>listBuckets\<close>, \<^verbatim>\<open>deleteBucket\<close>,
  \<^verbatim>\<open>getUploadURL\<close>, \<^verbatim>\<open>uploadFile\<close> and \<^verbatim>\<open>deleteFileVersion\<close> are the composition
  \<^verbatim>\<open>RetryExecutor(ctx, session, attempt)\<close> with \<^verbatim>\<open>attempt\<close> around
  \<^verbatim>\<open>ReauthExecutor(session, rawCall)\<close>; \<^verbatim>\<open>authorizeAccount\<close> is the retry executor
  around the raw call with no reauthentication executor, and \<^verbatim>\<open>name\<close> is the raw
  call alone. In the composition a first raw error that asks for reauthentication
  is followed by one reauthorization and, when that succeeds, one more raw call
  within the same attempt, and the attempt is final exactly when the wrapped call
  returned no error.
\<close>

theorem operations_are_compositions:
  fixes sC :: "('w, beBucket option) state" and sL :: "('w, beBucket list) state"
    and sG :: "('w, beURL option) state" and sU :: "('w, beFile option) state"
    and sD :: "('w, 'd) state" and sF :: "('w, 'f) state" and sA :: "('w, 'a) state"
    and sN :: "('w, 'n) state" and s :: 's and session :: "('s, 'x, 'c) beRootInterface"
  shows
    "beRoot_createBucket env r ctx name btype sC =
       (case spec_resilient (runtime_of env) ctx (beRoot_iface env r)
               (createBucket_g env r ctx name btype) (sC\<lparr>captured := None\<rparr>) of
          None \<Rightarrow> None
        | Some (Some e, s1) \<Rightarrow> Some ((None, Some e), s1)
        | Some (None, s1) \<Rightarrow> Some ((captured s1, None), s1)) \<and>
     beRoot_listBuckets env r ctx sL =
       (case spec_resilient (runtime_of env) ctx (beRoot_iface env r)
               (listBuckets_g env r ctx) (sL\<lparr>captured := []\<rparr>) of
          None \<Rightarrow> None
        | Some (Some e, s1) \<Rightarrow> Some (([], Some e), s1)
        | Some (None, s1) \<Rightarrow> Some ((captured s1, None), s1)) \<and>
     beBucket_deleteBucket env bk ctx sD =
       spec_resilient (runtime_of env) ctx (beRoot_iface env (bucket_ri bk))
         (deleteBucket_g env bk ctx) sD \<and>
     beBucket_getUploadURL env bk ctx sG =
       (case spec_resilient (runtime_of env) ctx (beRoot_iface env (bucket_ri bk))
               (getUploadURL_g env bk ctx) (sG\<lparr>captured := None\<rparr>) of
          None \<Rightarrow> None
        | Some (Some e, s1) \<Rightarrow> Some ((None, Some e), s1)
        | Some (None, s1) \<Rightarrow> Some ((captured s1, None), s1)) \<and>
     beURL_uploadFile env url ctx rd sz nm ct sha1 info sU =
       (case spec_resilient (runtime_of env) ctx (beRoot_iface env (url_ri url))
               (uploadFile_g env url ctx rd sz nm ct sha1 info) (sU\<lparr>captured := None\<rparr>) of
          None \<Rightarrow> None
        | Some (Some e, s1) \<Rightarrow> Some ((None, Some e), s1)
        | Some (None, s1) \<Rightarrow> Some ((captured s1, None), s1)) \<and>
     beFile_deleteFileVersion env fl ctx sF =
       spec_resilient (runtime_of env) ctx (beRoot_iface env (file_ri fl))
         (deleteFileVersion_g env fl ctx) sF \<and>
     beRoot_authorizeAccount env r ctx acct k sA =
       withBackoff (runtime_of env) ctx (beRoot_classifier env r)
         (\<lambda>s. case spec_authorize_rawCall env r ctx acct k s of
                 None \<Rightarrow> None
               | Some (err, s') \<Rightarrow> Some ((err = None, err), s')) sA \<and>
     beBucket_name env bk sN = raw Name (b2_name env (b2bucket bk)) sN \<and>
     (rawCall s = Some (Some e, s1) \<and> ri_reauth session (Some e) s1 = (True, s2) \<and>
      ri_reauthorizeAccount session c s2 = Some (None, s3) \<longrightarrow>
        spec_attempt c session rawCall s =
          (case rawCall s3 of None \<Rightarrow> None | Some (err, s4) \<Rightarrow> Some ((err = None, err), s4))) \<and>
     (spec_attempt c session rawCall s = Some ((final, err), s') \<longrightarrow> (final \<longleftrightarrow> err = None))"
proof (intro conjI impI)
  show "beRoot_createBucket env r ctx name btype sC =
       (case spec_resilient (runtime_of env) ctx (beRoot_iface env r)
               (createBucket_g env r ctx name btype) (sC\<lparr>captured := None\<rparr>) of
          None \<Rightarrow> None
        | Some (Some e, s1) \<Rightarrow> Some ((None, Some e), s1)
        | Some (None, s1) \<Rightarrow> Some ((captured s1, None), s1))"
    by (simp add: beRoot_createBucket_def createBucket_f_eq spec_resilient_def)
  show "beRoot_listBuckets env r ctx sL =
       (case spec_resilient (runtime_of env) ctx (beRoot_iface env r)
               (listBuckets_g env r ctx) (sL\<lparr>captured := []\<rparr>) of
          None \<Rightarrow> None
        | Some (Some e, s1) \<Rightarrow> Some (([], Some e), s1)
        | Some (None, s1) \<Rightarrow> Some ((captured s1, None), s1))"
    by (simp add: beRoot_listBuckets_def listBuckets_f_eq spec_resilient_def)
  show "beBucket_deleteBucket env bk ctx sD =
       spec_resilient (runtime_of env) ctx (beRoot_iface env (bucket_ri bk))
         (deleteBucket_g env bk ctx) sD"
    by (simp add: beBucket_deleteBucket_def deleteBucket_f_eq spec_resilient_def)
  show "beBucket_getUploadURL env bk ctx sG =
       (case spec_resilient (runtime_of env) ctx (beRoot_iface env (bucket_ri bk))
               (getUploadURL_g env bk ctx) (sG\<lparr>captured := None\<rparr>) of
          None \<Rightarrow> None
        | Some (Some e, s1) \<Rightarrow> Some ((None, Some e), s1)
        | Some (None, s1) \<Rightarrow> Some ((captured s1, None), s1))"
    by (simp add: beBucket_getUploadURL_def getUploadURL_f_eq spec_resilient_def)
  show "beURL_uploadFile env url ctx rd sz nm ct sha1 info sU =
       (case spec_resilient (runtime_of env) ctx (beRoot_iface env (url_ri url))
               (uploadFile_g env url ctx rd sz nm ct sha1 info) (sU\<lparr>captured := None\<rparr>) of
          None \<Rightarrow> None
        | Some (Some e, s1) \<Rightarrow> Some ((None, Some e), s1)
        | Some (None, s1) \<Rightarrow> Some ((captured s1, None), s1))"
    by (simp add: beURL_uploadFile_def uploadFile_f_eq spec_resilient_def)
  show "beFile_deleteFileVersion env fl ctx sF =
       spec_resilient (runtime_of env) ctx (beRoot_iface env (file_ri fl))
         (deleteFileVersion_g env fl ctx) sF"
    by (simp add: beFile_deleteFileVersion_def deleteFileVersion_f_eq spec_resilient_def)
  show "beRoot_authorizeAccount env r ctx acct k sA =
       withBackoff (runtime_of env) ctx (beRoot_classifier env r)
         (\<lambda>s. case spec_authorize_rawCall env r ctx acct k s of
                 None \<Rightarrow> None
               | Some (err, s') \<Rightarrow> Some ((err = None, err), s')) sA"
    by (simp add: beRoot_authorizeAccount_def authorizeAccount_f_eq)
  show "beBucket_name env bk sN = raw Name (b2_name env (b2bucket bk)) sN"
    by (simp add: beBucket_name_def)
  show "spec_attempt c session rawCall s =
          (case rawCall s3 of None \<Rightarrow> None | Some (err, s4) \<Rightarrow> Some ((err = None, err), s4))"
    if "rawCall s = Some (Some e, s1) \<and> ri_reauth session (Some e) s1 = (True, s2) \<and>
      ri_reauthorizeAccount session c s2 = Some (None, s3)"
    using that by (simp add: spec_attempt_def withReauth_def split: option.splits)
  show "final \<longleftrightarrow> err = None" if "spec_attempt c session rawCall s = Some ((final, err), s')"
    using that by (auto simp: spec_attempt_def split: option.splits)
qed

theorem operations_are_compositions_witness:
  "spec_attempt (Ctx 0) (beRoot_iface demo_env 0)
     (deleteBucket_g demo_env \<lparr>b2bucket = B2Bucket 7, bucket_ri = 0\<rparr> (Ctx 0)) (demo_state [2, 0, 0] ()) =
   Some ((True, None), (demo_state [] ())\<lparr>trace :=
     [Raw DeleteBucket, Reauthorize, Raw AuthorizeAccount, Raw DeleteBucket]\<rparr>)"
proof -
  let ?bk = "\<lparr>b2bucket = B2Bucket 7, bucket_ri = 0\<rparr>"
  let ?s = "demo_state [2, 0, 0] () :: (nat list, unit) state"
  let ?s1 = "(demo_state [0, 0] ())\<lparr>trace := [Raw DeleteBucket]\<rparr> :: (nat list, unit) state"
  let ?s3 = "(demo_state [0] ())\<lparr>trace := [Raw DeleteBucket, Reauthorize, Raw AuthorizeAccount]\<rparr>
    :: (nat list, unit) state"
  let ?s4 = "(demo_state [] ())\<lparr>trace :=
     [Raw DeleteBucket, Reauthorize, Raw AuthorizeAccount, Raw DeleteBucket]\<rparr> :: (nat list, unit) state"
  have h: "deleteBucket_g demo_env ?bk (Ctx 0) ?s = Some (Some 2, ?s1) \<and>
      ri_reauth (beRoot_iface demo_env 0) (Some 2) ?s1 = (True, ?s1) \<and>
      ri_reauthorizeAccount (beRoot_iface demo_env 0) (Ctx 0) ?s1 = Some (None, ?s3)"
    by (simp add: demo_eval demo_g_eval)
  have g2: "deleteBucket_g demo_env ?bk (Ctx 0) ?s3 = Some (None, ?s4)"
    by (simp add: demo_eval demo_g_eval)
  note inst = operations_are_compositions[where session = "beRoot_iface demo_env 0" and c = "Ctx 0"
      and rawCall = "deleteBucket_g demo_env ?bk (Ctx 0)" and s = ?s]
  note a = inst[THEN conjunct2, THEN conjunct2, THEN conjunct2, THEN conjunct2, THEN conjunct2,
      THEN conjunct2, THEN conjunct2, THEN conjunct2, THEN conjunct1, rule_format, OF h]
  have run: "spec_attempt (Ctx 0) (beRoot_iface demo_env 0) (deleteBucket_g demo_env ?bk (Ctx 0)) ?s =
      Some ((True, None), ?s4)"
    using a g2 by simp
  note b = inst[THEN conjunct2, THEN conjunct2, THEN conjunct2, THEN conjunct2, THEN conjunct2,
      THEN conjunct2, THEN conjunct2, THEN conjunct2, THEN conjunct2, rule_format, OF run]
  from run b show ?thesis by simp
qed

section \<open>Cancellation during a wait\<close>


















lemma racy_simps [simp]:
  "b2_backoff racy_env rr e w = ((if e = Some 9 then 0 else Second, True), w)"
  "b2_reauth racy_env rr e w = (e = Some 2 \<or> e = Some 4, w)"
  "b2_transient racy_env rr e w = (e = Some 1 \<or> e = Some 4 \<or> e = Some 9, w)"
  "b2_authorizeAccount racy_env rr c a ky (scr, kc) = (fst (pop scr), (snd (pop scr), kc))"
  "b2_createBucket racy_env rr c n t (scr, kc) = ((B2Bucket 7, fst (pop scr)), (snd (pop scr), kc))"
  "b2_listBuckets racy_env rr c (scr, kc) =
     (([B2Bucket 7, B2Bucket 8], fst (pop scr)), (snd (pop scr), kc))"
  "b2_deleteBucket racy_env bk c (scr, kc) = (fst (pop scr), (snd (pop scr), kc))"
  "b2_getUploadURL racy_env bk c (scr, kc) = ((B2URL 5, fst (pop scr)), (snd (pop scr), kc))"
  "b2_uploadFile racy_env ur c rd sz nm ct sh info (scr, kc) =
     ((B2File 3, fst (pop scr)), (snd (pop scr), kc))"
  "b2_deleteFileVersion racy_env fl c (scr, kc) = (fst (pop scr), (snd (pop scr), kc))"
  "ctx_Done_first racy_env c d (scr, k, cl) =
     (if 0 < sint d
      then (if cl \<or> k = 0 then (True, (scr, 0, True)) else (False, (scr, k - 1, False)))
      else (False, (scr, k, cl)))"
  "ctx_Err racy_env c (scr, k, cl) = (if cl then Some 9 else None, (scr, k, cl))"
  "rand_Float64 racy_env w = (1 / 2, w)"
  by (simp_all add: racy_env_def split: prod.splits)

lemma racy_cancelled [simp]: "cancelled racy_env c (scr, k, cl) \<longleftrightarrow> cl"
  by (simp add: cancelled_def)


lemma sint_Second [simp]: "sint Second = 1000000000" "sint (0 :: duration) = 0"
  by (simp_all add: Second_def)








section \<open>Retries of transient failures\<close>

lemma retry_step:
  fixes u u1 u2 u3 :: "('w, 'l) state" and ri :: "(('w, 'l) state, 'e, 'z) classifier_scheme"
  assumes f: "f u = Some ((False, e), u1)"
    and tr: "ri_transient ri e u1 = (True, u2)"
    and bk: "ri_backoff ri e u2 = ((bo, False), u3)"
    and b': "b' = fst (getBackoff (rt_Float64 (runtime_of env)) b u3)"
    and alive: "\<not> fst (ctx_Done_first env ctx b' (snd (rand_Float64 env (world u3))))"
  shows "withBackoff_loop (runtime_of env) ctx ri f b u =
      withBackoff_loop (runtime_of env) ctx ri f b'
        (u3\<lparr>world := snd (ctx_Done_first env ctx b' (snd (rand_Float64 env (world u3)))),
            trace := trace u3 @ [Wait b']\<rparr>)"
proof -
  let ?w4 = "snd (rand_Float64 env (world u3))"
  have "snd (getBackoff (rt_Float64 (runtime_of env)) b u3) = u3\<lparr>world := ?w4\<rparr>"
    unfolding getBackoff_snd by (simp add: rt_Float64_eq)
  then have gb: "getBackoff (rt_Float64 (runtime_of env)) b u3 = (b', u3\<lparr>world := ?w4\<rparr>)"
    by (simp add: prod_eq_iff b')
  have sel: "rt_select_Done (runtime_of env) ctx b' (u3\<lparr>world := ?w4\<rparr>) =
      (False, u3\<lparr>world := snd (ctx_Done_first env ctx b' ?w4), trace := trace u3 @ [Wait b']\<rparr>)"
    using alive by (simp add: select_eq)
  show ?thesis
    by (subst withBackoff_loop.simps) (simp add: f tr bk gb sel)
qed

lemma transient_run:
  fixes s :: "('w, 'l) state" and ri :: "(('w, 'l) state, 'e, 'z) classifier_scheme"
    and left :: "'w \<Rightarrow> nat"
  assumes succeeds: "\<And>u. left (world u) = 0 \<Longrightarrow>
                  \<exists>u1. f u = Some ((True, None), u1) \<and> trace u1 = trace u @ [Raw X]"
    and fails: "\<And>u. 0 < left (world u) \<Longrightarrow>
                  \<exists>e u1. f u = Some ((False, e), u1) \<and> trace u1 = trace u @ [Raw X] \<and>
                    left (world u1) = left (world u) - 1"
    and transient: "\<And>e u. \<exists>u'. ri_transient ri e u = (True, u') \<and> trace u' = trace u \<and>
                  left (world u') = left (world u)"
    and override: "\<And>e u. \<exists>bo u'. ri_backoff ri e u = ((bo, False), u') \<and> trace u' = trace u \<and>
                  left (world u') = left (world u)"
    and draws: "\<And>w. left (snd (rand_Float64 env w)) = left w"
    and alive: "\<And>d w. \<not> fst (ctx_Done_first env ctx d w) \<and>
                  left (snd (ctx_Done_first env ctx d w)) = left w"
  shows "left (world s) = n \<Longrightarrow>
    \<exists>s' ws. withBackoff_loop (runtime_of env) ctx ri f b s = Some (None, s') \<and>
      trace s' = trace s @ concat (map (\<lambda>d. [Raw X, Wait d]) ws) @ [Raw X] \<and> length ws = n \<and>
      (\<forall>k < n. \<exists>t :: ('w, 'l) state. ws ! k = fst (getBackoff (rt_Float64 (runtime_of env)) ((b # ws) ! k) t))"
proof (induction n arbitrary: b s)
  case 0
  obtain s1 where f: "f s = Some ((True, None), s1)" and w: "trace s1 = trace s @ [Raw X]"
  proof -
    from succeeds[OF 0] show ?thesis by (elim exE conjE) (rule that)
  qed
  have run: "withBackoff_loop (runtime_of env) ctx ri f b s = Some (None, s1)"
    by (subst withBackoff_loop.simps) (simp add: f)
  have "withBackoff_loop (runtime_of env) ctx ri f b s = Some (None, s1) \<and>
      trace s1 = trace s @ concat (map (\<lambda>d. [Raw X, Wait d]) []) @ [Raw X] \<and>
      length ([] :: duration list) = 0 \<and>
      (\<forall>k < 0. \<exists>t :: ('w, 'l) state. [] ! k = fst (getBackoff (rt_Float64 (runtime_of env)) ((b # []) ! k) t))"
    using run w by simp
  then show ?case by (intro exI)
next
  case (Suc n)
  have pos: "0 < left (world s)" using Suc.prems by simp
  obtain e s1 where f: "f s = Some ((False, e), s1)"
    and w: "trace s1 = trace s @ [Raw X]" "left (world s1) = left (world s) - 1"
  proof -
    from fails[OF pos] show ?thesis by (elim exE conjE) (rule that)
  qed
  have l1: "left (world s1) = n" using w(2) Suc.prems by simp
  obtain s2 where tr: "ri_transient ri e s1 = (True, s2)"
    and t2: "trace s2 = trace s1" and l2': "left (world s2) = left (world s1)"
  proof -
    from transient[of e s1] show ?thesis by (elim exE conjE) (rule that)
  qed
  obtain bo s3 where bk: "ri_backoff ri e s2 = ((bo, False), s3)"
    and t3: "trace s3 = trace s2" and l3': "left (world s3) = left (world s2)"
  proof -
    from override[of e s2] show ?thesis by (elim exE conjE) (rule that)
  qed
  have l3: "left (world s3) = n" using l1 l2' l3' by simp
  define b' where "b' = fst (getBackoff (rt_Float64 (runtime_of env)) b s3)"
  define w5 where "w5 = snd (ctx_Done_first env ctx b' (snd (rand_Float64 env (world s3))))"
  define s5 where "s5 = s3\<lparr>world := w5, trace := trace s3 @ [Wait b']\<rparr>"
  have t5: "trace s5 = trace s @ [Raw X, Wait b']" using t3 t2 w(1) by (simp add: s5_def)
  note al = alive[of b' "snd (rand_Float64 env (world s3))"]
  have "left w5 = left (snd (rand_Float64 env (world s3)))"
    unfolding w5_def by (rule al[THEN conjunct2])
  then have l5: "left (world s5) = n"
    using draws[of "world s3"] l3 by (simp add: s5_def)
  have unfold: "withBackoff_loop (runtime_of env) ctx ri f b s =
      withBackoff_loop (runtime_of env) ctx ri f b' s5"
    unfolding s5_def w5_def
    by (rule retry_step[where f = f and u = s and e = e and ?u1.0 = s1 and ?u2.0 = s2
          and bo = bo and ?u3.0 = s3 and b = b and b' = b' and env = env and ctx = ctx and ri = ri,
          OF f tr bk b'_def al[THEN conjunct1]])
  obtain s' ws where
    run: "withBackoff_loop (runtime_of env) ctx ri f b' s5 = Some (None, s')"
    and tr': "trace s' = trace s5 @ concat (map (\<lambda>d. [Raw X, Wait d]) ws) @ [Raw X]"
    and len: "length ws = n"
    and ch: "\<forall>k < n. \<exists>t :: ('w, 'l) state. ws ! k = fst (getBackoff (rt_Float64 (runtime_of env)) ((b' # ws) ! k) t)"
  proof -
    from Suc.IH[OF l5, of b'] show ?thesis by (elim exE conjE) (rule that)
  qed
  have chain: "\<exists>t :: ('w, 'l) state. (b' # ws) ! k = fst (getBackoff (rt_Float64 (runtime_of env)) ((b # b' # ws) ! k) t)"
    if "k < Suc n" for k
  proof (cases k)
    case 0
    have "b' = fst (getBackoff (rt_Float64 (runtime_of env)) b s3)" by (rule b'_def)
    then show ?thesis unfolding 0 nth_Cons_0 by (rule exI)
  next
    case (Suc j)
    then have "j < n" using that by simp
    from ch[rule_format, OF this] show ?thesis unfolding Suc nth_Cons_Suc .
  qed
  have r1: "withBackoff_loop (runtime_of env) ctx ri f b s = Some (None, s')"
    using unfold run by (simp only:)
  have r2: "trace s' = trace s @ concat (map (\<lambda>d. [Raw X, Wait d]) (b' # ws)) @ [Raw X]"
    using tr' t5 by simp
  have r3: "length (b' # ws) = Suc n" using len by simp
  have r4: "\<forall>k < Suc n. \<exists>t :: ('w, 'l) state. (b' # ws) ! k =
      fst (getBackoff (rt_Float64 (runtime_of env)) ((b # b' # ws) ! k) t)"
    by (intro allI impI chain)
  have "withBackoff_loop (runtime_of env) ctx ri f b s = Some (None, s') \<and>
      trace s' = trace s @ concat (map (\<lambda>d. [Raw X, Wait d]) (b' # ws)) @ [Raw X] \<and>
      length (b' # ws) = Suc n \<and>
      (\<forall>k < Suc n. \<exists>t :: ('w, 'l) state. (b' # ws) ! k =
         fst (getBackoff (rt_Float64 (runtime_of env)) ((b # b' # ws) ! k) t))"
    using r1 r2 r3 r4 by (intro conjI)
  then show ?case by (intro exI)
qed

lemma getBackoff_step_ok:
  assumes rnd: "rnd s = (x, s')" and x: "0 \<le> x" "x < 1"
  shows "backoff_step_ok d (fst (getBackoff rnd d s))"
proof -
  consider "0 < sint d \<and> sint d \<le> 15000000000"
    | "15000000000 < sint d \<and> sint d \<le> 8000000000000000000"
    | "\<not> (0 < sint d \<and> sint d \<le> 15000000000) \<and>
       \<not> (15000000000 < sint d \<and> sint d \<le> 8000000000000000000)"
    by blast
  then show ?thesis
  proof cases
    case 1
    then have d: "0 < sint d" "sint d \<le> 15000000000" by simp_all
    note g = getBackoff_low[of rnd s x s' d, OF rnd x d]
    have "real_of_int (1000 * sint (fst (getBackoff rnd d s))) \<le> real_of_int (2062 * sint d)"
      using g(2) by simp
    then have "1000 * sint (fst (getBackoff rnd d s)) \<le> 2062 * sint d" by linarith
    then show ?thesis using 1 g(1) by (simp add: backoff_step_ok_def)
  next
    case 2
    then have d: "15000000000 < sint d" "sint d \<le> 8000000000000000000" by simp_all
    note g = getBackoff_high[of rnd s x s' d, OF rnd x d]
    have "real_of_int (1009 * sint d) \<le> real_of_int (1000 * sint (fst (getBackoff rnd d s)))"
      using g(1) by simp
    then have a: "1009 * sint d \<le> 1000 * sint (fst (getBackoff rnd d s))" by linarith
    have "real_of_int (1000 * sint (fst (getBackoff rnd d s))) \<le> real_of_int (1031 * sint d)"
      using g(2) by simp
    then have b: "1000 * sint (fst (getBackoff rnd d s)) \<le> 1031 * sint d" by linarith
    show ?thesis using 2 a b by (simp add: backoff_step_ok_def)
  next
    case 3
    then show ?thesis by (auto simp: backoff_step_ok_def)
  qed
qed

lemma pow_chunk: "(2::real) \<le> (1009 / 1000) ^ 78"
  by (simp add: power_divide)

lemma pow_2652: "(2::real) ^ 34 \<le> (1009 / 1000) ^ 2652"
proof -
  have "(2::real) ^ 34 \<le> ((1009 / 1000) ^ 78) ^ 34"
    by (rule power_mono[OF pow_chunk]) simp
  also have "\<dots> = (1009 / 1000) ^ 2652"
    by (simp only: power_mult[symmetric]) simp
  finally show ?thesis .
qed

lemma signed_wrap:
  fixes a b :: "64 word"
  assumes "2 ^ 63 \<le> sint a + sint b"
  shows "sint (a + b) \<le> sint a + sint b - 2 ^ 64"
  using signed_take_bit_int_less_eq[of 63 "sint a + sint b"] assms
  by (simp add: sint_word_add)

lemma waits_of_run: "waits_of (concat (map (\<lambda>d. [Raw X, Wait d]) ws) @ [Raw X]) = ws"
  by (induction ws) simp_all

lemma nondecreasing_nth:
  "nondecreasing ds \<Longrightarrow> Suc k < length ds \<Longrightarrow> sint (ds ! k) \<le> sint (ds ! Suc k)"
proof (induction ds arbitrary: k rule: nondecreasing.induct)
  case (1 a b ds)
  then show ?case by (cases k) simp_all
qed simp_all

lemma getBackoff_grow:
  assumes rnd: "rnd s = (x, s')" and x: "0 \<le> x" "x < 1"
    and d: "1000000000 \<le> sint d"
    and mono: "sint d \<le> sint (fst (getBackoff rnd d s))"
  shows "1009 * sint d \<le> 1000 * sint (fst (getBackoff rnd d s))"
proof (cases "sint d \<le> 8000000000000000000")
  case True
  from getBackoff_step_ok[of rnd s x s' d, OF rnd x] True d show ?thesis
    by (simp add: backoff_step_ok_def split: if_splits)
next
  case False
  then have big: "8000000000000000000 < sint d" by simp
  have d0: "0 \<le> sint d" using d by simp
  note j = jitter_facts[of rnd s x s' d, OF rnd x d0]
  define J where "J = sint (fst (jitter rnd d s))"
  define D where "D = real_of_int (sint d)"
  have D: "8000000000000000000 < D" using big by (simp add: D_def)
  have Jlo: "D / 100 * (1 - 1 / 2 ^ 52) - 1 < real_of_int J" using j(2) by (simp add: J_def D_def)
  have "9 * D / 1000 \<le> D / 100 * (1 - 1 / 2 ^ 52) - 1" using D by simp
  then have Jlo': "9 * D / 1000 \<le> real_of_int J" using Jlo by linarith
  have G: "fst (getBackoff rnd d s) = d + fst (jitter rnd d s)"
    using big by (simp add: getBackoff_def split: prod.splits)
  have J63: "J < 2 ^ 63" unfolding J_def by (rule sint_range_64(2))
  have nowrap: "sint d + J < 2 ^ 63"
  proof (rule ccontr)
    assume "\<not> sint d + J < 2 ^ 63"
    then have "2 ^ 63 \<le> sint d + sint (fst (jitter rnd d s))" by (simp add: J_def)
    from signed_wrap[OF this] have "sint (d + fst (jitter rnd d s)) \<le> sint d + J - 2 ^ 64"
      by (simp add: J_def)
    then have "sint (fst (getBackoff rnd d s)) < sint d" using J63 G by simp
    then show False using mono by simp
  qed
  have J0: "0 \<le> J" using j(1) by (simp add: J_def)
  have sG: "sint (fst (getBackoff rnd d s)) = sint d + J"
    unfolding G J_def
    using nowrap J0 d0 by (subst sint_add_64) (simp_all add: J_def)
  have "real_of_int (1009 * sint d) \<le> real_of_int (1000 * (sint d + J))"
    using Jlo' by (simp add: D_def)
  then have "1009 * sint d \<le> 1000 * (sint d + J)" by linarith
  then show ?thesis using sG by simp
qed

lemma chain_steps:
  fixes env :: "('w, 'e) b2"
  assumes draws: "\<And>w. 0 \<le> fst (rand_Float64 env w) \<and> fst (rand_Float64 env w) < 1"
    and w: "w = fst (getBackoff (rt_Float64 (runtime_of env)) b (t :: ('w, 'l) state))"
  shows "backoff_step_ok b w"
    and "1000000000 \<le> sint b \<Longrightarrow> sint b \<le> sint w \<Longrightarrow> 1009 * sint b \<le> 1000 * sint w"
proof -
  have rnd: "rt_Float64 (runtime_of env) t =
      (fst (rand_Float64 env (world t)), t\<lparr>world := snd (rand_Float64 env (world t))\<rparr>)"
    by (rule rt_Float64_eq)
  note x = draws[of "world t", THEN conjunct1] draws[of "world t", THEN conjunct2]
  show "backoff_step_ok b w"
    unfolding w
    by (rule getBackoff_step_ok[of "rt_Float64 (runtime_of env)" t
          "fst (rand_Float64 env (world t))" "t\<lparr>world := snd (rand_Float64 env (world t))\<rparr>" b,
          OF rnd x])
  show "1009 * sint b \<le> 1000 * sint w" if "1000000000 \<le> sint b" "sint b \<le> sint w"
    using that unfolding w
    by (rule getBackoff_grow[of "rt_Float64 (runtime_of env)" t
          "fst (rand_Float64 env (world t))" "t\<lparr>world := snd (rand_Float64 env (world t))\<rparr>" b,
          OF rnd x])
qed

lemma steps_nondecreasing:
  "0 < sint b \<Longrightarrow> sint b \<le> 8000000000000000000 \<Longrightarrow>
   \<forall>k < length ws. backoff_step_ok ((b # ws) ! k) (ws ! k) \<Longrightarrow>
   \<forall>w \<in> set ws. sint w \<le> 8000000000000000000 \<Longrightarrow> nondecreasing (b # ws)"
proof (induction ws arbitrary: b)
  case Nil
  then show ?case by simp
next
  case (Cons w ws)
  from Cons.prems(3) have "backoff_step_ok ((b # w # ws) ! 0) ((w # ws) ! 0)" by blast
  then have s0: "backoff_step_ok b w" by simp
  have bw: "sint b \<le> sint w"
    using s0 Cons.prems(1,2) by (simp add: backoff_step_ok_def split: if_splits)
  have rest: "\<forall>k < length ws. backoff_step_ok ((w # ws) ! k) (ws ! k)"
  proof (intro allI impI)
    fix k assume "k < length ws"
    then have "Suc k < length (w # ws)" by simp
    with Cons.prems(3) have "backoff_step_ok ((b # w # ws) ! Suc k) ((w # ws) ! Suc k)" by blast
    then show "backoff_step_ok ((w # ws) ! k) (ws ! k)" by simp
  qed
  have "nondecreasing (w # ws)"
    using Cons.prems(1,4) bw rest by (intro Cons.IH) simp_all
  then show ?case using bw by simp
qed

lemma sint_500ms [simp]: "sint (500 * Millisecond) = 500000000"
  by (simp add: Millisecond_def)

lemma flaky_simps [simp]:
  "b2_backoff flaky_env rr e w = ((0, False), w)"
  "b2_transient flaky_env rr e w = (True, w)"
  "b2_authorizeAccount flaky_env rr c a k w = (if w = 0 then None else Some 1, w - 1)"
  "ctx_Done_first flaky_env c d w = (c = Ctx 1, w)"
  "ctx_Err flaky_env c w = (if c = Ctx 1 then Some 9 else None, w)"
  "rand_Float64 flaky_env w = (1 / 2, w)"
  "world (flaky_state n) = n" "trace (flaky_state n) = []"
  by (simp_all add: flaky_env_def flaky_state_def)

lemma flaky_getBackoff:
  fixes u :: "(nat, 'l) state"
  shows "getBackoff (rt_Float64 (runtime_of flaky_env)) d u = (fst (getBackoff (\<lambda>s. (1 / 2, s)) d ()), u)"
proof -
  have r: "rt_Float64 (runtime_of flaky_env) u = (1 / 2, u)" by (simp add: rt_Float64_eq)
  show ?thesis
    by (simp add: getBackoff_def jitter_eq[of "rt_Float64 (runtime_of flaky_env)" u "1 / 2" u, OF r]
        jitter_eq[of "\<lambda>s. (1 / 2, s)" "()" "1 / 2" "()"])
qed

lemma flaky_waits:
  "fst (getBackoff (\<lambda>s. (1 / 2, s)) (500 * Millisecond) ()) = 1020000000"
  "fst (getBackoff (\<lambda>s. (1 / 2, s)) 1020000000 ()) = 2080800000"
  by (simp_all add: jitter_eval)

lemma flaky_run_2:
  "map_option (\<lambda>r. (fst r, trace (snd r))) (flaky_run 2) =
     Some (None, [Raw AuthorizeAccount, Wait 1020000000, Raw AuthorizeAccount, Wait 2080800000,
                  Raw AuthorizeAccount])"
  unfolding flaky_run_def beRoot_authorizeAccount_def withBackoff_def
  apply (subst withBackoff_loop.simps)
  apply (simp add: authorizeAccount_f_def raw_eq beRoot_transient_def beRoot_backoff_def ext_eq
      select_eq flaky_getBackoff flaky_waits)
  apply (subst withBackoff_loop.simps)
  apply (simp add: authorizeAccount_f_def raw_eq beRoot_transient_def beRoot_backoff_def ext_eq
      select_eq flaky_getBackoff flaky_waits)
  apply (subst withBackoff_loop.simps)
  apply (simp add: authorizeAccount_f_def raw_eq beRoot_transient_def beRoot_backoff_def ext_eq
      select_eq flaky_getBackoff flaky_waits)
  done

lemma flaky_hyps:
  fixes u :: "(nat, 'l) state"
  shows "world u = 0 \<Longrightarrow> \<exists>u1. authorizeAccount_f flaky_env r c a k u = Some ((True, None), u1) \<and>
           trace u1 = trace u @ [Raw AuthorizeAccount]"
    and "0 < world u \<Longrightarrow> \<exists>e u1. authorizeAccount_f flaky_env r c a k u = Some ((False, e), u1) \<and>
           trace u1 = trace u @ [Raw AuthorizeAccount] \<and> world u1 = world u - 1"
    and "\<exists>u'. ri_transient (beRoot_classifier flaky_env r) e u = (True, u') \<and> trace u' = trace u \<and>
           world u' = world u"
    and "\<exists>bo u'. ri_backoff (beRoot_classifier flaky_env r) e u = ((bo, False), u') \<and>
           trace u' = trace u \<and> world u' = world u"
  by (simp_all add: authorizeAccount_f_def raw_eq beRoot_transient_def beRoot_backoff_def ext_eq)

lemma sorted_waits_grow:
  fixes env :: "('w, 'e) b2" and ws :: "duration list"
  assumes draws: "\<And>w. 0 \<le> fst (rand_Float64 env w) \<and> fst (rand_Float64 env w) < 1"
    and chain: "\<forall>k < length ws. \<exists>t :: ('w, 'l) state. ws ! k =
        fst (getBackoff (rt_Float64 (runtime_of env)) ((500 * Millisecond # ws) ! k) t)"
    and nd: "nondecreasing ws"
  shows "k < length ws \<Longrightarrow> 1000000000 * (1009 / 1000) ^ k \<le> real_of_int (sint (ws ! k))"
proof (induction k)
  case 0
  from chain[rule_format, OF 0] obtain t :: "('w, 'l) state" where
    "ws ! 0 = fst (getBackoff (rt_Float64 (runtime_of env)) ((500 * Millisecond # ws) ! 0) t)" ..
  then have "ws ! 0 = fst (getBackoff (rt_Float64 (runtime_of env)) (500 * Millisecond) t)"
    by simp
  from chain_steps(1)[OF draws this] have "1000000000 \<le> sint (ws ! 0)"
    by (simp add: backoff_step_ok_def)
  then show ?case by simp
next
  case (Suc k)
  then have k: "k < length ws" by simp
  from Suc.IH[OF k] have ih: "1000000000 * (1009 / 1000) ^ k \<le> real_of_int (sint (ws ! k))" .
  have "(1::real) \<le> (1009 / 1000) ^ k" by (rule one_le_power) simp
  then have "(1000000000::real) \<le> 1000000000 * (1009 / 1000) ^ k" by simp
  with ih have "(1000000000::real) \<le> real_of_int (sint (ws ! k))" by linarith
  then have big: "1000000000 \<le> sint (ws ! k)" by linarith
  have mono: "sint (ws ! k) \<le> sint (ws ! Suc k)"
    using nd Suc.prems by (rule nondecreasing_nth)
  from chain[rule_format, OF Suc.prems] obtain t :: "('w, 'l) state" where
    "ws ! Suc k = fst (getBackoff (rt_Float64 (runtime_of env)) ((500 * Millisecond # ws) ! Suc k) t)" ..
  then have "ws ! Suc k = fst (getBackoff (rt_Float64 (runtime_of env)) (ws ! k) t)"
    by simp
  from chain_steps(2)[OF draws this big mono]
  have "1009 * sint (ws ! k) \<le> 1000 * sint (ws ! Suc k)" .
  then have "real_of_int (1009 * sint (ws ! k)) \<le> real_of_int (1000 * sint (ws ! Suc k))"
    by (simp only: of_int_le_iff)
  then have "1009 / 1000 * real_of_int (sint (ws ! k)) \<le> real_of_int (sint (ws ! Suc k))"
    by simp
  moreover have "1009 / 1000 * (1000000000 * (1009 / 1000) ^ k) \<le> 1009 / 1000 * real_of_int (sint (ws ! k))"
    using ih by (intro mult_left_mono) simp_all
  ultimately show ?case by simp
qed

lemma long_runs_wrap:
  fixes env :: "('w, 'e) b2" and ws :: "duration list"
  assumes draws: "\<And>w. 0 \<le> fst (rand_Float64 env w) \<and> fst (rand_Float64 env w) < 1"
    and chain: "\<forall>k < length ws. \<exists>t :: ('w, 'l) state. ws ! k =
        fst (getBackoff (rt_Float64 (runtime_of env)) ((500 * Millisecond # ws) ! k) t)"
    and len: "2652 < length ws"
  shows "\<not> nondecreasing ws"
proof
  assume nd: "nondecreasing ws"
  from sorted_waits_grow[OF draws chain nd len]
  have "1000000000 * (1009 / 1000) ^ 2652 \<le> real_of_int (sint (ws ! 2652))" .
  moreover have "(1000000000::real) * 2 ^ 34 \<le> 1000000000 * (1009 / 1000) ^ 2652"
    using pow_2652 by (intro mult_left_mono) simp_all
  moreover have "real_of_int (sint (ws ! 2652)) < real_of_int (2 ^ 63)"
    using sint_range_64(2)[of "ws ! 2652"] by (simp only: of_int_less_iff)
  ultimately have "(1000000000::real) * 2 ^ 34 < real_of_int (2 ^ 63)" by linarith
  then show False by simp
qed

lemma flaky_run_chain:
  "\<exists>s' ws. flaky_run n = Some (None, s') \<and> waits_of (trace s') = ws \<and> length ws = n \<and>
     (\<forall>k < length ws. \<exists>t :: (nat, unit) state. ws ! k =
        fst (getBackoff (rt_Float64 (runtime_of flaky_env)) ((500 * Millisecond # ws) ! k) t))"
proof -
  have "\<exists>s' ws. withBackoff_loop (runtime_of flaky_env) (Ctx 0) (beRoot_classifier flaky_env 0)
        (authorizeAccount_f flaky_env 0 (Ctx 0) '''' '''') (500 * Millisecond) (flaky_state n) =
          Some (None, s') \<and>
      trace s' = trace (flaky_state n) @ concat (map (\<lambda>d. [Raw AuthorizeAccount, Wait d]) ws) @
        [Raw AuthorizeAccount] \<and>
      length ws = n \<and>
      (\<forall>k < n. \<exists>t :: (nat, unit) state. ws ! k =
         fst (getBackoff (rt_Float64 (runtime_of flaky_env)) ((500 * Millisecond # ws) ! k) t))"
    by (rule transient_run[where left = "\<lambda>w. w" and X = AuthorizeAccount and env = flaky_env
          and f = "authorizeAccount_f flaky_env 0 (Ctx 0) '''' ''''" and ctx = "Ctx 0"
          and ri = "beRoot_classifier flaky_env 0" and s = "flaky_state n" and n = n
          and b = "500 * Millisecond"])
      (erule flaky_hyps(1), erule flaky_hyps(2), rule flaky_hyps(3), rule flaky_hyps(4), simp_all)
  then obtain s' ws where
    run: "withBackoff_loop (runtime_of flaky_env) (Ctx 0) (beRoot_classifier flaky_env 0)
        (authorizeAccount_f flaky_env 0 (Ctx 0) '''' '''') (500 * Millisecond) (flaky_state n) =
          Some (None, s')"
    and tr: "trace s' = trace (flaky_state n) @
        concat (map (\<lambda>d. [Raw AuthorizeAccount, Wait d]) ws) @ [Raw AuthorizeAccount]"
    and len: "length ws = n"
    and ch: "\<forall>k < n. \<exists>t :: (nat, unit) state. ws ! k =
         fst (getBackoff (rt_Float64 (runtime_of flaky_env)) ((500 * Millisecond # ws) ! k) t)"
    by (elim exE conjE)
  have r: "flaky_run n = Some (None, s')"
    using run by (simp add: flaky_run_def beRoot_authorizeAccount_def withBackoff_def)
  have w: "waits_of (trace s') = ws"
    using tr by (simp add: waits_of_run)
  from r w len ch show ?thesis by simp
qed

lemma flaky_cancelled:
  "beRoot_authorizeAccount flaky_env 0 (Ctx 1) '''' '''' (flaky_state 1) =
   Some (Some 9, (flaky_state 0)\<lparr>trace := [Raw AuthorizeAccount, Cancelled 1020000000]\<rparr>)"
  unfolding beRoot_authorizeAccount_def withBackoff_def
  by (subst withBackoff_loop.simps)
    (simp add: authorizeAccount_f_def raw_eq beRoot_transient_def beRoot_backoff_def ext_eq
      select_eq rt_Err_eq flaky_getBackoff flaky_waits flaky_state_def)

lemma getBackoff_wraps:
  "sint (fst (getBackoff (\<lambda>s. (1 / 2, s)) 9100000000000000000 ())) = - 9164744073709551616"
  by code_simp

text \<open>
  C3, as stated, fails for a large \<open>N\<close>, and under a cancelled context. The running
  backoff value grows by at least 0.9 per cent at every retry, and \<^verbatim>\<open>d + jitter(d)\<close>
  is an \<^verbatim>\<open>int64\<close> sum: past \<open>2 ^ 63 - 1\<close> nanoseconds it wraps around, as at
  \<open>d = 9100000000000000000\<close>, where \<^verbatim>\<open>getBackoff\<close> returns a negative duration. With
  \<open>2653\<close> failures, every error transient, no override and every draw \<open>1 / 2\<close>,
  \<^verbatim>\<open>authorizeAccount\<close> returns success after \<open>2653\<close> waits, and these waits are not
  non-decreasing: were they, the last would be at least \<open>10 ^ 9 * 1.009 ^ 2652\<close>
  nanoseconds, more than \<open>2 ^ 63\<close>. And with one failure under a cancelled context the
  unit of work runs once, not twice, and the error of the context is returned.
\<close>

theorem waits_decrease_after_wrap_around:
  "flaky_run 2653 \<noteq> None \<and> fst (the (flaky_run 2653)) = None \<and>
   length (waits_of (trace (snd (the (flaky_run 2653))))) = 2653 \<and>
   \<not> nondecreasing (waits_of (trace (snd (the (flaky_run 2653))))) \<and>
   beRoot_authorizeAccount flaky_env 0 (Ctx 1) '''' '''' (flaky_state 1) =
     Some (Some 9, (flaky_state 0)\<lparr>trace := [Raw AuthorizeAccount, Cancelled 1020000000]\<rparr>)"
proof -
  from flaky_run_chain[of 2653] obtain s' ws where
    r: "flaky_run 2653 = Some (None, s')" and w: "waits_of (trace s') = ws"
    and len: "length ws = 2653"
    and ch: "\<forall>k < length ws. \<exists>t :: (nat, unit) state. ws ! k =
        fst (getBackoff (rt_Float64 (runtime_of flaky_env)) ((500 * Millisecond # ws) ! k) t)"
    by (elim exE conjE)
  have d: "\<And>w. 0 \<le> fst (rand_Float64 flaky_env w) \<and> fst (rand_Float64 flaky_env w) < 1"
    by simp
  have "2652 < length ws" using len by simp
  from long_runs_wrap[OF d ch this] have "\<not> nondecreasing ws" .
  then show ?thesis using r w len flaky_cancelled by simp
qed

text \<open>
  C3, amended: for every \<open>N\<close>, with a classifier that calls every error transient
  and never overrides the backoff, draws in \<open>[0, 1)\<close>, a context that is never
  cancelled (and a \<^verbatim>\<open>select\<close> that takes the \<^verbatim>\<open>Done\<close> case of a cancelled context
  only), and a unit of work that fails while \<open>left > 0\<close> failures are to come (one
  less after each) and succeeds at \<open>left = 0\<close>, \<^verbatim>\<open>withBackoff\<close> returns success, having
  run the unit of work \<open>N + 1\<close> times with \<open>N\<close> waits in between. The running backoff
  value starts at 500 ms; each wait is \<^verbatim>\<open>getBackoff\<close> of the running value before it,
  which is as \<open>backoff_step_ok\<close> says (at least twice that value up to 15 seconds,
  0.9 to 3.1 per cent more above, as long as it is at most \<open>8 * 10 ^ 18\<close>
  nanoseconds); and the waits never decrease as long as every wait is at most
  \<open>8 * 10 ^ 18\<close> nanoseconds.
\<close>

theorem transient_failures_are_retried:
  fixes s :: "('w, 'l) state" and ri :: "(('w, 'l) state, 'e, 'z) classifier_scheme"
    and left :: "'w \<Rightarrow> nat"
  assumes succeeds: "\<And>u. left (world u) = 0 \<Longrightarrow>
                  \<exists>u1. f u = Some ((True, None), u1) \<and> trace u1 = trace u @ [Raw X]"
    and fails: "\<And>u. 0 < left (world u) \<Longrightarrow>
                  \<exists>e u1. f u = Some ((False, e), u1) \<and> trace u1 = trace u @ [Raw X] \<and>
                    left (world u1) = left (world u) - 1"
    and transient: "\<And>e u. \<exists>u'. ri_transient ri e u = (True, u') \<and> trace u' = trace u \<and>
                  left (world u') = left (world u)"
    and override: "\<And>e u. \<exists>bo u'. ri_backoff ri e u = ((bo, False), u') \<and> trace u' = trace u \<and>
                  left (world u') = left (world u)"
    and draws: "\<And>w. 0 \<le> fst (rand_Float64 env w) \<and> fst (rand_Float64 env w) < 1 \<and>
                  left (snd (rand_Float64 env w)) = left w"
    and never: "\<And>w. \<not> cancelled env ctx w"
    and honest: "\<And>d w. fst (ctx_Done_first env ctx d w) \<Longrightarrow>
                  cancelled env ctx (snd (ctx_Done_first env ctx d w))"
    and waits: "\<And>d w. left (snd (ctx_Done_first env ctx d w)) = left w"
  shows "\<exists>s' ws. withBackoff (runtime_of env) ctx ri f s = Some (None, s') \<and>
      trace s' = trace s @ concat (map (\<lambda>d. [Raw X, Wait d]) ws) @ [Raw X] \<and>
      length ws = left (world s) \<and>
      (\<forall>k < length ws. \<exists>t :: ('w, 'l) state. ws ! k =
         fst (getBackoff (rt_Float64 (runtime_of env)) ((500 * Millisecond # ws) ! k) t)) \<and>
      (\<forall>k < length ws. backoff_step_ok ((500 * Millisecond # ws) ! k) (ws ! k)) \<and>
      ((\<forall>w \<in> set ws. sint w \<le> 8000000000000000000) \<longrightarrow> nondecreasing (500 * Millisecond # ws))"
proof -
  have d1: "\<And>w. left (snd (rand_Float64 env w)) = left w" using draws by blast
  have d2: "\<And>w. 0 \<le> fst (rand_Float64 env w) \<and> fst (rand_Float64 env w) < 1"
    using draws by blast
  have alive: "\<not> fst (ctx_Done_first env ctx d w) \<and>
      left (snd (ctx_Done_first env ctx d w)) = left w" for d w
  proof
    show "\<not> fst (ctx_Done_first env ctx d w)"
    proof
      assume "fst (ctx_Done_first env ctx d w)"
      from honest[OF this] never show False by simp
    qed
    show "left (snd (ctx_Done_first env ctx d w)) = left w" by (rule waits)
  qed
  obtain s' ws where
    run: "withBackoff_loop (runtime_of env) ctx ri f (500 * Millisecond) s = Some (None, s')"
    and tr: "trace s' = trace s @ concat (map (\<lambda>d. [Raw X, Wait d]) ws) @ [Raw X]"
    and len: "length ws = left (world s)"
    and ch: "\<forall>k < left (world s). \<exists>t :: ('w, 'l) state. ws ! k =
        fst (getBackoff (rt_Float64 (runtime_of env)) ((500 * Millisecond # ws) ! k) t)"
  proof -
    have "\<exists>s' ws. withBackoff_loop (runtime_of env) ctx ri f (500 * Millisecond) s = Some (None, s') \<and>
        trace s' = trace s @ concat (map (\<lambda>d. [Raw X, Wait d]) ws) @ [Raw X] \<and>
        length ws = left (world s) \<and>
        (\<forall>k < left (world s). \<exists>t :: ('w, 'l) state. ws ! k =
           fst (getBackoff (rt_Float64 (runtime_of env)) ((500 * Millisecond # ws) ! k) t))"
      by (rule transient_run[where f = f and left = left and X = X and ri = ri and env = env
            and ctx = ctx and s = s and n = "left (world s)" and b = "500 * Millisecond"])
        (erule succeeds, erule fails, rule transient, rule override, rule d1, rule alive, rule refl)
    then show ?thesis by (elim exE conjE) (rule that)
  qed
  have steps: "\<forall>k < length ws. backoff_step_ok ((500 * Millisecond # ws) ! k) (ws ! k)"
  proof (intro allI impI)
    fix k assume "k < length ws"
    then have "k < left (world s)" using len by simp
    from ch[rule_format, OF this] obtain t :: "('w, 'l) state" where
      "ws ! k = fst (getBackoff (rt_Float64 (runtime_of env)) ((500 * Millisecond # ws) ! k) t)" ..
    from chain_steps(1)[OF d2 this] show "backoff_step_ok ((500 * Millisecond # ws) ! k) (ws ! k)" .
  qed
  have nd: "nondecreasing (500 * Millisecond # ws)" if "\<forall>w \<in> set ws. sint w \<le> 8000000000000000000"
    using steps that by (intro steps_nondecreasing) simp_all
  have "withBackoff (runtime_of env) ctx ri f s = Some (None, s') \<and>
      trace s' = trace s @ concat (map (\<lambda>d. [Raw X, Wait d]) ws) @ [Raw X] \<and>
      length ws = left (world s) \<and>
      (\<forall>k < length ws. \<exists>t :: ('w, 'l) state. ws ! k =
         fst (getBackoff (rt_Float64 (runtime_of env)) ((500 * Millisecond # ws) ! k) t)) \<and>
      (\<forall>k < length ws. backoff_step_ok ((500 * Millisecond # ws) ! k) (ws ! k)) \<and>
      ((\<forall>w \<in> set ws. sint w \<le> 8000000000000000000) \<longrightarrow> nondecreasing (500 * Millisecond # ws))"
    using run tr len ch steps nd by (simp add: withBackoff_def)
  then show ?thesis by (intro exI)
qed

theorem transient_failures_are_retried_witness:
  "flaky_run 2 \<noteq> None \<and> fst (the (flaky_run 2)) = None \<and>
   trace (snd (the (flaky_run 2))) =
     [Raw AuthorizeAccount, Wait 1020000000, Raw AuthorizeAccount, Wait 2080800000,
      Raw AuthorizeAccount] \<and>
   backoff_step_ok (500 * Millisecond) 1020000000 \<and> backoff_step_ok 1020000000 2080800000 \<and>
   nondecreasing [500 * Millisecond, 1020000000, 2080800000]"
proof -
  have "\<exists>s' ws. withBackoff (runtime_of flaky_env) (Ctx 0) (beRoot_classifier flaky_env 0)
        (authorizeAccount_f flaky_env 0 (Ctx 0) '''' '''') (flaky_state 2) = Some (None, s') \<and>
      trace s' = trace (flaky_state 2) @ concat (map (\<lambda>d. [Raw AuthorizeAccount, Wait d]) ws) @
        [Raw AuthorizeAccount] \<and>
      length ws = world (flaky_state 2) \<and>
      (\<forall>k < length ws. \<exists>t :: (nat, unit) state. ws ! k =
         fst (getBackoff (rt_Float64 (runtime_of flaky_env)) ((500 * Millisecond # ws) ! k) t)) \<and>
      (\<forall>k < length ws. backoff_step_ok ((500 * Millisecond # ws) ! k) (ws ! k)) \<and>
      ((\<forall>w \<in> set ws. sint w \<le> 8000000000000000000) \<longrightarrow> nondecreasing (500 * Millisecond # ws))"
    by (rule transient_failures_are_retried[where left = "\<lambda>w. w" and X = AuthorizeAccount
          and env = flaky_env and f = "authorizeAccount_f flaky_env 0 (Ctx 0) '''' ''''"
          and ctx = "Ctx 0" and ri = "beRoot_classifier flaky_env 0" and s = "flaky_state 2"])
      (erule flaky_hyps(1), erule flaky_hyps(2), rule flaky_hyps(3), rule flaky_hyps(4),
       simp_all add: cancelled_def)
  then obtain s' ws where
    run: "withBackoff (runtime_of flaky_env) (Ctx 0) (beRoot_classifier flaky_env 0)
        (authorizeAccount_f flaky_env 0 (Ctx 0) '''' '''') (flaky_state 2) = Some (None, s')"
    and tr: "trace s' = trace (flaky_state 2) @
        concat (map (\<lambda>d. [Raw AuthorizeAccount, Wait d]) ws) @ [Raw AuthorizeAccount]"
    and steps: "\<forall>k < length ws. backoff_step_ok ((500 * Millisecond # ws) ! k) (ws ! k)"
    and nd: "(\<forall>w \<in> set ws. sint w \<le> 8000000000000000000) \<longrightarrow>
        nondecreasing (500 * Millisecond # ws)"
    by (elim exE conjE)
  have r: "flaky_run 2 = Some (None, s')"
    using run by (simp add: flaky_run_def beRoot_authorizeAccount_def)
  have t: "trace s' = [Raw AuthorizeAccount, Wait 1020000000, Raw AuthorizeAccount,
      Wait 2080800000, Raw AuthorizeAccount]"
    using flaky_run_2 r by simp
  have "waits_of (trace s') = ws" using tr by (simp add: waits_of_run)
  then have ws: "ws = [1020000000, 2080800000]" using t by simp
  have s0: "backoff_step_ok (500 * Millisecond) 1020000000"
    using steps[rule_format, of 0] by (simp add: ws)
  have s1: "backoff_step_ok 1020000000 2080800000"
    using steps[rule_format, of 1] by (simp add: ws)
  have "\<forall>w \<in> set ws. sint w \<le> 8000000000000000000" by (simp add: ws)
  with nd have n: "nondecreasing (500 * Millisecond # ws)" by (rule mp)
  have n': "nondecreasing [500 * Millisecond, 1020000000, 2080800000]"
    using n unfolding ws .
  from r t s0 s1 n' show ?thesis by simp
qed

end
